theory Spec2Isabelle
  imports Main "HOL-Library.Char_ord" "HOL-Library.List_Lexorder" "HOL-Library.Multiset"
begin

section \<open>Python values and library functions the notebook relies on\<close>

text \<open>
  The notebook \<^verbatim>\<open>MONAI_BYOS_spleen_segmentation_3D_Task.ipynb\<close> is a sequence of code
  cells. Its own logic is list and string manipulation around calls into MONAI, the
  SageMaker SDK, \<^verbatim>\<open>shutil\<close> and matplotlib. This section embeds the Python
  built-ins the cells use; exceptions are values of type \<open>exn\<close>.
\<close>

datatype exn =
    IndexError | KeyError string | TypeError | NameError string | SyntaxError
  | LibraryError string

text \<open>Values stored in the dictionaries the notebook builds: integers, strings and float
  literals. A float literal is kept as written, no arithmetic is done on it.\<close>

datatype pyval = PInt int | PStr string | PFloat string

type_synonym pydict = "(string \<times> pyval) list"

text \<open>\<^verbatim>\<open>d[k]\<close> on a dictionary literal (an association list in insertion order).\<close>

definition dict_get :: "(string \<times> 'v) list \<Rightarrow> string \<Rightarrow> exn + 'v" where
  "dict_get d k = (case map_of d k of None \<Rightarrow> Inl (KeyError k) | Some v \<Rightarrow> Inr v)"

text \<open>Reading a variable that a cell may or may not have assigned: an unassigned name
  raises \<^verbatim>\<open>NameError\<close>.\<close>

definition variable :: "string \<Rightarrow> 'a option \<Rightarrow> exn + 'a" where
  "variable name v = (case v of None \<Rightarrow> Inl (NameError name) | Some a \<Rightarrow> Inr a)"

text \<open>\<^verbatim>\<open>xs[i]\<close> on a list: a negative index counts from the end, an index out of range
  raises \<^verbatim>\<open>IndexError\<close>.\<close>

definition py_index :: "'a list \<Rightarrow> int \<Rightarrow> exn + 'a" where
  "py_index xs i =
     (let n = int (length xs); j = (if i < 0 then i + n else i)
      in if j < 0 \<or> n \<le> j then Inl IndexError else Inr (xs ! nat j))"

text \<open>Slice bounds: \<^verbatim>\<open>xs[:k]\<close> and \<^verbatim>\<open>xs[k:]\<close> clamp the bound into \<open>0..len(xs)\<close>
  after adding \<open>len(xs)\<close> to a negative one; slicing never raises.\<close>

definition slice_bound :: "nat \<Rightarrow> int \<Rightarrow> nat" where
  "slice_bound n k = (if k < 0 then nat (max 0 (int n + k)) else min n (nat k))"

definition slice_to :: "'a list \<Rightarrow> int \<Rightarrow> 'a list" where
  "slice_to xs k = take (slice_bound (length xs) k) xs"

definition slice_from :: "'a list \<Rightarrow> int \<Rightarrow> 'a list" where
  "slice_from xs k = drop (slice_bound (length xs) k) xs"

text \<open>\<^verbatim>\<open>range(a, b)\<close> over integers.\<close>

definition py_range :: "int \<Rightarrow> int \<Rightarrow> int list" where
  "py_range a b = [a..b - 1]"

text \<open>\<^verbatim>\<open>s.split(sep)\<close> for a one-character separator: the result is never empty.\<close>

fun str_split :: "char \<Rightarrow> string \<Rightarrow> string list" where
  "str_split sep [] = [[]]"
| "str_split sep (c # cs) =
     (if c = sep then [] # str_split sep cs
      else (case str_split sep cs of [] \<Rightarrow> [[c]] | w # ws \<Rightarrow> (c # w) # ws))"

text \<open>The decimal text of an integer, as an f-string \<^verbatim>\<open>f"{n}"\<close> formats it.\<close>

definition digit_char :: "nat \<Rightarrow> char" where
  "digit_char d = ''0123456789'' ! (d mod 10)"

fun digits :: "nat \<Rightarrow> string" where
  "digits n = (if n < 10 then [digit_char n] else digits (n div 10) @ [digit_char (n mod 10)])"

declare digits.simps [simp del]

definition str_of_int :: "int \<Rightarrow> string" where
  "str_of_int i = (if i < 0 then CHR ''-'' # digits (nat (- i)) else digits (nat i))"

text \<open>\<^verbatim>\<open>os.path.join(a, *p)\<close> on POSIX: a component that starts with \<open>/\<close> restarts
  the path, otherwise it is appended after exactly one separator.\<close>

definition join_step :: "string \<Rightarrow> string \<Rightarrow> string" where
  "join_step path b =
     (if b \<noteq> [] \<and> hd b = CHR ''/'' then b
      else if path = [] \<or> last path = CHR ''/'' then path @ b
      else path @ ''/'' @ b)"

definition path_join :: "string \<Rightarrow> string list \<Rightarrow> string" where
  "path_join a p = foldl join_step a p"

section \<open>The cell that pairs images with labels and splits the pairs\<close>

text \<open>
  \<^verbatim>\<open>data_dicts = [{"image": image_name, "label": label_name}
                for image_name, label_name in zip(train_images, train_labels)]
train_files, test_demo_files = data_dicts[:-1], data_dicts[-1:]\<close>
\<close>

type_synonym filedict = "(string \<times> string) list"

definition data_dicts :: "string list \<Rightarrow> string list \<Rightarrow> filedict list" where
  "data_dicts train_images train_labels =
     map (\<lambda>(image_name, label_name). [(''image'', image_name), (''label'', label_name)])
       (zip train_images train_labels)"

definition train_files :: "filedict list \<Rightarrow> filedict list" where
  "train_files dd = slice_to dd (- 1)"

definition test_demo_files :: "filedict list \<Rightarrow> filedict list" where
  "test_demo_files dd = slice_from dd (- 1)"

section \<open>Cells as computations over the outside world\<close>

text \<open>
  Everything a cell does outside Python's own data (the file system, S3, SageMaker, the
  plotting backend, the tensors MONAI loads) happens in a world of type \<open>'w\<close> that the
  notebook only reaches through library calls. A call may raise; it may change the
  world whether it raises or not. The state of a run is the world together with the
  trace of the library calls made so far, each with its outcome. A cell maps a state to
  a result (an exception or a value) and the state it leaves; \<open>seq\<close> runs the rest of
  a cell only when the first part returned, as Python does for consecutive statements.
\<close>

datatype transform =
    LoadImaged "string list"
  | EnsureChannelFirstd "string list"
  | Spacingd "string list"
  | Orientationd "string list"
  | ScaleIntensityRanged "string list"
  | CropForegroundd "string list" string
  | EnsureTyped "string list"

record metric =
  Name :: string
  Regex :: string

record estimator =
  source_dir :: string
  entry_point :: string
  role :: string
  framework_version :: string
  py_version :: string
  instance_count :: int
  instance_type :: string
  hyperparameters :: pydict
  metric_definitions :: "metric list"

text \<open>The arguments of \<^verbatim>\<open>estimator.deploy\<close>. The notebook leaves \<^verbatim>\<open>instance_type\<close>,
  \<^verbatim>\<open>serializer\<close> and \<^verbatim>\<open>deserializer\<close> as \<^verbatim>\<open><to do>\<close> for its reader; they are
  parameters here, and the settings of a run say whether they have been filled in.\<close>

record deploy_args =
  initial_instance_count :: int
  hosting_source_dir :: string
  hosting_entry_point :: string
  hosting_instance_type :: string
  serializer :: string
  deserializer :: string

text \<open>What \<^verbatim>\<open>predictor.predict\<close> returns: the pixel array of one slice (the notebook
  reads it as \<^verbatim>\<open>response["pred"]\<close>) or the location of a saved result.\<close>

datatype response = PixelArray "int list list" | StorageLocation string

datatype call =
    GetExecutionRole
  | NewSession
  | DefaultBucket
  | DownloadAndExtract string string string string
  | Compose "transform list"
  | LoadCheckData "filedict list" "transform list"
  | PlotCheck int
  | Mkdir string
  | Copy string string
  | UploadData string string string
  | PyTorch estimator
  | Fit string
  | Deploy deploy_args
  | Predict pydict
  | PlotResult int "int list list"

datatype outcome = Returned | Raised exn

record 'w state =
  world :: 'w
  trace :: "(call \<times> outcome) list"

type_synonym ('w, 'a) cell = "'w state \<Rightarrow> (exn + 'a) \<times> 'w state"

definition ret :: "'a \<Rightarrow> ('w, 'a) cell" where
  "ret a s = (Inr a, s)"

definition lift :: "exn + 'a \<Rightarrow> ('w, 'a) cell" where
  "lift r s = (r, s)"

definition seq :: "('w, 'a) cell \<Rightarrow> ('a \<Rightarrow> ('w, 'b) cell) \<Rightarrow> ('w, 'b) cell" where
  "seq m f s = (case m s of (Inl e, s') \<Rightarrow> (Inl e, s') | (Inr a, s') \<Rightarrow> f a s')"

text \<open>
  Four cells start with the cell magic \<^verbatim>\<open>%%time\<close>. IPython's \<^verbatim>\<open>time\<close> magic runs the
  body of the cell inside \<^verbatim>\<open>try: exec(code, glob, local_ns) except: self.shell.showtraceback();
  return\<close>: when a statement of the body raises, the traceback is shown, the rest of
  the body is skipped and the cell ends normally, so the next cell runs. The names the
  body had assigned before the raise stay assigned. \<open>caught m left f\<close> is one statement
  of such a body: it runs \<open>m\<close> and goes on with \<open>f\<close>; if \<open>m\<close> raises, the cell ends
  normally and \<open>left\<close> is what it has assigned by then.
\<close>

definition caught :: "('w, 'a) cell \<Rightarrow> 'b \<Rightarrow> ('a \<Rightarrow> ('w, 'b) cell) \<Rightarrow> ('w, 'b) cell" where
  "caught m left f s = (case m s of (Inl e, s') \<Rightarrow> (Inr left, s') | (Inr a, s') \<Rightarrow> f a s')"

definition observe :: "('w \<Rightarrow> 'a) \<Rightarrow> ('w, 'a) cell" where
  "observe f s = (Inr (f (world s)), s)"

definition outcome_of :: "exn + 'a \<Rightarrow> outcome" where
  "outcome_of r = (case r of Inl e \<Rightarrow> Raised e | Inr a \<Rightarrow> Returned)"

definition invoke :: "call \<Rightarrow> ('w \<Rightarrow> (exn + 'a) \<times> 'w) \<Rightarrow> ('w, 'a) cell" where
  "invoke c f s =
     (case f (world s) of (r, w') \<Rightarrow> (r, \<lparr>world = w', trace = trace s @ [(c, outcome_of r)]\<rparr>))"

text \<open>The library functions the notebook calls. \<^verbatim>\<open>os.path.exists\<close> and
  \<^verbatim>\<open>glob.glob\<close> only read the world. \<open>load_check_data\<close> stands for
  \<^verbatim>\<open>Dataset\<close>, \<^verbatim>\<open>DataLoader\<close> and \<^verbatim>\<open>first\<close>, whose tensors stay in the world;
  \<open>plot_check\<close> and \<open>plot_result\<close> stand for the matplotlib calls of one figure.\<close>

record 'w sdk =
  get_execution_role :: "'w \<Rightarrow> (exn + string) \<times> 'w"
  new_session :: "'w \<Rightarrow> (exn + unit) \<times> 'w"
  default_bucket :: "'w \<Rightarrow> (exn + string) \<times> 'w"
  path_exists :: "'w \<Rightarrow> string \<Rightarrow> bool"
  download_and_extract :: "string \<Rightarrow> string \<Rightarrow> string \<Rightarrow> string \<Rightarrow> 'w \<Rightarrow> (exn + unit) \<times> 'w"
  compose :: "transform list \<Rightarrow> 'w \<Rightarrow> (exn + unit) \<times> 'w"
  glob :: "'w \<Rightarrow> string \<Rightarrow> string list"
  load_check_data :: "filedict list \<Rightarrow> transform list \<Rightarrow> 'w \<Rightarrow> (exn + unit) \<times> 'w"
  plot_check :: "int \<Rightarrow> 'w \<Rightarrow> (exn + unit) \<times> 'w"
  mkdir :: "string \<Rightarrow> 'w \<Rightarrow> (exn + unit) \<times> 'w"
  copy :: "string \<Rightarrow> string \<Rightarrow> 'w \<Rightarrow> (exn + unit) \<times> 'w"
  upload_data :: "string \<Rightarrow> string \<Rightarrow> string \<Rightarrow> 'w \<Rightarrow> (exn + string) \<times> 'w"
  new_estimator :: "estimator \<Rightarrow> 'w \<Rightarrow> (exn + unit) \<times> 'w"
  fit :: "string \<Rightarrow> 'w \<Rightarrow> (exn + unit) \<times> 'w"
  deploy :: "deploy_args \<Rightarrow> 'w \<Rightarrow> (exn + unit) \<times> 'w"
  predict :: "pydict \<Rightarrow> 'w \<Rightarrow> (exn + response) \<times> 'w"
  plot_result :: "int \<Rightarrow> int list list \<Rightarrow> 'w \<Rightarrow> (exn + unit) \<times> 'w"

section \<open>The cells of the notebook\<close>

subsection \<open>Session\<close>

text \<open>
  \<^verbatim>\<open>role = get_execution_role()
sess = sagemaker.Session()
region = sess.boto_session.region_name
bucket = sess.default_bucket()\<close>

  The session object lives in the world; \<^verbatim>\<open>region\<close> is not used again.
\<close>

definition cell_session :: "'w sdk \<Rightarrow> ('w, string \<times> string) cell" where
  "cell_session env =
     seq (invoke GetExecutionRole (get_execution_role env)) (\<lambda>role.
     seq (invoke NewSession (new_session env)) (\<lambda>sess.
     seq (invoke DefaultBucket (default_bucket env)) (\<lambda>bucket.
     ret (role, bucket))))"

subsection \<open>Download\<close>

definition resource :: string where
  "resource = ''https://msd-for-monai.s3-us-west-2.amazonaws.com/Task09_Spleen.tar''"

definition md5 :: string where
  "md5 = ''410d4a301da4e5b2f6f86ec3ddba524e''"

definition compressed_file :: string where
  "compressed_file = ''./Task09_Spleen.tar''"

definition data_dir :: string where
  "data_dir = ''Spleen3D''"

text \<open>
  \<^verbatim>\<open>if not os.path.exists(data_dir):
    download_and_extract(resource, compressed_file, f"{data_dir}/datasets", md5)\<close>
\<close>

definition cell_download :: "'w sdk \<Rightarrow> ('w, unit) cell" where
  "cell_download env =
     seq (observe (\<lambda>w. path_exists env w data_dir)) (\<lambda>found.
       if \<not> found
       then invoke (DownloadAndExtract resource compressed_file (data_dir @ ''/datasets'') md5)
              (download_and_extract env resource compressed_file (data_dir @ ''/datasets'') md5)
       else ret ())"

subsection \<open>Transforms\<close>

text \<open>The list handed to \<^verbatim>\<open>Compose\<close>; each transform is kept with its keys (the numeric
  arguments of \<^verbatim>\<open>Spacingd\<close> and \<^verbatim>\<open>ScaleIntensityRanged\<close> play no part below).\<close>

definition val_transforms :: "transform list" where
  "val_transforms =
     [LoadImaged [''image'', ''label''],
      EnsureChannelFirstd [''image'', ''label''],
      Spacingd [''image'', ''label''],
      Orientationd [''image'', ''label''],
      ScaleIntensityRanged [''image''],
      CropForegroundd [''image'', ''label''] ''image'',
      EnsureTyped [''image'', ''label'']]"

definition cell_transforms :: "'w sdk \<Rightarrow> ('w, unit) cell" where
  "cell_transforms env = invoke (Compose val_transforms) (compose env val_transforms)"

subsection \<open>Listing and splitting the files\<close>

text \<open>
  \<^verbatim>\<open>train_images = sorted(
    glob.glob(os.path.join(data_dir, "datasets/Task09_Spleen/imagesTr", "*.nii.gz")))
train_labels = sorted(
    glob.glob(os.path.join(data_dir, "datasets/Task09_Spleen/labelsTr", "*.nii.gz")))\<close>
\<close>

definition train_images :: "'w sdk \<Rightarrow> 'w \<Rightarrow> string list" where
  "train_images env w =
     sort (glob env w (path_join data_dir [''datasets/Task09_Spleen/imagesTr'', ''*.nii.gz'']))"

definition train_labels :: "'w sdk \<Rightarrow> 'w \<Rightarrow> string list" where
  "train_labels env w =
     sort (glob env w (path_join data_dir [''datasets/Task09_Spleen/labelsTr'', ''*.nii.gz'']))"

definition cell_split :: "'w sdk \<Rightarrow> ('w, filedict list) cell" where
  "cell_split env = observe (\<lambda>w. data_dicts (train_images env w) (train_labels env w))"

subsection \<open>Looking at the held-out volume\<close>

text \<open>
  \<^verbatim>\<open>check_ds = Dataset(data=test_demo_files, transform=val_transforms)
check_loader = DataLoader(check_ds, batch_size=1)
check_data = first(check_loader)
image, label = (check_data["image"][0][0], check_data["label"][0][0])
...
plt.imshow(image[:, :, 80], cmap="gray")
...
plt.imshow(label[:, :, 80])
plt.show()\<close>
\<close>

definition cell_check :: "'w sdk \<Rightarrow> filedict list \<Rightarrow> ('w, unit) cell" where
  "cell_check env test_files =
     seq (invoke (LoadCheckData test_files val_transforms)
            (load_check_data env test_files val_transforms)) (\<lambda>check_data.
     invoke (PlotCheck 80) (plot_check env 80))"

subsection \<open>Directories for the processed data\<close>

definition prefix :: string where
  "prefix = ''MONAI_Segmentation''"

definition processed_train_path :: string where
  "processed_train_path = path_join data_dir [''processed'', ''train'']"

definition processed_test_path :: string where
  "processed_test_path = path_join data_dir [''processed'', ''test'']"

definition processed_train_images_path :: string where
  "processed_train_images_path = path_join processed_train_path [''imagesTr'']"

definition processed_train_labels_path :: string where
  "processed_train_labels_path = path_join processed_train_path [''labelsTr'']"

definition processed_test_images_path :: string where
  "processed_test_images_path = path_join processed_test_path [''imagesTr'']"

definition processed_test_labels_path :: string where
  "processed_test_labels_path = path_join processed_test_path [''labelsTr'']"

text \<open>Four \<^verbatim>\<open>Path(...).mkdir(parents=True, exist_ok=True)\<close>, train before test, images
  before labels (the two \<^verbatim>\<open>print\<close> lines are left out).\<close>

definition cell_mkdirs :: "'w sdk \<Rightarrow> ('w, unit) cell" where
  "cell_mkdirs env =
     seq (invoke (Mkdir processed_train_images_path) (mkdir env processed_train_images_path)) (\<lambda>_.
     seq (invoke (Mkdir processed_train_labels_path) (mkdir env processed_train_labels_path)) (\<lambda>_.
     seq (invoke (Mkdir processed_test_images_path) (mkdir env processed_test_images_path)) (\<lambda>_.
     invoke (Mkdir processed_test_labels_path) (mkdir env processed_test_labels_path))))"

subsection \<open>Copying the files\<close>

text \<open>
  \<^verbatim>\<open>for file in train_files:
    images = file["image"]
    images_dest = processed_train_images_path
    label = file["label"]
    label_dest = processed_train_labels_path
    shutil.copy(images,images_dest)
    shutil.copy(label,label_dest)\<close>

  and the same loop over \<^verbatim>\<open>test_demo_files\<close> with the test directories.
\<close>

fun copy_files :: "'w sdk \<Rightarrow> filedict list \<Rightarrow> string \<Rightarrow> string \<Rightarrow> ('w, unit) cell" where
  "copy_files env [] images_dest label_dest = ret ()"
| "copy_files env (file # files) images_dest label_dest =
     seq (lift (dict_get file ''image'')) (\<lambda>images.
     seq (lift (dict_get file ''label'')) (\<lambda>label.
     seq (invoke (Copy images images_dest) (copy env images images_dest)) (\<lambda>_.
     seq (invoke (Copy label label_dest) (copy env label label_dest)) (\<lambda>_.
     copy_files env files images_dest label_dest))))"

subsection \<open>Uploads\<close>

text \<open>
  \<^verbatim>\<open>S3_inputs = sess.upload_data(path=processed_train_path,
    key_prefix=f"{prefix}/train", bucket=bucket)
S3_demo_test = sess.upload_data(path=processed_test_images_path,
    key_prefix=f"{prefix}/test", bucket=bucket)\<close>
\<close>

definition cell_upload_train :: "'w sdk \<Rightarrow> string \<Rightarrow> ('w, string) cell" where
  "cell_upload_train env bucket =
     invoke (UploadData processed_train_path (prefix @ ''/train'') bucket)
       (upload_data env processed_train_path (prefix @ ''/train'') bucket)"

definition cell_upload_test :: "'w sdk \<Rightarrow> string \<Rightarrow> ('w, string) cell" where
  "cell_upload_test env bucket =
     invoke (UploadData processed_test_images_path (prefix @ ''/test'') bucket)
       (upload_data env processed_test_images_path (prefix @ ''/test'') bucket)"

subsection \<open>Training job\<close>

text \<open>The regular expressions are the Python string values: the notebook writes the
  class as \<^verbatim>\<open>[0-9\\.]\<close> in a string literal, which is the text \<^verbatim>\<open>[0-9\.]\<close>.\<close>

definition numeric_group :: string where
  "numeric_group = ''([0-9'' @ [CHR 0x5C] @ ''.]*)''"

definition metrics :: "metric list" where
  "metrics =
     [\<lparr>Name = ''train:average epoch loss'', Regex = ''average loss: '' @ numeric_group\<rparr>,
      \<lparr>Name = ''train:current mean dice'', Regex = ''current mean dice: '' @ numeric_group\<rparr>,
      \<lparr>Name = ''train:best mean dice'', Regex = ''best mean dice: '' @ numeric_group\<rparr>]"

definition pytorch_estimator :: "string \<Rightarrow> estimator" where
  "pytorch_estimator role_arn =
     \<lparr>source_dir = ''code'',
      entry_point = ''train.py'',
      role = role_arn,
      framework_version = ''1.6.0'',
      py_version = ''py3'',
      instance_count = 1,
      instance_type = ''ml.g4dn.2xlarge'',
      hyperparameters = [(''seed'', PInt 123), (''lr'', PFloat ''0.001''), (''epochs'', PInt 20)],
      metric_definitions = metrics\<rparr>"

text \<open>
  \<^verbatim>\<open>%%time
metrics=[...]
estimator = PyTorch(source_dir="code", entry_point="train.py", role=role, ...)
estimator.fit(S3_inputs)\<close>

  The cell runs under \<^verbatim>\<open>%%time\<close>, so it always ends normally. Its result says whether
  the name \<^verbatim>\<open>estimator\<close> is assigned afterwards (the object itself lives in the world):
  it is not when the constructor raised, and it is when \<^verbatim>\<open>fit\<close> raised.
\<close>

definition cell_train :: "'w sdk \<Rightarrow> string \<Rightarrow> string \<Rightarrow> ('w, unit option) cell" where
  "cell_train env role_arn S3_inputs =
     caught (invoke (PyTorch (pytorch_estimator role_arn))
               (new_estimator env (pytorch_estimator role_arn))) None (\<lambda>estimator.
     caught (invoke (Fit S3_inputs) (fit env S3_inputs)) (Some estimator) (\<lambda>_.
     ret (Some estimator)))"

subsection \<open>Endpoint\<close>

text \<open>The arguments of the deploy call: three are written in the cell, three are left as
  \<^verbatim>\<open><to do>\<close> and are parameters here.\<close>

definition deploy_arguments :: "string \<Rightarrow> string \<Rightarrow> string \<Rightarrow> deploy_args" where
  "deploy_arguments todo_instance_type todo_serializer todo_deserializer =
     \<lparr>initial_instance_count = 1,
      hosting_source_dir = ''code'',
      hosting_entry_point = ''inference.py'',
      hosting_instance_type = todo_instance_type,
      serializer = todo_serializer,
      deserializer = todo_deserializer\<rparr>"

text \<open>
  \<^verbatim>\<open>predictor = estimator.deploy(initial_instance_count=1, source_dir="code",
    entry_point="inference.py", instance_type=<to do>, serializer=<to do>,
    deserializer=<to do>)\<close>

  As shipped (\<open>hosting = None\<close>) the cell does not compile and raises
  \<^verbatim>\<open>SyntaxError\<close> before anything runs. With the three arguments filled in it reads
  \<^verbatim>\<open>estimator\<close>, which the training cell may have left unassigned, and calls
  \<^verbatim>\<open>deploy\<close>.
\<close>

definition cell_deploy :: "'w sdk \<Rightarrow> unit option \<Rightarrow> deploy_args option \<Rightarrow> ('w, unit) cell" where
  "cell_deploy env estimator hosting =
     (case hosting of
        None \<Rightarrow> lift (Inl SyntaxError)
      | Some args \<Rightarrow>
          seq (lift (variable ''estimator'' estimator)) (\<lambda>_.
          invoke (Deploy args) (deploy env args)))"

subsection \<open>One request per slice\<close>

text \<open>The payload dictionary, with its keys in the order the notebook writes them.\<close>

definition payload :: "string \<Rightarrow> string \<Rightarrow> string \<Rightarrow> pyval \<Rightarrow> pydict" where
  "payload bucket prefix_key file nslice =
     [(''bucket'', PStr bucket), (''key'', PStr prefix_key), (''file'', PStr file),
      (''nslice'', nslice)]"

text \<open>
  \<^verbatim>\<open>for counter in range(int(nslicestart),int(nsliceend)):
    payload={"bucket": bucket, "key": prefix_key, "file": file, "nslice": counter}
    response_pred=predictor.predict(payload)
    print("inference for slice",counter)
    test_demo_preds.append(response_pred)\<close>
\<close>

fun predict_loop ::
  "'w sdk \<Rightarrow> string \<Rightarrow> string \<Rightarrow> string \<Rightarrow> int list \<Rightarrow> response list \<Rightarrow> ('w, response list) cell"
where
  "predict_loop env bucket prefix_key file [] test_demo_preds = ret test_demo_preds"
| "predict_loop env bucket prefix_key file (counter # rest) test_demo_preds =
     seq (invoke (Predict (payload bucket prefix_key file (PInt counter)))
            (predict env (payload bucket prefix_key file (PInt counter)))) (\<lambda>response_pred.
     predict_loop env bucket prefix_key file rest (test_demo_preds @ [response_pred]))"

text \<open>
  The same loop as it runs in a cell under \<^verbatim>\<open>%%time\<close>: when a request raises, the cell
  ends normally, \<^verbatim>\<open>test_demo_preds\<close> holds the responses collected before the raise and
  \<^verbatim>\<open>file\<close> is assigned.
\<close>

fun predict_loop_timed ::
  "'w sdk \<Rightarrow> string \<Rightarrow> string \<Rightarrow> string \<Rightarrow> int list \<Rightarrow> response list \<Rightarrow>
   ('w, string option \<times> response list) cell"
where
  "predict_loop_timed env bucket prefix_key file [] test_demo_preds =
     ret (Some file, test_demo_preds)"
| "predict_loop_timed env bucket prefix_key file (counter # rest) test_demo_preds =
     caught (invoke (Predict (payload bucket prefix_key file (PInt counter)))
               (predict env (payload bucket prefix_key file (PInt counter))))
       (Some file, test_demo_preds) (\<lambda>response_pred.
     predict_loop_timed env bucket prefix_key file rest (test_demo_preds @ [response_pred]))"

text \<open>
  \<^verbatim>\<open>test_demo_preds=[]
nsliceend=10  #makesure nsliceend<=totalslice
nslicestart = 0
prefix_key = f"{prefix}/test"
file = test_demo_files[0]["image"].split("/")[-1]\<close>

  followed by the loop: the body of the cell, as Python runs it. The two bounds are
  arguments of the cell (the notebook's values are \<open>0\<close> and \<open>10\<close>); \<^verbatim>\<open>totalslice\<close> is
  computed and not used.
\<close>

definition prefix_key :: string where
  "prefix_key = prefix @ ''/test''"

definition cell_inference_loop ::
  "'w sdk \<Rightarrow> string \<Rightarrow> filedict list \<Rightarrow> int \<Rightarrow> int \<Rightarrow> ('w, string \<times> response list) cell"
where
  "cell_inference_loop env bucket test_files nslicestart nsliceend =
     seq (lift (py_index test_files 0)) (\<lambda>first_file.
     seq (lift (dict_get first_file ''image'')) (\<lambda>image_path.
     seq (lift (py_index (str_split CHR ''/'' image_path) (- 1))) (\<lambda>file.
     seq (predict_loop env bucket prefix_key file (py_range nslicestart nsliceend) [])
       (\<lambda>test_demo_preds.
     ret (file, test_demo_preds)))))"

text \<open>
  The cell itself starts with \<^verbatim>\<open>%%time\<close>, so a raise in its body ends the cell normally
  with what the body has assigned so far: \<^verbatim>\<open>test_demo_preds\<close> is empty and \<^verbatim>\<open>file\<close>
  unassigned when the line that assigns \<^verbatim>\<open>file\<close> raises, and the loop is as above.
\<close>

definition cell_inference_loop_timed ::
  "'w sdk \<Rightarrow> string \<Rightarrow> filedict list \<Rightarrow> int \<Rightarrow> int \<Rightarrow>
   ('w, string option \<times> response list) cell"
where
  "cell_inference_loop_timed env bucket test_files nslicestart nsliceend =
     caught (lift (py_index test_files 0)) (None, []) (\<lambda>first_file.
     caught (lift (dict_get first_file ''image'')) (None, []) (\<lambda>image_path.
     caught (lift (py_index (str_split CHR ''/'' image_path) (- 1))) (None, []) (\<lambda>file.
     predict_loop_timed env bucket prefix_key file (py_range nslicestart nsliceend) [])))"

subsection \<open>Reading and plotting one predicted slice\<close>

text \<open>\<^verbatim>\<open>response["pred"]\<close>: only the single-slice response has a pixel array.\<close>

definition pred_of :: "response \<Rightarrow> exn + int list list" where
  "pred_of r = (case r of PixelArray px \<Rightarrow> Inr px | StorageLocation loc \<Rightarrow> Inl TypeError)"

text \<open>
  \<^verbatim>\<open>nslice=1
sys.getsizeof(torch.tensor(test_demo_preds[nslice]["pred"]))\<close>
\<close>

definition cell_tensor_size :: "response list \<Rightarrow> int \<Rightarrow> ('w, int list list) cell" where
  "cell_tensor_size test_demo_preds nslice =
     seq (lift (py_index test_demo_preds nslice)) (\<lambda>response_pred.
     lift (pred_of response_pred))"

text \<open>
  \<^verbatim>\<open>plt.imshow(test_demo_data["image"][0, 0, :, :, nslicestart+nslice], cmap="gray")
...
plt.imshow(test_demo_data["label"][0, 0, :, :, nslicestart+nslice])
...
plt.imshow(test_demo_preds[nslice]["pred"])
plt.show()\<close>
\<close>

definition cell_plot_result :: "'w sdk \<Rightarrow> response list \<Rightarrow> int \<Rightarrow> int \<Rightarrow> ('w, unit) cell" where
  "cell_plot_result env test_demo_preds nslicestart nslice =
     seq (lift (py_index test_demo_preds nslice)) (\<lambda>response_pred.
     seq (lift (pred_of response_pred)) (\<lambda>pred.
     invoke (PlotResult (nslicestart + nslice) pred)
       (plot_result env (nslicestart + nslice) pred)))"

subsection \<open>A range of slices, and all slices\<close>

text \<open>
  \<^verbatim>\<open>%%time
slicestart=70
sliceend=75
sliceselect = f"{slicestart}:{sliceend}"
payload_multi={"bucket": bucket, "key": prefix_key, "file": file, "nslice": sliceselect}
response_multi_pred=predictor.predict(payload_multi)\<close>

  The two bounds are arguments of the cell. The cell runs under \<^verbatim>\<open>%%time\<close>: when reading
  \<^verbatim>\<open>file\<close> or the request raises, the cell ends normally and
  \<^verbatim>\<open>response_multi_pred\<close> stays unassigned.
\<close>

definition sliceselect :: "int \<Rightarrow> int \<Rightarrow> string" where
  "sliceselect slicestart sliceend = str_of_int slicestart @ '':'' @ str_of_int sliceend"

definition payload_multi :: "string \<Rightarrow> string \<Rightarrow> int \<Rightarrow> int \<Rightarrow> pydict" where
  "payload_multi bucket file slicestart sliceend =
     payload bucket prefix_key file (PStr (sliceselect slicestart sliceend))"

definition cell_multi ::
  "'w sdk \<Rightarrow> string \<Rightarrow> string option \<Rightarrow> int \<Rightarrow> int \<Rightarrow> ('w, response option) cell"
where
  "cell_multi env bucket file slicestart sliceend =
     caught (lift (variable ''file'' file)) None (\<lambda>file_name.
     caught (invoke (Predict (payload_multi bucket file_name slicestart sliceend))
               (predict env (payload_multi bucket file_name slicestart sliceend))) None
       (\<lambda>response_multi_pred.
     ret (Some response_multi_pred)))"

text \<open>
  \<^verbatim>\<open>%%time
payload_all={"bucket": bucket, "key": prefix_key, "file": file, "nslice": "all"}
response_all_pred=predictor.predict(payload_all)\<close>
\<close>

definition payload_all :: "string \<Rightarrow> string \<Rightarrow> pydict" where
  "payload_all bucket file = payload bucket prefix_key file (PStr ''all'')"

definition cell_all :: "'w sdk \<Rightarrow> string \<Rightarrow> string option \<Rightarrow> ('w, response option) cell" where
  "cell_all env bucket file =
     caught (lift (variable ''file'' file)) None (\<lambda>file_name.
     caught (invoke (Predict (payload_all bucket file_name))
               (predict env (payload_all bucket file_name))) None (\<lambda>response_all_pred.
     ret (Some response_all_pred)))"

section \<open>The notebook, top to bottom\<close>

text \<open>The values the notebook assigns inside its cells, and the arguments of the deploy
  cell: \<open>None\<close> is the cell as shipped, with \<^verbatim>\<open><to do>\<close> in it.\<close>

record settings =
  nslicestart :: int
  nsliceend :: int
  nslice :: int
  slicestart :: int
  sliceend :: int
  hosting :: "deploy_args option"

definition notebook_settings :: "string \<Rightarrow> string \<Rightarrow> string \<Rightarrow> settings" where
  "notebook_settings todo_instance_type todo_serializer todo_deserializer =
     \<lparr>nslicestart = 0, nsliceend = 10, nslice = 1, slicestart = 70, sliceend = 75,
      hosting = Some (deploy_arguments todo_instance_type todo_serializer todo_deserializer)\<rparr>"

definition shipped_settings :: settings where
  "shipped_settings =
     \<lparr>nslicestart = 0, nsliceend = 10, nslice = 1, slicestart = 70, sliceend = 75,
      hosting = None\<rparr>"

text \<open>The variables a finished run leaves behind. The last three are assigned in
  \<^verbatim>\<open>%%time\<close> cells and may be missing.\<close>

record variables =
  var_bucket :: string
  var_data_dicts :: "filedict list"
  var_train_files :: "filedict list"
  var_test_demo_files :: "filedict list"
  var_S3_inputs :: string
  var_S3_demo_test :: string
  var_file :: "string option"
  var_test_demo_preds :: "response list"
  var_response_multi_pred :: "response option"
  var_response_all_pred :: "response option"

text \<open>The installation and import cells come first and are not part of the model; the
  cells that only display a value or rename one (\<^verbatim>\<open>test_demo_files\<close>,
  \<^verbatim>\<open>test_demo_ds = check_ds\<close>) and the commented-out clean-up cells do nothing here.
  The cells run in order and the run stops at the first cell that raises; a cell under
  \<^verbatim>\<open>%%time\<close> never does.\<close>

definition notebook :: "'w sdk \<Rightarrow> settings \<Rightarrow> ('w, variables) cell" where
  "notebook env cfg =
     seq (cell_session env) (\<lambda>(role_arn, bucket).
     seq (cell_download env) (\<lambda>_.
     seq (cell_transforms env) (\<lambda>_.
     seq (cell_split env) (\<lambda>dd.
     seq (cell_check env (test_demo_files dd)) (\<lambda>_.
     seq (cell_mkdirs env) (\<lambda>_.
     seq (copy_files env (train_files dd)
            processed_train_images_path processed_train_labels_path) (\<lambda>_.
     seq (copy_files env (test_demo_files dd)
            processed_test_images_path processed_test_labels_path) (\<lambda>_.
     seq (cell_upload_train env bucket) (\<lambda>S3_inputs.
     seq (cell_upload_test env bucket) (\<lambda>S3_demo_test.
     seq (cell_train env role_arn S3_inputs) (\<lambda>estimator.
     seq (cell_deploy env estimator (hosting cfg)) (\<lambda>_.
     seq (cell_inference_loop_timed env bucket (test_demo_files dd)
            (nslicestart cfg) (nsliceend cfg)) (\<lambda>(file, test_demo_preds).
     seq (cell_tensor_size test_demo_preds (nslice cfg)) (\<lambda>_.
     seq (cell_plot_result env test_demo_preds (nslicestart cfg) (nslice cfg)) (\<lambda>_.
     seq (cell_multi env bucket file (slicestart cfg) (sliceend cfg)) (\<lambda>response_multi_pred.
     seq (cell_all env bucket file) (\<lambda>response_all_pred.
     ret \<lparr>var_bucket = bucket,
          var_data_dicts = dd,
          var_train_files = train_files dd,
          var_test_demo_files = test_demo_files dd,
          var_S3_inputs = S3_inputs,
          var_S3_demo_test = S3_demo_test,
          var_file = file,
          var_test_demo_preds = test_demo_preds,
          var_response_multi_pred = response_multi_pred,
          var_response_all_pred = response_all_pred\<rparr>)))))))))))))))))"

section \<open>The request format and the endpoint\<close>

text \<open>The three forms of the \<^verbatim>\<open>nslice\<close> field: an integer, a range text
  \<^verbatim>\<open>start:end\<close> of two decimal integers, or the text \<^verbatim>\<open>all\<close>.\<close>

definition is_digit :: "char \<Rightarrow> bool" where
  "is_digit c = (c \<in> set ''0123456789'')"

definition is_int_text :: "string \<Rightarrow> bool" where
  "is_int_text s =
     (case s of
        [] \<Rightarrow> False
      | c # cs \<Rightarrow> if c = CHR ''-'' then cs \<noteq> [] \<and> list_all is_digit cs
                 else list_all is_digit (c # cs))"

definition is_range_text :: "string \<Rightarrow> bool" where
  "is_range_text s =
     (case str_split CHR '':'' s of
        [a, b] \<Rightarrow> is_int_text a \<and> is_int_text b
      | _ \<Rightarrow> False)"

datatype selector = SingleSlice int | SliceRange string | AllSlices

definition selector_of :: "pyval \<Rightarrow> selector option" where
  "selector_of v =
     (case v of
        PInt n \<Rightarrow> Some (SingleSlice n)
      | PStr t \<Rightarrow> if t = ''all'' then Some AllSlices
                  else if is_range_text t then Some (SliceRange t) else None
      | PFloat x \<Rightarrow> None)"

definition request_keys :: "string list" where
  "request_keys = [''bucket'', ''key'', ''file'', ''nslice'']"

definition well_formed_request :: "pydict \<Rightarrow> bool" where
  "well_formed_request p =
     (map fst p = request_keys \<and>
      (case map_of p ''nslice'' of None \<Rightarrow> False | Some v \<Rightarrow> selector_of v \<noteq> None))"

text \<open>
  Modelled from the spec: the endpoint that answers \<^verbatim>\<open>predictor.predict\<close>. Its code
  (the entry point \<^verbatim>\<open>inference.py\<close> of the deployed source directory) is not among the
  sources. The spec gives its interface: a request object with the keys bucket, key, file
  and nslice; for an integer nslice the response is the pixel array of that slice, for a
  range text or \<^verbatim>\<open>all\<close> it is the storage location where the result was saved. The
  segmentation itself and the place where results are saved are parameters. For a request
  outside this interface the spec promises nothing; the model raises.
\<close>

record backend =
  infer_slice :: "pydict \<Rightarrow> int \<Rightarrow> int list list"
  save_result :: "pydict \<Rightarrow> string \<Rightarrow> string"

definition endpoint :: "backend \<Rightarrow> pydict \<Rightarrow> exn + response" where
  "endpoint be p =
     (if set (map fst p) \<noteq> set request_keys \<or> \<not> distinct (map fst p)
      then Inl (LibraryError ''payload'')
      else (case map_of p ''nslice'' of
              None \<Rightarrow> Inl (LibraryError ''payload'')
            | Some v \<Rightarrow>
                (case selector_of v of
                   None \<Rightarrow> Inl (LibraryError ''nslice'')
                 | Some (SingleSlice n) \<Rightarrow> Inr (PixelArray (infer_slice be p n))
                 | Some (SliceRange t) \<Rightarrow> Inr (StorageLocation (save_result be p t))
                 | Some AllSlices \<Rightarrow> Inr (StorageLocation (save_result be p ''all'')))))"

section \<open>A small world to run the notebook in\<close>

text \<open>A world that is a list of the paths that exist, with library functions that always
  return: the download puts two volumes in place, the endpoint is the one above.\<close>

definition sample_backend :: backend where
  "sample_backend =
     \<lparr>infer_slice = (\<lambda>p n. [[n, 0], [0, 1]]),
      save_result = (\<lambda>p t. ''s3://sample-bucket/inference/'' @ t)\<rparr>"

definition sample_glob :: "string list \<Rightarrow> string \<Rightarrow> string list" where
  "sample_glob w pat =
     (case str_split CHR ''*'' pat of
        [pre, suf] \<Rightarrow>
          filter (\<lambda>name. length pre + length suf \<le> length name
                    \<and> take (length pre) name = pre
                    \<and> drop (length name - length suf) name = suf
                    \<and> CHR ''/'' \<notin> set (drop (length pre) name)) w
      | _ \<Rightarrow> filter (\<lambda>name. name = pat) w)"

definition sample_download ::
  "string \<Rightarrow> string \<Rightarrow> string \<Rightarrow> string \<Rightarrow> string list \<Rightarrow> (exn + unit) \<times> string list"
where
  "sample_download url filepath output_dir hash_val w =
     (Inr (),
      w @ [filepath, takeWhile (\<lambda>c. c \<noteq> CHR ''/'') output_dir,
           output_dir @ ''/Task09_Spleen/imagesTr/spleen_2.nii.gz'',
           output_dir @ ''/Task09_Spleen/imagesTr/spleen_10.nii.gz'',
           output_dir @ ''/Task09_Spleen/imagesTr/._spleen_2.txt'',
           output_dir @ ''/Task09_Spleen/labelsTr/spleen_2.nii.gz'',
           output_dir @ ''/Task09_Spleen/labelsTr/spleen_10.nii.gz''])"

definition sample_sdk :: "string list sdk" where
  "sample_sdk =
     \<lparr>get_execution_role = (\<lambda>w. (Inr ''arn:aws:iam::000000000000:role/sample'', w)),
      new_session = (\<lambda>w. (Inr (), w)),
      default_bucket = (\<lambda>w. (Inr ''sample-bucket'', w)),
      path_exists = (\<lambda>w p. p \<in> set w),
      download_and_extract = sample_download,
      compose = (\<lambda>ts w. (Inr (), w)),
      glob = sample_glob,
      load_check_data = (\<lambda>files ts w. (Inr (), w)),
      plot_check = (\<lambda>k w. (Inr (), w)),
      mkdir = (\<lambda>dir w. (Inr (), w @ [dir])),
      copy = (\<lambda>src dst w. (Inr (), w)),
      upload_data = (\<lambda>path key_prefix bucket w. (Inr (''s3://'' @ bucket @ ''/'' @ key_prefix), w)),
      new_estimator = (\<lambda>est w. (Inr (), w)),
      fit = (\<lambda>inputs w. (Inr (), w)),
      deploy = (\<lambda>args w. (Inr (), w)),
      predict = (\<lambda>p w. (endpoint sample_backend p, w)),
      plot_result = (\<lambda>k px w. (Inr (), w))\<rparr>"

text \<open>The same world with a training job that fails, and with uploads that fail.\<close>

definition failing_sdk :: "string list sdk" where
  "failing_sdk = sample_sdk\<lparr>fit := (\<lambda>inputs w. (Inl (LibraryError ''training job failed''), w))\<rparr>"

definition offline_sdk :: "string list sdk" where
  "offline_sdk =
     sample_sdk\<lparr>upload_data :=
       (\<lambda>path key_prefix bucket w. (Inl (LibraryError ''upload failed''), w))\<rparr>"

definition sample_settings :: settings where
  "sample_settings = notebook_settings ''ml.m5.4xlarge'' ''json'' ''json''"

definition fresh :: "string list state" where
  "fresh = \<lparr>world = [], trace = []\<rparr>"

text \<open>What the run of the notebook in this world leaves: its variables, the paths that
  exist, and the calls it made (all of which returned).\<close>

definition sample_image :: "string \<Rightarrow> string" where
  "sample_image n = ''Spleen3D/datasets/Task09_Spleen/imagesTr/spleen_'' @ n @ ''.nii.gz''"

definition sample_label :: "string \<Rightarrow> string" where
  "sample_label n = ''Spleen3D/datasets/Task09_Spleen/labelsTr/spleen_'' @ n @ ''.nii.gz''"

definition sample_variables :: variables where
  "sample_variables =
     \<lparr>var_bucket = ''sample-bucket'',
      var_data_dicts =
        [[(''image'', sample_image ''10''), (''label'', sample_label ''10'')],
         [(''image'', sample_image ''2''), (''label'', sample_label ''2'')]],
      var_train_files = [[(''image'', sample_image ''10''), (''label'', sample_label ''10'')]],
      var_test_demo_files = [[(''image'', sample_image ''2''), (''label'', sample_label ''2'')]],
      var_S3_inputs = ''s3://sample-bucket/MONAI_Segmentation/train'',
      var_S3_demo_test = ''s3://sample-bucket/MONAI_Segmentation/test'',
      var_file = Some ''spleen_2.nii.gz'',
      var_test_demo_preds = map (\<lambda>n. PixelArray [[n, 0], [0, 1]]) [0, 1, 2, 3, 4, 5, 6, 7, 8, 9],
      var_response_multi_pred = Some (StorageLocation ''s3://sample-bucket/inference/70:75''),
      var_response_all_pred = Some (StorageLocation ''s3://sample-bucket/inference/all'')\<rparr>"

definition sample_paths :: "string list" where
  "sample_paths =
     [''./Task09_Spleen.tar'', ''Spleen3D'',
      sample_image ''2'', sample_image ''10'',
      ''Spleen3D/datasets/Task09_Spleen/imagesTr/._spleen_2.txt'',
      sample_label ''2'', sample_label ''10'',
      ''Spleen3D/processed/train/imagesTr'', ''Spleen3D/processed/train/labelsTr'',
      ''Spleen3D/processed/test/imagesTr'', ''Spleen3D/processed/test/labelsTr'']"

definition sample_calls :: "call list" where
  "sample_calls =
     [GetExecutionRole, NewSession, DefaultBucket,
      DownloadAndExtract resource compressed_file ''Spleen3D/datasets'' md5,
      Compose val_transforms,
      LoadCheckData [[(''image'', sample_image ''2''), (''label'', sample_label ''2'')]]
        val_transforms,
      PlotCheck 80,
      Mkdir ''Spleen3D/processed/train/imagesTr'',
      Mkdir ''Spleen3D/processed/train/labelsTr'',
      Mkdir ''Spleen3D/processed/test/imagesTr'',
      Mkdir ''Spleen3D/processed/test/labelsTr'',
      Copy (sample_image ''10'') ''Spleen3D/processed/train/imagesTr'',
      Copy (sample_label ''10'') ''Spleen3D/processed/train/labelsTr'',
      Copy (sample_image ''2'') ''Spleen3D/processed/test/imagesTr'',
      Copy (sample_label ''2'') ''Spleen3D/processed/test/labelsTr'',
      UploadData ''Spleen3D/processed/train'' ''MONAI_Segmentation/train'' ''sample-bucket'',
      UploadData ''Spleen3D/processed/test/imagesTr'' ''MONAI_Segmentation/test'' ''sample-bucket'',
      PyTorch (pytorch_estimator ''arn:aws:iam::000000000000:role/sample''),
      Fit ''s3://sample-bucket/MONAI_Segmentation/train'',
      Deploy (deploy_arguments ''ml.m5.4xlarge'' ''json'' ''json'')]
     @ map (\<lambda>n. Predict (payload ''sample-bucket'' ''MONAI_Segmentation/test''
              ''spleen_2.nii.gz'' (PInt n))) [0, 1, 2, 3, 4, 5, 6, 7, 8, 9]
     @ [PlotResult 1 [[1, 0], [0, 1]],
        Predict (payload ''sample-bucket'' ''MONAI_Segmentation/test'' ''spleen_2.nii.gz''
          (PStr ''70:75'')),
        Predict (payload ''sample-bucket'' ''MONAI_Segmentation/test'' ''spleen_2.nii.gz''
          (PStr ''all''))]"

text \<open>The trace of the run whose training job fails: the same calls, all returned but
  the training job.\<close>

definition failing_trace :: "(call \<times> outcome) list" where
  "failing_trace =
     (map (\<lambda>c. (c, Returned)) sample_calls)
       [18 := (Fit ''s3://sample-bucket/MONAI_Segmentation/train'',
               Raised (LibraryError ''training job failed''))]"

section \<open>Reading a metric from a log line\<close>

text \<open>
  SageMaker searches the log of the training job for each metric's regular expression and
  records the text its group captured. The notebook's three expressions are a literal text
  followed by one group holding a starred character class, and this fragment is embedded
  here: \<open>parse_regex\<close> reads the literal text and the class from the expression,
  \<open>search\<close> finds the leftmost place where the literal text stands and returns the
  longest run of class characters after it.
\<close>

definition literal_char :: "char \<Rightarrow> bool" where
  "literal_char c =
     (c \<in> set ''abcdefghijklmnopqrstuvwxyzABCDEFGHIJKLMNOPQRSTUVWXYZ0123456789 :'')"

text \<open>The items of a class up to its closing bracket: an escaped character, a range
  \<^verbatim>\<open>a-b\<close>, or a single character.\<close>

fun parse_class :: "string \<Rightarrow> ((char \<times> char) list \<times> string) option" where
  "parse_class [] = None"
| "parse_class (c # cs) =
     (if c = CHR '']'' then Some ([], cs)
      else if c = CHR 0x5C then
        (case cs of
           [] \<Rightarrow> None
         | d # ds \<Rightarrow>
             (case parse_class ds of
                None \<Rightarrow> None
              | Some (items, rest) \<Rightarrow> Some ((d, d) # items, rest)))
      else
        (case cs of
           m # hi # ds \<Rightarrow>
             if m = CHR ''-'' \<and> hi \<noteq> CHR '']''
             then (case parse_class ds of
                     None \<Rightarrow> None
                   | Some (items, rest) \<Rightarrow> Some ((c, hi) # items, rest))
             else (case parse_class cs of
                     None \<Rightarrow> None
                   | Some (items, rest) \<Rightarrow> Some ((c, c) # items, rest))
         | _ \<Rightarrow>
             (case parse_class cs of
                None \<Rightarrow> None
              | Some (items, rest) \<Rightarrow> Some ((c, c) # items, rest))))"

definition parse_regex :: "string \<Rightarrow> (string \<times> (char \<times> char) list) option" where
  "parse_regex r =
     (let lit = takeWhile (\<lambda>c. c \<noteq> CHR ''('') r;
          grp = dropWhile (\<lambda>c. c \<noteq> CHR ''('') r
      in if \<not> list_all literal_char lit then None
         else (case grp of
                 a # b # cls \<Rightarrow>
                   if b = CHR ''[''
                   then (case parse_class cls of
                           None \<Rightarrow> None
                         | Some (items, rest) \<Rightarrow>
                             if rest = ''*)'' then Some (lit, items) else None)
                   else None
               | _ \<Rightarrow> None))"

definition in_class :: "(char \<times> char) list \<Rightarrow> char \<Rightarrow> bool" where
  "in_class items c = list_ex (\<lambda>(lo, hi). lo \<le> c \<and> c \<le> hi) items"

fun search :: "string \<Rightarrow> (char \<Rightarrow> bool) \<Rightarrow> string \<Rightarrow> string option" where
  "search lit cls [] = (if lit = [] then Some [] else None)"
| "search lit cls (c # line) =
     (if take (length lit) (c # line) = lit
      then Some (takeWhile cls (drop (length lit) (c # line)))
      else search lit cls line)"

definition captured :: "string \<Rightarrow> string \<Rightarrow> string option" where
  "captured regex line =
     (case parse_regex regex of
        None \<Rightarrow> None
      | Some (lit, items) \<Rightarrow> search lit (in_class items) line)"

text \<open>A character of a numeric value as the expressions see it: a digit or a dot.\<close>

definition numeric_char :: "char \<Rightarrow> bool" where
  "numeric_char c = (CHR ''0'' \<le> c \<and> c \<le> CHR ''9'' \<or> c = CHR ''.'')"

text \<open>\<open>lit\<close> does not stand in \<open>line\<close> at any position before \<open>n\<close>.\<close>

definition absent_before :: "string \<Rightarrow> string \<Rightarrow> nat \<Rightarrow> bool" where
  "absent_before lit line n = list_all (\<lambda>k. take (length lit) (drop k line) \<noteq> lit) [0..<n]"

definition log_prefixes :: "string list" where
  "log_prefixes = [''average loss: '', ''current mean dice: '', ''best mean dice: '']"

section \<open>What a run adds to the trace\<close>

text \<open>\<open>emits m R\<close>: from every state, \<open>m\<close> only appends to the trace, and the entries it
  appends, together with the way it ended, satisfy \<open>R\<close>.\<close>

definition emits :: "('w, 'a) cell \<Rightarrow> ((call \<times> outcome) list \<Rightarrow> outcome \<Rightarrow> bool) \<Rightarrow> bool" where
  "emits m R = (\<forall>s. \<exists>es. trace (snd (m s)) = trace s @ es \<and> R es (outcome_of (fst (m s))))"

definition returned :: "call \<times> outcome \<Rightarrow> bool" where
  "returned e = (snd e = Returned)"

text \<open>Every call made through \<open>m\<close> satisfies \<open>Q\<close>.\<close>

definition calls_satisfy :: "(call \<Rightarrow> bool) \<Rightarrow> ('w, 'a) cell \<Rightarrow> bool" where
  "calls_satisfy Q m = emits m (\<lambda>es out. list_all (\<lambda>e. Q (fst e)) es)"

text \<open>The calls the notebook makes inside cells that start with \<^verbatim>\<open>%%time\<close>: the
  estimator's constructor, the training job and the requests to the endpoint.\<close>

definition timed_call :: "call \<Rightarrow> bool" where
  "timed_call c =
     (case c of PyTorch est \<Rightarrow> True | Fit inputs \<Rightarrow> True | Predict p \<Rightarrow> True | _ \<Rightarrow> False)"

text \<open>An entry of the trace has passed when the run could go on after it: the call
  returned, or it was made under \<^verbatim>\<open>%%time\<close>. No failure outside \<^verbatim>\<open>%%time\<close> is swallowed:
  every call but the last has passed, and when the last call has not, the cell ended with
  its exception.\<close>

definition passed :: "call \<times> outcome \<Rightarrow> bool" where
  "passed e = (returned e \<or> timed_call (fst e))"

definition propagated :: "(call \<times> outcome) list \<Rightarrow> outcome \<Rightarrow> bool" where
  "propagated es out =
     (list_all passed es \<or>
      (es \<noteq> [] \<and> list_all passed (butlast es) \<and> snd (last es) = out))"

definition propagates :: "('w, 'a) cell \<Rightarrow> bool" where
  "propagates m = emits m propagated"

text \<open>The specification's reading, in which no failure is caught anywhere: every call
  that raised is the last call of the run, and the run ended with its exception.\<close>

definition failures_uncaught :: "(call \<times> outcome) list \<Rightarrow> outcome \<Rightarrow> bool" where
  "failures_uncaught es out =
     list_all (\<lambda>i. case snd (es ! i) of
                      Returned \<Rightarrow> True
                    | Raised x \<Rightarrow> Suc i = length es \<and> out = Raised x) [0..<length es]"

text \<open>A cell that ends normally from every state.\<close>

definition never_raises :: "('w, 'a) cell \<Rightarrow> bool" where
  "never_raises m = (\<forall>s. \<exists>a s'. m s = (Inr a, s'))"

text \<open>The condition on a call that every request must meet.\<close>

definition is_request :: "call \<Rightarrow> bool" where
  "is_request c = (case c of Predict p \<Rightarrow> well_formed_request p | _ \<Rightarrow> True)"

section \<open>The order of the steps\<close>

text \<open>The kinds of step the specification names, and which call is a step of which kind.
  Creating the session, loading the held-out volume, making directories and constructing
  the estimator are none of them.\<close>

datatype step =
    StepDownload | StepCompose | StepCopy | StepUpload | StepFit | StepDeploy
  | StepPredict | StepPlot

definition step_of :: "call \<Rightarrow> step option" where
  "step_of c =
     (case c of
        DownloadAndExtract url filepath output_dir hash_val \<Rightarrow> Some StepDownload
      | Compose ts \<Rightarrow> Some StepCompose
      | Copy src dst \<Rightarrow> Some StepCopy
      | UploadData path key_prefix bucket \<Rightarrow> Some StepUpload
      | Fit inputs \<Rightarrow> Some StepFit
      | Deploy args \<Rightarrow> Some StepDeploy
      | Predict p \<Rightarrow> Some StepPredict
      | PlotCheck k \<Rightarrow> Some StepPlot
      | PlotResult k px \<Rightarrow> Some StepPlot
      | _ \<Rightarrow> None)"

definition steps :: "(call \<times> outcome) list \<Rightarrow> step list" where
  "steps es = List.map_filter (\<lambda>e. step_of (fst e)) es"

text \<open>The position of each kind of step in the order download, transform composition, file
  copy, upload, training job, deployment, prediction requests, plotting; a trace keeps
  that order when the positions of its steps never decrease.\<close>

definition position :: "step \<Rightarrow> nat" where
  "position k =
     (case k of
        StepDownload \<Rightarrow> 0 | StepCompose \<Rightarrow> 1 | StepCopy \<Rightarrow> 2 | StepUpload \<Rightarrow> 3
      | StepFit \<Rightarrow> 4 | StepDeploy \<Rightarrow> 5 | StepPredict \<Rightarrow> 6 | StepPlot \<Rightarrow> 7)"

definition keeps_listed_order :: "(call \<times> outcome) list \<Rightarrow> bool" where
  "keeps_listed_order es = sorted (map position (steps es))"

text \<open>The place of every call in the notebook, top to bottom: the session, the download,
  the transform composition, loading and plotting the held-out volume, the directories,
  the copies, the upload of the training data, the upload of the test images, the
  estimator, the training job, the deployment, the requests of the loop, the plot of a
  predicted slice, the request for a range, the request for all slices.\<close>

definition rank :: "call \<Rightarrow> nat" where
  "rank c =
     (case c of
        GetExecutionRole \<Rightarrow> 0
      | NewSession \<Rightarrow> 0
      | DefaultBucket \<Rightarrow> 0
      | DownloadAndExtract url filepath output_dir hash_val \<Rightarrow> 1
      | Compose ts \<Rightarrow> 2
      | LoadCheckData files ts \<Rightarrow> 3
      | PlotCheck k \<Rightarrow> 3
      | Mkdir dir \<Rightarrow> 4
      | Copy src dst \<Rightarrow> 5
      | UploadData path key_prefix bucket \<Rightarrow> if path = processed_train_path then 6 else 7
      | PyTorch est \<Rightarrow> 8
      | Fit inputs \<Rightarrow> 9
      | Deploy args \<Rightarrow> 10
      | Predict p \<Rightarrow>
          (case map_of p ''nslice'' of
             Some (PInt n) \<Rightarrow> 11
           | Some (PStr t) \<Rightarrow> if t = ''all'' then 14 else 13
           | _ \<Rightarrow> 13)
      | PlotResult k px \<Rightarrow> 12)"

text \<open>\<open>in_stage lo hi es\<close>: the calls of \<open>es\<close> are in the notebook's order and all have
  their place between \<open>lo\<close> and \<open>hi\<close>.\<close>

definition in_stage :: "nat \<Rightarrow> nat \<Rightarrow> (call \<times> outcome) list \<Rightarrow> bool" where
  "in_stage lo hi es =
     (sorted (map (\<lambda>e. rank (fst e)) es) \<and> list_all (\<lambda>e. lo \<le> rank (fst e) \<and> rank (fst e) \<le> hi) es)"

definition staged :: "nat \<Rightarrow> nat \<Rightarrow> ('w, 'a) cell \<Rightarrow> bool" where
  "staged lo hi m = emits m (\<lambda>es out. in_stage lo hi es)"

text \<open>\<open>adds L s s'\<close>: from \<open>s\<close> to \<open>s'\<close> the trace grew, and if the calls it grew by all
  returned, their steps are \<open>L\<close>.\<close>

definition adds :: "step list \<Rightarrow> 'w state \<Rightarrow> 'w state \<Rightarrow> bool" where
  "adds L s s' = (\<exists>es. trace s' = trace s @ es \<and> (list_all returned es \<longrightarrow> steps es = L))"

text \<open>\<open>behind P k es\<close>: every call of \<open>es\<close> whose place is after \<open>k\<close> comes after an
  entry with place \<open>k\<close> that satisfies \<open>P\<close>. \<open>reaches P k es out\<close>: no call of \<open>es\<close> has
  its place after \<open>k\<close>, and if \<open>es\<close> ended normally it has such an entry. \<open>P\<close> is
  \<open>returned\<close> for a call outside \<^verbatim>\<open>%%time\<close> and \<open>called\<close>, which holds of every entry, for
  the training job.\<close>

definition called :: "call \<times> outcome \<Rightarrow> bool" where
  "called e = True"

definition behind :: "(call \<times> outcome \<Rightarrow> bool) \<Rightarrow> nat \<Rightarrow> (call \<times> outcome) list \<Rightarrow> bool" where
  "behind P k es =
     (\<forall>i < length es. k < rank (fst (es ! i)) \<longrightarrow>
        (\<exists>j < i. rank (fst (es ! j)) = k \<and> P (es ! j)))"

definition reaches ::
  "(call \<times> outcome \<Rightarrow> bool) \<Rightarrow> nat \<Rightarrow> (call \<times> outcome) list \<Rightarrow> outcome \<Rightarrow> bool"
where
  "reaches P k es out =
     (list_all (\<lambda>e. rank (fst e) \<le> k) es \<and>
      (out = Returned \<longrightarrow> list_ex (\<lambda>e. rank (fst e) = k \<and> P e) es))"

text \<open>\<open>stopped k es out\<close>: no call of \<open>es\<close> has its place after \<open>k\<close> and \<open>es\<close> did not end
  normally.\<close>

definition stopped :: "nat \<Rightarrow> (call \<times> outcome) list \<Rightarrow> outcome \<Rightarrow> bool" where
  "stopped k es out = (list_all (\<lambda>e. rank (fst e) \<le> k) es \<and> out \<noteq> Returned)"

text \<open>Every \<^verbatim>\<open>fit\<close> call comes directly after a constructor call that returned and whose
  argument is the notebook's estimator.\<close>

definition fit_follows_estimator :: "(call \<times> outcome) list \<Rightarrow> bool" where
  "fit_follows_estimator es =
     (\<forall>i < length es. \<forall>inputs out. es ! i = (Fit inputs, out) \<longrightarrow>
        0 < i \<and> (\<exists>role_arn. es ! (i - 1) = (PyTorch (pytorch_estimator role_arn), Returned)))"

section \<open>Properties\<close>

subsection \<open>Slices\<close>

lemma slice_bound_minus_one: "slice_bound n (- 1) = n - 1"
  by (simp add: slice_bound_def)

lemma slice_to_minus_one: "slice_to xs (- 1) = butlast xs"
  by (simp add: slice_to_def slice_bound_minus_one butlast_conv_take)

lemma slice_from_minus_one: "xs \<noteq> [] \<Longrightarrow> slice_from xs (- 1) = [last xs]"
proof -
  assume ne: "xs \<noteq> []"
  have "drop (length xs - 1) xs = drop (length (butlast xs)) (butlast xs @ [last xs])"
    using ne by simp
  also have "\<dots> = [last xs]"
    by (simp del: append_butlast_last_id)
  finally show ?thesis
    by (simp add: slice_from_def slice_bound_minus_one)
qed

lemma length_data_dicts:
  "length (data_dicts imgs lbls) = min (length imgs) (length lbls)"
  by (simp add: data_dicts_def)

lemma nth_data_dicts:
  "i < length (data_dicts imgs lbls) \<Longrightarrow>
     data_dicts imgs lbls ! i = [(''image'', imgs ! i), (''label'', lbls ! i)]"
  by (simp add: data_dicts_def)

text \<open>
  Claim C9. For a nonempty \<open>data_dicts\<close>, \<open>train_files\<close> followed by
  \<open>test_demo_files\<close> is \<open>data_dicts\<close> again, \<open>test_demo_files\<close> is the one-element
  list holding the last pair, and \<open>data_dicts\<close> has as many elements as the shorter of
  the two sorted file lists, its \<open>i\<close>-th element pairing the \<open>i\<close>-th image with the
  \<open>i\<close>-th label.
\<close>

theorem split_of_data_dicts:
  assumes "dd = data_dicts imgs lbls" and "dd \<noteq> []"
  shows "train_files dd @ test_demo_files dd = dd
    \<and> test_demo_files dd = [last dd]
    \<and> length dd = min (length imgs) (length lbls)
    \<and> (\<forall>i < length dd. dd ! i = [(''image'', imgs ! i), (''label'', lbls ! i)])"
proof -
  have "train_files dd @ test_demo_files dd = dd"
    by (simp add: train_files_def test_demo_files_def slice_to_def slice_from_def)
  moreover have "test_demo_files dd = [last dd]"
    using assms(2) by (simp add: test_demo_files_def slice_from_minus_one)
  moreover have "length dd = min (length imgs) (length lbls)"
    using assms(1) by (simp add: length_data_dicts)
  moreover have "\<forall>i < length dd. dd ! i = [(''image'', imgs ! i), (''label'', lbls ! i)]"
    using assms(1) by (simp add: nth_data_dicts)
  ultimately show ?thesis by simp
qed

theorem split_of_data_dicts_witness:
  "data_dicts [''a1'', ''a2'', ''a3''] [''b1'', ''b2''] \<noteq> []
   \<and> train_files (data_dicts [''a1'', ''a2'', ''a3''] [''b1'', ''b2''])
       = [[(''image'', ''a1''), (''label'', ''b1'')]]
   \<and> test_demo_files (data_dicts [''a1'', ''a2'', ''a3''] [''b1'', ''b2''])
       = [[(''image'', ''a2''), (''label'', ''b2'')]]
   \<and> length (data_dicts [''a1'', ''a2'', ''a3''] [''b1'', ''b2'']) = 2"
proof -
  have ne: "data_dicts [''a1'', ''a2'', ''a3''] [''b1'', ''b2''] \<noteq> []"
    by (simp add: data_dicts_def)
  have dd: "data_dicts [''a1'', ''a2'', ''a3''] [''b1'', ''b2'']
      = [[(''image'', ''a1''), (''label'', ''b1'')], [(''image'', ''a2''), (''label'', ''b2'')]]"
    by (simp add: data_dicts_def)
  have tr: "train_files (data_dicts [''a1'', ''a2'', ''a3''] [''b1'', ''b2''])
      = [[(''image'', ''a1''), (''label'', ''b1'')]]"
    by (simp add: dd train_files_def slice_to_minus_one)
  show ?thesis
    using split_of_data_dicts [OF refl ne] ne tr by (simp add: dd)
qed

subsection \<open>Rules for traces\<close>

lemma emits_ret: "R [] Returned \<Longrightarrow> emits (ret a) R"
  by (simp add: emits_def ret_def outcome_of_def)

lemma emits_lift: "R [] (outcome_of r) \<Longrightarrow> emits (lift r) R"
  by (simp add: emits_def lift_def)

lemma emits_observe: "R [] Returned \<Longrightarrow> emits (observe f) R"
  by (simp add: emits_def observe_def outcome_of_def)

lemma emits_invoke: "(\<And>out. R [(c, out)] out) \<Longrightarrow> emits (invoke c f) R"
  by (simp add: emits_def invoke_def split: prod.splits)

lemma emits_seq:
  assumes m: "emits m R1"
    and f: "\<And>a. emits (f a) R2"
    and stop: "\<And>es e. R1 es (Raised e) \<Longrightarrow> R es (Raised e)"
    and go: "\<And>es1 es2 out. R1 es1 Returned \<Longrightarrow> R2 es2 out \<Longrightarrow> R (es1 @ es2) out"
  shows "emits (seq m f) R"
  unfolding emits_def
proof
  fix s
  obtain r s1 where ms: "m s = (r, s1)" by (cases "m s")
  from m obtain es1 where es1: "trace s1 = trace s @ es1" "R1 es1 (outcome_of r)"
    unfolding emits_def using ms by (metis fst_conv snd_conv)
  show "\<exists>es. trace (snd (seq m f s)) = trace s @ es \<and> R es (outcome_of (fst (seq m f s)))"
  proof (cases r)
    case (Inl e)
    then have "seq m f s = (Inl e, s1)" by (simp add: seq_def ms)
    moreover have "R es1 (Raised e)" using es1(2) Inl stop by (simp add: outcome_of_def)
    ultimately show ?thesis using es1(1) by (auto simp: outcome_of_def)
  next
    case (Inr a)
    then have run: "seq m f s = f a s1" by (simp add: seq_def ms)
    from f [of a] obtain es2 where es2: "trace (snd (f a s1)) = trace s1 @ es2"
        "R2 es2 (outcome_of (fst (f a s1)))"
      unfolding emits_def by blast
    have "R1 es1 Returned" using es1(2) Inr by (simp add: outcome_of_def)
    then have "R (es1 @ es2) (outcome_of (fst (f a s1)))" using es2(2) go by blast
    then show ?thesis using es1(1) es2(1) run by auto
  qed
qed

lemma emits_caught:
  assumes m: "emits m R1"
    and f: "\<And>a. emits (f a) R2"
    and stop: "\<And>es e. R1 es (Raised e) \<Longrightarrow> R es Returned"
    and go: "\<And>es1 es2 out. R1 es1 Returned \<Longrightarrow> R2 es2 out \<Longrightarrow> R (es1 @ es2) out"
  shows "emits (caught m left f) R"
  unfolding emits_def
proof
  fix s
  obtain r s1 where ms: "m s = (r, s1)" by (cases "m s")
  from m obtain es1 where es1: "trace s1 = trace s @ es1" "R1 es1 (outcome_of r)"
    unfolding emits_def using ms by (metis fst_conv snd_conv)
  show "\<exists>es. trace (snd (caught m left f s)) = trace s @ es
          \<and> R es (outcome_of (fst (caught m left f s)))"
  proof (cases r)
    case (Inl e)
    then have "caught m left f s = (Inr left, s1)" by (simp add: caught_def ms)
    moreover have "R es1 Returned" using es1(2) Inl stop by (simp add: outcome_of_def)
    ultimately show ?thesis using es1(1) by (auto simp: outcome_of_def)
  next
    case (Inr a)
    then have run: "caught m left f s = f a s1" by (simp add: caught_def ms)
    from f [of a] obtain es2 where es2: "trace (snd (f a s1)) = trace s1 @ es2"
        "R2 es2 (outcome_of (fst (f a s1)))"
      unfolding emits_def by blast
    have "R1 es1 Returned" using es1(2) Inr by (simp add: outcome_of_def)
    then have "R (es1 @ es2) (outcome_of (fst (f a s1)))" using es2(2) go by blast
    then show ?thesis using es1(1) es2(1) run by auto
  qed
qed

lemma emits_weaken: "emits m R \<Longrightarrow> (\<And>es out. R es out \<Longrightarrow> R' es out) \<Longrightarrow> emits m R'"
  unfolding emits_def by blast

lemma emitsD:
  "emits m R \<Longrightarrow> m s = (r, s') \<Longrightarrow> \<exists>es. trace s' = trace s @ es \<and> R es (outcome_of r)"
  unfolding emits_def by (metis fst_conv snd_conv)

lemma calls_satisfy_ret: "calls_satisfy Q (ret a)"
  by (simp add: calls_satisfy_def emits_ret)

lemma calls_satisfy_lift: "calls_satisfy Q (lift r)"
  by (simp add: calls_satisfy_def emits_lift)

lemma calls_satisfy_observe: "calls_satisfy Q (observe f)"
  by (simp add: calls_satisfy_def emits_observe)

lemma calls_satisfy_invoke: "Q c \<Longrightarrow> calls_satisfy Q (invoke c f)"
  by (simp add: calls_satisfy_def emits_invoke)

lemma calls_satisfy_seq:
  "calls_satisfy Q m \<Longrightarrow> (\<And>a. calls_satisfy Q (f a)) \<Longrightarrow> calls_satisfy Q (seq m f)"
  unfolding calls_satisfy_def by (erule emits_seq) auto

lemma calls_satisfy_caught:
  "calls_satisfy Q m \<Longrightarrow> (\<And>a. calls_satisfy Q (f a)) \<Longrightarrow> calls_satisfy Q (caught m left f)"
  unfolding calls_satisfy_def by (erule emits_caught) auto

lemma calls_satisfy_case_option:
  "calls_satisfy Q m \<Longrightarrow> (\<And>a. calls_satisfy Q (f a)) \<Longrightarrow> calls_satisfy Q (case_option m f x)"
  by (cases x) simp_all

lemma calls_satisfy_if:
  "(b \<Longrightarrow> calls_satisfy Q m1) \<Longrightarrow> (\<not> b \<Longrightarrow> calls_satisfy Q m2)
     \<Longrightarrow> calls_satisfy Q (if b then m1 else m2)"
  by simp

lemma calls_satisfy_case_prod:
  "(\<And>a b. calls_satisfy Q (f a b)) \<Longrightarrow> calls_satisfy Q (case_prod f x)"
  by (cases x) simp

lemmas calls_satisfy_rules =
  calls_satisfy_ret calls_satisfy_lift calls_satisfy_observe calls_satisfy_invoke
  calls_satisfy_seq calls_satisfy_caught calls_satisfy_if calls_satisfy_case_prod
  calls_satisfy_case_option

lemma calls_satisfy_copy_files:
  "(\<And>a b. Q (Copy a b)) \<Longrightarrow> calls_satisfy Q (copy_files env files d1 d2)"
  by (induction files) (auto intro!: calls_satisfy_rules)

lemma calls_satisfy_predict_loop_timed:
  "(\<And>c. Q (Predict (payload bucket k file (PInt c))))
     \<Longrightarrow> calls_satisfy Q (predict_loop_timed env bucket k file cs acc)"
  by (induction cs arbitrary: acc) (auto intro!: calls_satisfy_rules)

lemmas cell_defs =
  cell_session_def cell_download_def cell_transforms_def cell_split_def cell_check_def
  cell_mkdirs_def cell_upload_train_def cell_upload_test_def cell_train_def cell_deploy_def
  cell_inference_loop_def cell_inference_loop_timed_def cell_tensor_size_def
  cell_plot_result_def cell_multi_def cell_all_def

lemma calls_satisfyD:
  assumes "calls_satisfy Q m" and "m s = (r, s')"
  shows "\<exists>es. trace s' = trace s @ es \<and> (\<forall>c out. (c, out) \<in> set es \<longrightarrow> Q c)"
proof -
  from emitsD [OF assms(1) [unfolded calls_satisfy_def] assms(2)]
  obtain es where "trace s' = trace s @ es" "list_all (\<lambda>e. Q (fst e)) es" by blast
  then show ?thesis by (force simp: list_all_iff)
qed

subsection \<open>The text of a slice range\<close>

lemma is_digit_digit_char: "is_digit (digit_char d)"
proof -
  have "d mod 10 < length ''0123456789''" by simp
  then have "''0123456789'' ! (d mod 10) \<in> set ''0123456789''" by (rule nth_mem)
  then show ?thesis by (simp only: is_digit_def digit_char_def)
qed

lemma digits_all_digit: "list_all is_digit (digits n)"
proof (induction n rule: digits.induct)
  case (1 n)
  show ?case
  proof (cases "n < 10")
    case True
    then show ?thesis by (subst digits.simps) (simp add: is_digit_digit_char)
  next
    case False
    with 1 show ?thesis by (subst digits.simps) (simp add: is_digit_digit_char)
  qed
qed

lemma digits_nonempty: "digits n \<noteq> []"
  by (subst digits.simps) simp

lemma is_int_text_str_of_int: "is_int_text (str_of_int i)"
proof (cases "i < 0")
  case True
  then show ?thesis
    by (simp add: is_int_text_def str_of_int_def digits_nonempty digits_all_digit)
next
  case False
  obtain c cs where d: "digits (nat i) = c # cs"
    using digits_nonempty [of "nat i"] by (cases "digits (nat i)") auto
  have all: "list_all is_digit (c # cs)" using digits_all_digit [of "nat i"] d by simp
  then have "is_digit c" by simp
  then have "c \<noteq> CHR ''-''" by (auto simp: is_digit_def)
  with False d all show ?thesis by (simp add: is_int_text_def str_of_int_def)
qed

lemma colon_not_digit: "is_digit c \<Longrightarrow> c \<noteq> CHR '':''"
  by (auto simp: is_digit_def)

lemma no_colon_in_digits: "CHR '':'' \<notin> set (digits n)"
  using digits_all_digit [of n] colon_not_digit by (auto simp: list_all_iff)

lemma no_colon_in_str_of_int: "CHR '':'' \<notin> set (str_of_int i)"
  by (simp add: str_of_int_def no_colon_in_digits)

lemma str_split_no_sep: "sep \<notin> set t \<Longrightarrow> str_split sep t = [t]"
  by (induction t) auto

lemma str_split_at_sep:
  "sep \<notin> set a \<Longrightarrow> str_split sep (a @ sep # b) = a # str_split sep b"
  by (induction a) auto

lemma is_range_text_sliceselect: "is_range_text (sliceselect a b)"
  by (simp add: is_range_text_def sliceselect_def str_split_at_sep str_split_no_sep
      no_colon_in_str_of_int is_int_text_str_of_int)

lemma sliceselect_not_all: "sliceselect a b \<noteq> ''all''"
proof
  assume h: "sliceselect a b = ''all''"
  have "CHR '':'' \<in> set (sliceselect a b)" by (simp add: sliceselect_def)
  with h have "CHR '':'' \<in> set ''all''" by simp
  then show False by simp
qed

lemma wf_payload_int: "well_formed_request (payload b k f (PInt c))"
  by (simp add: well_formed_request_def payload_def request_keys_def selector_of_def)

lemma wf_payload_multi: "well_formed_request (payload_multi b f x y)"
  by (simp add: well_formed_request_def payload_multi_def payload_def request_keys_def selector_of_def
      is_range_text_sliceselect)

lemma wf_payload_all: "well_formed_request (payload_all b f)"
  by (simp add: well_formed_request_def payload_all_def payload_def request_keys_def selector_of_def)


lemma well_formed_request_forms:
  assumes "well_formed_request p"
  shows "map fst p = [''bucket'', ''key'', ''file'', ''nslice'']
    \<and> ((\<exists>n. map_of p ''nslice'' = Some (PInt n))
       \<or> (\<exists>t. map_of p ''nslice'' = Some (PStr t) \<and> is_range_text t)
       \<or> map_of p ''nslice'' = Some (PStr ''all''))"
proof -
  from assms have keys: "map fst p = [''bucket'', ''key'', ''file'', ''nslice'']"
    by (simp add: well_formed_request_def request_keys_def)
  from assms obtain v where v: "map_of p ''nslice'' = Some v" "selector_of v \<noteq> None"
    by (auto simp: well_formed_request_def split: option.splits)
  then have "(\<exists>n. v = PInt n) \<or> (\<exists>t. v = PStr t \<and> is_range_text t) \<or> v = PStr ''all''"
    by (cases v) (auto simp: selector_of_def split: if_splits)
  with keys v(1) show ?thesis by auto
qed

subsection \<open>The requests of a run\<close>

lemma notebook_requests: "calls_satisfy is_request (notebook env cfg)"
  unfolding notebook_def cell_defs
  by (intro calls_satisfy_rules calls_satisfy_copy_files calls_satisfy_predict_loop_timed)
    (simp_all add: is_request_def wf_payload_int wf_payload_multi wf_payload_all)

subsection \<open>The run in the small world\<close>

lemma sample_run:
  "notebook sample_sdk sample_settings fresh =
     (Inr sample_variables, \<lparr>world = sample_paths, trace = map (\<lambda>c. (c, Returned)) sample_calls\<rparr>)"
  by code_simp

lemma fresh_trace: "trace fresh = []"
  by (simp add: fresh_def)

text \<open>
  Claim C1. Every request a run of the notebook sends through \<^verbatim>\<open>predictor.predict\<close> is a
  dictionary with exactly the keys bucket, key, file and nslice, in that order, and its
  nslice value is an integer, a range text \<^verbatim>\<open>start:end\<close>, or the text \<^verbatim>\<open>all\<close>. This
  holds for the requests of every run, whether or not the run ends with an exception.
\<close>

theorem prediction_requests_well_formed:
  assumes "notebook env cfg s = (r, s')"
  shows "\<exists>es. trace s' = trace s @ es
    \<and> (\<forall>p out. (Predict p, out) \<in> set es \<longrightarrow>
          map fst p = [''bucket'', ''key'', ''file'', ''nslice'']
          \<and> ((\<exists>n. map_of p ''nslice'' = Some (PInt n))
             \<or> (\<exists>t. map_of p ''nslice'' = Some (PStr t) \<and> is_range_text t)
             \<or> map_of p ''nslice'' = Some (PStr ''all'')))"
proof -
  from calls_satisfyD [OF notebook_requests assms]
  obtain es where es: "trace s' = trace s @ es"
    and req: "\<forall>c out. (c, out) \<in> set es \<longrightarrow> is_request c"
    by blast
  have "well_formed_request p" if "(Predict p, out) \<in> set es" for p out
    using req that by (force simp: is_request_def)
  then show ?thesis
    using es well_formed_request_forms by blast
qed

theorem prediction_requests_well_formed_witness:
  "(Predict (payload ''sample-bucket'' ''MONAI_Segmentation/test'' ''spleen_2.nii.gz''
       (PStr ''70:75'')), Returned)
     \<in> set (trace (snd (notebook sample_sdk sample_settings fresh)))
   \<and> is_range_text ''70:75''"
proof -
  let ?p = "payload ''sample-bucket'' ''MONAI_Segmentation/test'' ''spleen_2.nii.gz''
       (PStr ''70:75'')"
  have mem: "(Predict ?p, Returned) \<in> set (trace (snd (notebook sample_sdk sample_settings fresh)))"
    by (simp add: sample_run sample_calls_def)
  from prediction_requests_well_formed [OF surjective_pairing]
  obtain es where es: "trace (snd (notebook sample_sdk sample_settings fresh)) = trace fresh @ es"
    and forms: "\<forall>p out. (Predict p, out) \<in> set es \<longrightarrow>
          map fst p = [''bucket'', ''key'', ''file'', ''nslice'']
          \<and> ((\<exists>n. map_of p ''nslice'' = Some (PInt n))
             \<or> (\<exists>t. map_of p ''nslice'' = Some (PStr t) \<and> is_range_text t)
             \<or> map_of p ''nslice'' = Some (PStr ''all''))"
    by blast
  from es mem have "(Predict ?p, Returned) \<in> set es"
    by (simp add: fresh_trace)
  with forms have "(\<exists>n. map_of ?p ''nslice'' = Some (PInt n))
             \<or> (\<exists>t. map_of ?p ''nslice'' = Some (PStr t) \<and> is_range_text t)
             \<or> map_of ?p ''nslice'' = Some (PStr ''all'')"
    by blast
  then have "is_range_text ''70:75''"
    by (simp add: payload_def)
  with mem show ?thesis by simp
qed

subsection \<open>Failures of library calls\<close>

lemma propagated_Nil: "propagated [] out"
  by (simp add: propagated_def)

lemma propagated_single: "propagated [(c, out)] out"
  by (simp add: propagated_def)

lemma propagated_Returned: "propagated es Returned \<Longrightarrow> list_all passed es"
  by (cases es rule: rev_cases) (auto simp: propagated_def passed_def returned_def)

lemma propagated_append:
  assumes "list_all passed es1" and "propagated es2 out"
  shows "propagated (es1 @ es2) out"
proof (cases "list_all passed es2")
  case True
  with assms(1) show ?thesis by (simp add: propagated_def)
next
  case False
  with assms(2) have "es2 \<noteq> []" "list_all passed (butlast es2)" "snd (last es2) = out"
    by (auto simp: propagated_def)
  with assms(1) show ?thesis by (simp add: propagated_def butlast_append)
qed

lemma propagates_ret: "propagates (ret a)"
  by (simp add: propagates_def emits_ret propagated_Nil)

lemma propagates_lift: "propagates (lift r)"
  by (simp add: propagates_def emits_lift propagated_Nil)

lemma propagates_observe: "propagates (observe f)"
  by (simp add: propagates_def emits_observe propagated_Nil)

lemma propagates_invoke: "propagates (invoke c f)"
  by (simp add: propagates_def emits_invoke propagated_single)

lemma propagates_seq: "propagates m \<Longrightarrow> (\<And>a. propagates (f a)) \<Longrightarrow> propagates (seq m f)"
  unfolding propagates_def
  by (rule emits_seq [where ?R1.0 = propagated and ?R2.0 = propagated])
    (auto intro: propagated_append propagated_Returned)

text \<open>Under \<^verbatim>\<open>%%time\<close> the statement that raises ends the cell normally; the calls made
  there are the timed ones.\<close>

lemma propagates_caught:
  assumes "calls_satisfy timed_call m" and "\<And>a. propagates (f a)"
  shows "propagates (caught m left f)"
  unfolding propagates_def
proof (rule emits_caught [where ?R1.0 = "\<lambda>es out. list_all (\<lambda>e. timed_call (fst e)) es"
      and ?R2.0 = propagated])
  show "emits m (\<lambda>es out. list_all (\<lambda>e. timed_call (fst e)) es)"
    using assms(1) by (simp add: calls_satisfy_def)
  show "emits (f a) propagated" for a
    using assms(2) by (simp add: propagates_def)
  show "propagated es Returned" if "list_all (\<lambda>e. timed_call (fst e)) es" for es
    using that by (simp add: propagated_def passed_def list_all_iff)
  show "propagated (es1 @ es2) out"
    if "list_all (\<lambda>e. timed_call (fst e)) es1" "propagated es2 out" for es1 es2 out
  proof (rule propagated_append)
    show "list_all passed es1" using that(1) by (simp add: passed_def list_all_iff)
    show "propagated es2 out" by (rule that(2))
  qed
qed

lemma propagates_if:
  "(b \<Longrightarrow> propagates m1) \<Longrightarrow> (\<not> b \<Longrightarrow> propagates m2) \<Longrightarrow> propagates (if b then m1 else m2)"
  by simp

lemma propagates_case_prod: "(\<And>a b. propagates (f a b)) \<Longrightarrow> propagates (case_prod f x)"
  by (cases x) simp

lemma propagates_case_option:
  "propagates m \<Longrightarrow> (\<And>a. propagates (f a)) \<Longrightarrow> propagates (case_option m f x)"
  by (cases x) simp_all

lemmas propagates_rules =
  propagates_ret propagates_lift propagates_observe propagates_invoke propagates_seq
  propagates_caught propagates_if propagates_case_prod propagates_case_option

lemma propagates_copy_files: "propagates (copy_files env files d1 d2)"
  by (induction files) (auto intro!: propagates_rules)

lemma propagates_predict_loop_timed: "propagates (predict_loop_timed env bucket k file cs acc)"
  by (induction cs arbitrary: acc)
    (auto intro!: propagates_rules calls_satisfy_rules simp: timed_call_def)

lemma propagates_notebook: "propagates (notebook env cfg)"
  unfolding notebook_def cell_defs
  by (intro propagates_rules propagates_copy_files propagates_predict_loop_timed
      calls_satisfy_rules)
    (simp_all add: timed_call_def)

lemma propagated_nth:
  assumes "propagated es out" and "i < length es" and "\<not> passed (es ! i)"
  shows "Suc i = length es \<and> snd (es ! i) = out"
proof -
  have "\<not> list_all passed es" using assms(2,3) by (auto simp: list_all_length)
  with assms(1) have ne: "es \<noteq> []" and bl: "list_all passed (butlast es)" and l: "snd (last es) = out"
    by (auto simp: propagated_def)
  have "\<not> i < length (butlast es)"
  proof
    assume "i < length (butlast es)"
    then have "passed (butlast es ! i)" using bl by (simp add: list_all_length)
    then show False using assms(3) \<open>i < length (butlast es)\<close> by (simp add: nth_butlast)
  qed
  then have i: "Suc i = length es" using assms(2) by simp
  then have "last es = es ! i" using ne by (metis diff_Suc_1 last_conv_nth)
  with l i show ?thesis by simp
qed

text \<open>The cells under \<^verbatim>\<open>%%time\<close> end normally whatever their calls do.\<close>

lemma caught_Inr:
  "caught m left f s = (r, s')
     \<longleftrightarrow> (\<exists>e. m s = (Inl e, s') \<and> r = Inr left) \<or> (\<exists>a s1. m s = (Inr a, s1) \<and> f a s1 = (r, s'))"
  by (auto simp: caught_def split: prod.splits sum.splits)

lemma never_raises_ret: "never_raises (ret a)"
  by (simp add: never_raises_def ret_def)

lemma never_raises_caught: "(\<And>a. never_raises (f a)) \<Longrightarrow> never_raises (caught m left f)"
  unfolding never_raises_def caught_def
  by (auto split: prod.splits sum.splits)

lemma never_raises_predict_loop_timed:
  "never_raises (predict_loop_timed env bucket k file cs acc)"
  by (induction cs arbitrary: acc) (auto intro!: never_raises_ret never_raises_caught)

lemma never_raises_train: "never_raises (cell_train env role_arn S3_inputs)"
  unfolding cell_train_def by (intro never_raises_caught never_raises_ret)

lemma never_raises_inference_loop:
  "never_raises (cell_inference_loop_timed env bucket files a b)"
  unfolding cell_inference_loop_timed_def
  by (intro never_raises_caught never_raises_predict_loop_timed)

lemma never_raises_multi: "never_raises (cell_multi env bucket file_var a b)"
  unfolding cell_multi_def by (intro never_raises_caught never_raises_ret)

lemma never_raises_all: "never_raises (cell_all env bucket file_var)"
  unfolding cell_all_def by (intro never_raises_caught never_raises_ret)

lemma failing_run:
  "notebook failing_sdk sample_settings fresh =
     (Inr sample_variables, \<lparr>world = sample_paths, trace = failing_trace\<rparr>)"
  by code_simp

lemma offline_run:
  "fst (notebook offline_sdk sample_settings fresh) = Inl (LibraryError ''upload failed'')
   \<and> trace (snd (notebook offline_sdk sample_settings fresh)) ! 15 =
       (UploadData ''Spleen3D/processed/train'' ''MONAI_Segmentation/train'' ''sample-bucket'',
        Raised (LibraryError ''upload failed''))
   \<and> length (trace (snd (notebook offline_sdk sample_settings fresh))) = 16"
  by code_simp

text \<open>
  The specification has every failure reach the user as an uncaught exception. In the
  small world whose training job fails this is not so: \<^verbatim>\<open>fit\<close> raises, the traceback is
  shown under \<^verbatim>\<open>%%time\<close>, and the run goes on. The next call is the deployment, all
  thirty-three calls of a run are made, and the run ends normally with all its
  variables.
\<close>

theorem training_failure_does_not_stop_the_run:
  "\<not> failures_uncaught (trace (snd (notebook failing_sdk sample_settings fresh)))
       (outcome_of (fst (notebook failing_sdk sample_settings fresh)))
   \<and> trace (snd (notebook failing_sdk sample_settings fresh)) ! 18 =
     (Fit ''s3://sample-bucket/MONAI_Segmentation/train'',
      Raised (LibraryError ''training job failed''))
   \<and> trace (snd (notebook failing_sdk sample_settings fresh)) ! 19 =
     (Deploy (deploy_arguments ''ml.m5.4xlarge'' ''json'' ''json''), Returned)
   \<and> length (trace (snd (notebook failing_sdk sample_settings fresh))) = 33
   \<and> fst (notebook failing_sdk sample_settings fresh) = Inr sample_variables"
proof -
  let ?es = "trace (snd (notebook failing_sdk sample_settings fresh))"
  have at: "?es ! 18 = (Fit ''s3://sample-bucket/MONAI_Segmentation/train'',
      Raised (LibraryError ''training job failed''))"
    and next_call: "?es ! 19 = (Deploy (deploy_arguments ''ml.m5.4xlarge'' ''json'' ''json''), Returned)"
    and len: "length ?es = 33"
    and res: "fst (notebook failing_sdk sample_settings fresh) = Inr sample_variables"
    by (simp_all add: failing_run failing_trace_def sample_calls_def)
  have "18 \<in> set [0..<length ?es]" using len by simp
  moreover have "\<not> (case snd (?es ! 18) of Returned \<Rightarrow> True
      | Raised x \<Rightarrow> Suc 18 = length ?es
          \<and> outcome_of (fst (notebook failing_sdk sample_settings fresh)) = Raised x)"
    using at len by simp
  ultimately have "\<not> failures_uncaught ?es
      (outcome_of (fst (notebook failing_sdk sample_settings fresh)))"
    unfolding failures_uncaught_def list_all_iff by blast
  with at next_call len res show ?thesis by blast
qed

text \<open>
  Claim C3. A library call that raises outside a \<^verbatim>\<open>%%time\<close> cell ends the run with its
  exception: in the trace of any run, such a call is the last call made (nothing is
  executed after it, so no default is substituted) and the run's result is that
  exception (it is not turned into a normal return). This covers the session, the
  download with its checksum verification, the file copies, the uploads, the deployment
  and the plots. The estimator's constructor, the training job and the endpoint
  invocations are called in cells that start with \<^verbatim>\<open>%%time\<close>; these four cells end
  normally whatever their calls do, so after a failure there the run goes on with the
  next cell.
\<close>

theorem library_failures_propagate:
  assumes "notebook env cfg s = (r, s')"
  shows "(\<exists>es. trace s' = trace s @ es
      \<and> (\<forall>i x. i < length es \<and> snd (es ! i) = Raised x \<and> \<not> timed_call (fst (es ! i))
            \<longrightarrow> Suc i = length es \<and> r = Inl x))
    \<and> never_raises (cell_train env role_arn S3_inputs)
    \<and> never_raises (cell_inference_loop_timed env bucket files a b)
    \<and> never_raises (cell_multi env bucket file_var a b)
    \<and> never_raises (cell_all env bucket file_var)"
proof -
  from emitsD [OF propagates_notebook [unfolded propagates_def] assms]
  obtain es where es: "trace s' = trace s @ es" and p: "propagated es (outcome_of r)" by blast
  have "Suc i = length es \<and> r = Inl x"
    if "i < length es" "snd (es ! i) = Raised x" "\<not> timed_call (fst (es ! i))" for i x
  proof -
    have "\<not> passed (es ! i)" using that(2,3) by (simp add: passed_def returned_def)
    from propagated_nth [OF p that(1) this] that(2)
    have "Suc i = length es" "outcome_of r = Raised x" by simp_all
    then show ?thesis by (cases r) (simp_all add: outcome_of_def)
  qed
  with es have "\<exists>es. trace s' = trace s @ es
      \<and> (\<forall>i x. i < length es \<and> snd (es ! i) = Raised x \<and> \<not> timed_call (fst (es ! i))
            \<longrightarrow> Suc i = length es \<and> r = Inl x)"
    by blast
  then show ?thesis
    using never_raises_train never_raises_inference_loop never_raises_multi never_raises_all
    by blast
qed

theorem library_failures_propagate_witness:
  "trace (snd (notebook offline_sdk sample_settings fresh)) ! 15 =
     (UploadData ''Spleen3D/processed/train'' ''MONAI_Segmentation/train'' ''sample-bucket'',
      Raised (LibraryError ''upload failed''))
   \<and> length (trace (snd (notebook offline_sdk sample_settings fresh))) = 16
   \<and> fst (notebook offline_sdk sample_settings fresh) = Inl (LibraryError ''upload failed'')
   \<and> (\<exists>v. fst (cell_train failing_sdk ''arn'' ''s3://inputs'' fresh) = Inr v)"
proof -
  let ?run = "notebook offline_sdk sample_settings fresh"
  from library_failures_propagate [OF surjective_pairing, of offline_sdk sample_settings fresh]
  obtain es where es: "trace (snd ?run) = trace fresh @ es"
    and last: "\<forall>i x. i < length es \<and> snd (es ! i) = Raised x \<and> \<not> timed_call (fst (es ! i))
      \<longrightarrow> Suc i = length es \<and> fst ?run = Inl x"
    by blast
  from es have "es = trace (snd ?run)" by (simp add: fresh_trace)
  with offline_run have "15 < length es"
    and "snd (es ! 15) = Raised (LibraryError ''upload failed'')"
    and "\<not> timed_call (fst (es ! 15))"
    by (simp_all add: timed_call_def)
  with last have res: "fst ?run = Inl (LibraryError ''upload failed'')" by blast
  from library_failures_propagate [OF surjective_pairing, of failing_sdk sample_settings fresh
      "''arn''" "''s3://inputs''"]
  have "never_raises (cell_train failing_sdk ''arn'' ''s3://inputs'')" by blast
  then have "\<exists>v. fst (cell_train failing_sdk ''arn'' ''s3://inputs'' fresh) = Inr v"
    unfolding never_raises_def by (metis fst_conv)
  with res offline_run show ?thesis by simp
qed

subsection \<open>Runs that reach the end\<close>

lemma seq_Inr:
  "seq m f s = (Inr b, s'') \<longleftrightarrow> (\<exists>a s'. m s = (Inr a, s') \<and> f a s' = (Inr b, s''))"
  by (auto simp: seq_def split: prod.splits sum.splits)

lemma ret_Inr: "ret a s = (Inr b, s') \<longleftrightarrow> b = a \<and> s' = s"
  by (auto simp: ret_def)

lemma observe_Inr: "observe f s = (Inr b, s') \<longleftrightarrow> b = f (world s) \<and> s' = s"
  by (auto simp: observe_def)

lemma notebook_variables:
  assumes "notebook env cfg s = (Inr v, s')"
  shows "\<exists>w. var_data_dicts v = data_dicts (train_images env w) (train_labels env w)
    \<and> var_train_files v = train_files (var_data_dicts v)
    \<and> var_test_demo_files v = test_demo_files (var_data_dicts v)"
  using assms unfolding notebook_def cell_split_def
  by (auto simp: seq_Inr ret_Inr observe_Inr split: prod.splits)

lemma download_call: "calls_satisfy
   (\<lambda>c. case c of DownloadAndExtract a b c d \<Rightarrow>
       a = ''https://msd-for-monai.s3-us-west-2.amazonaws.com/Task09_Spleen.tar''
       \<and> b = ''./Task09_Spleen.tar'' \<and> c = ''Spleen3D/datasets''
       \<and> d = ''410d4a301da4e5b2f6f86ec3ddba524e'' | _ \<Rightarrow> True) (notebook env cfg)"
  unfolding notebook_def cell_defs
  by (intro calls_satisfy_rules calls_satisfy_copy_files calls_satisfy_predict_loop_timed)
    (simp_all add: resource_def compressed_file_def data_dir_def md5_def)

lemma images_pattern:
  "path_join data_dir [''datasets/Task09_Spleen/imagesTr'', ''*.nii.gz'']
     = ''Spleen3D/datasets/Task09_Spleen/imagesTr/*.nii.gz''"
  by (simp add: path_join_def join_step_def data_dir_def)

lemma labels_pattern:
  "path_join data_dir [''datasets/Task09_Spleen/labelsTr'', ''*.nii.gz'']
     = ''Spleen3D/datasets/Task09_Spleen/labelsTr/*.nii.gz''"
  by (simp add: path_join_def join_step_def data_dir_def)

lemma data_dicts_elements:
  assumes "d \<in> set (data_dicts imgs lbls)"
  shows "\<exists>i l. d = [(''image'', i), (''label'', l)] \<and> i \<in> set imgs \<and> l \<in> set lbls"
  using assms by (auto simp: data_dicts_def dest: set_zip_leftD set_zip_rightD)

lemma set_train_files: "set (train_files dd) \<subseteq> set dd"
  by (simp add: train_files_def slice_to_def set_take_subset)

lemma set_test_demo_files: "set (test_demo_files dd) \<subseteq> set dd"
  by (simp add: test_demo_files_def slice_from_def set_drop_subset)

text \<open>
  Claim C8. The download cell calls \<^verbatim>\<open>download_and_extract\<close> only when
  \<^verbatim>\<open>os.path.exists("Spleen3D")\<close> is false. When the directory exists the cell returns
  without any call and leaves the whole state, the file system included, as it was;
  when it does not exist the cell makes exactly that one call.
\<close>

theorem download_only_when_absent:
  assumes "cell_download env s = (r, s')"
  shows "(path_exists env (world s) ''Spleen3D'' \<longrightarrow> r = Inr () \<and> s' = s)
    \<and> (\<not> path_exists env (world s) ''Spleen3D'' \<longrightarrow>
         (r, world s') = download_and_extract env resource compressed_file ''Spleen3D/datasets'' md5 (world s)
         \<and> trace s' = trace s @
             [(DownloadAndExtract resource compressed_file ''Spleen3D/datasets'' md5, outcome_of r)])"
  using assms
  by (auto simp: cell_download_def seq_def observe_def ret_def invoke_def data_dir_def
      split: prod.splits)

theorem download_only_when_absent_witness:
  "path_exists sample_sdk [''Spleen3D''] ''Spleen3D''
   \<and> cell_download sample_sdk \<lparr>world = [''Spleen3D''], trace = []\<rparr>
       = (Inr (), \<lparr>world = [''Spleen3D''], trace = []\<rparr>)
   \<and> \<not> path_exists sample_sdk [] ''Spleen3D''
   \<and> trace (snd (cell_download sample_sdk fresh))
       = [(DownloadAndExtract resource compressed_file ''Spleen3D/datasets'' md5, Returned)]"
proof -
  have here: "path_exists sample_sdk [''Spleen3D''] ''Spleen3D''"
    by (simp add: sample_sdk_def)
  have absent: "\<not> path_exists sample_sdk [] ''Spleen3D''"
    by (simp add: sample_sdk_def)
  let ?s = "\<lparr>world = [''Spleen3D''], trace = []\<rparr> :: string list state"
  from download_only_when_absent [OF surjective_pairing, of sample_sdk ?s] here
  have "fst (cell_download sample_sdk ?s) = Inr ()" "snd (cell_download sample_sdk ?s) = ?s"
    by simp_all
  then have kept: "cell_download sample_sdk ?s = (Inr (), ?s)"
    by (metis surjective_pairing)
  have "(fst (cell_download sample_sdk fresh), world (snd (cell_download sample_sdk fresh)))
      = download_and_extract sample_sdk resource compressed_file ''Spleen3D/datasets'' md5 (world fresh)
    \<and> trace (snd (cell_download sample_sdk fresh)) = trace fresh @
        [(DownloadAndExtract resource compressed_file ''Spleen3D/datasets'' md5,
          outcome_of (fst (cell_download sample_sdk fresh)))]"
    using download_only_when_absent [OF surjective_pairing, of sample_sdk fresh] absent
    by (simp add: fresh_def)
  then have "trace (snd (cell_download sample_sdk fresh))
       = [(DownloadAndExtract resource compressed_file ''Spleen3D/datasets'' md5, Returned)]"
    by (auto simp: fresh_def sample_sdk_def sample_download_def outcome_of_def)
  with here absent kept show ?thesis by simp
qed

text \<open>
  Claim C6. Every element of \<open>data_dicts\<close>, and so of \<open>train_files\<close> and
  \<open>test_demo_files\<close>, is a dictionary with exactly the keys image and label, each mapped
  to one of the listed file paths; and the dictionaries a finished run holds in these
  three variables still have exactly these two keys, so no later cell has changed them.
\<close>

theorem file_dictionaries_keep_two_keys:
  "(\<forall>d \<in> set (data_dicts imgs lbls).
       map fst d = [''image'', ''label'']
       \<and> (\<exists>i l. d = [(''image'', i), (''label'', l)] \<and> i \<in> set imgs \<and> l \<in> set lbls))
   \<and> set (train_files (data_dicts imgs lbls)) \<subseteq> set (data_dicts imgs lbls)
   \<and> set (test_demo_files (data_dicts imgs lbls)) \<subseteq> set (data_dicts imgs lbls)
   \<and> (notebook env cfg s = (Inr v, s') \<longrightarrow>
        (\<forall>d \<in> set (var_data_dicts v) \<union> set (var_train_files v) \<union> set (var_test_demo_files v).
           map fst d = [''image'', ''label'']))"
proof -
  have keys: "map fst d = [''image'', ''label'']
       \<and> (\<exists>i l. d = [(''image'', i), (''label'', l)] \<and> i \<in> set imgs \<and> l \<in> set lbls)"
    if "d \<in> set (data_dicts imgs lbls)" for d imgs lbls
    using data_dicts_elements [OF that] by auto
  have "map fst d = [''image'', ''label'']"
    if run: "notebook env cfg s = (Inr v, s')"
      and d: "d \<in> set (var_data_dicts v) \<union> set (var_train_files v) \<union> set (var_test_demo_files v)"
    for d
  proof -
    from notebook_variables [OF run] obtain w where
      dd: "var_data_dicts v = data_dicts (train_images env w) (train_labels env w)"
      and tr: "var_train_files v = train_files (var_data_dicts v)"
      and te: "var_test_demo_files v = test_demo_files (var_data_dicts v)"
      by blast
    from d tr te have "d \<in> set (var_data_dicts v)"
      using set_train_files set_test_demo_files by auto
    with dd keys show ?thesis by simp
  qed
  with keys show ?thesis
    using set_train_files set_test_demo_files by blast
qed

theorem file_dictionaries_keep_two_keys_witness:
  "notebook sample_sdk sample_settings fresh =
     (Inr sample_variables, \<lparr>world = sample_paths, trace = map (\<lambda>c. (c, Returned)) sample_calls\<rparr>)
   \<and> var_test_demo_files sample_variables
       = [[(''image'', sample_image ''2''), (''label'', sample_label ''2'')]]
   \<and> list_all (\<lambda>d. map fst d = [''image'', ''label''])
       (var_data_dicts sample_variables @ var_train_files sample_variables
          @ var_test_demo_files sample_variables)"
proof -
  from file_dictionaries_keep_two_keys [of _ _ sample_sdk sample_settings fresh sample_variables]
    sample_run
  have "\<forall>d \<in> set (var_data_dicts sample_variables) \<union> set (var_train_files sample_variables)
           \<union> set (var_test_demo_files sample_variables). map fst d = [''image'', ''label'']"
    by blast
  then have "list_all (\<lambda>d. map fst d = [''image'', ''label''])
       (var_data_dicts sample_variables @ var_train_files sample_variables
          @ var_test_demo_files sample_variables)"
    by (simp add: list_all_iff ball_Un)
  moreover have "var_test_demo_files sample_variables
       = [[(''image'', sample_image ''2''), (''label'', sample_label ''2'')]]"
    by (simp add: sample_variables_def)
  ultimately show ?thesis using sample_run by simp
qed

text \<open>
  Claim C7. The image and label lists are the results of globbing \<^verbatim>\<open>*.nii.gz\<close> under
  \<^verbatim>\<open>Spleen3D/datasets/Task09_Spleen/imagesTr\<close> and \<^verbatim>\<open>labelsTr\<close>, each put in sorted
  order with nothing lost or added; the dictionaries of a finished run are built from
  these two lists; and every \<^verbatim>\<open>download_and_extract\<close> call of a run is given the fixed
  bucket URL, the archive path, the extraction directory and the MD5 checksum
  \<^verbatim>\<open>410d4a301da4e5b2f6f86ec3ddba524e\<close> as the hash to verify. Fetching, comparing the
  checksum and extracting happen inside that one library call.
\<close>

theorem dataset_inputs:
  "train_images env w = sort (glob env w ''Spleen3D/datasets/Task09_Spleen/imagesTr/*.nii.gz'')
   \<and> train_labels env w = sort (glob env w ''Spleen3D/datasets/Task09_Spleen/labelsTr/*.nii.gz'')
   \<and> sorted (train_images env w)
   \<and> mset (train_images env w) = mset (glob env w ''Spleen3D/datasets/Task09_Spleen/imagesTr/*.nii.gz'')
   \<and> sorted (train_labels env w)
   \<and> mset (train_labels env w) = mset (glob env w ''Spleen3D/datasets/Task09_Spleen/labelsTr/*.nii.gz'')
   \<and> (notebook env cfg s = (Inr v, s') \<longrightarrow>
        (\<exists>w'. var_data_dicts v = data_dicts (train_images env w') (train_labels env w')))
   \<and> (notebook env cfg s = (r, s') \<longrightarrow>
        (\<exists>es. trace s' = trace s @ es
          \<and> (\<forall>a b c d out. (DownloadAndExtract a b c d, out) \<in> set es \<longrightarrow>
                a = ''https://msd-for-monai.s3-us-west-2.amazonaws.com/Task09_Spleen.tar''
                \<and> b = ''./Task09_Spleen.tar'' \<and> c = ''Spleen3D/datasets''
                \<and> d = ''410d4a301da4e5b2f6f86ec3ddba524e'')))"
proof -
  have lists: "train_images env w = sort (glob env w ''Spleen3D/datasets/Task09_Spleen/imagesTr/*.nii.gz'')"
    "train_labels env w = sort (glob env w ''Spleen3D/datasets/Task09_Spleen/labelsTr/*.nii.gz'')"
    by (simp_all only: train_images_def train_labels_def images_pattern labels_pattern)
  have vars: "\<exists>w'. var_data_dicts v = data_dicts (train_images env w') (train_labels env w')"
    if "notebook env cfg s = (Inr v, s')"
    using notebook_variables [OF that] by blast
  have calls: "\<exists>es. trace s' = trace s @ es
          \<and> (\<forall>a b c d out. (DownloadAndExtract a b c d, out) \<in> set es \<longrightarrow>
                a = ''https://msd-for-monai.s3-us-west-2.amazonaws.com/Task09_Spleen.tar''
                \<and> b = ''./Task09_Spleen.tar'' \<and> c = ''Spleen3D/datasets''
                \<and> d = ''410d4a301da4e5b2f6f86ec3ddba524e'')"
    if run: "notebook env cfg s = (r, s')"
  proof -
    from calls_satisfyD [OF download_call run] obtain es where
      es: "trace s' = trace s @ es" and
      q: "\<forall>c out. (c, out) \<in> set es \<longrightarrow> (case c of DownloadAndExtract a b c d \<Rightarrow>
       a = ''https://msd-for-monai.s3-us-west-2.amazonaws.com/Task09_Spleen.tar''
       \<and> b = ''./Task09_Spleen.tar'' \<and> c = ''Spleen3D/datasets''
       \<and> d = ''410d4a301da4e5b2f6f86ec3ddba524e'' | _ \<Rightarrow> True)"
      by blast
    show ?thesis
    proof (intro exI conjI allI impI)
      show "trace s' = trace s @ es" by (rule es)
    next
      fix a b c d out assume "(DownloadAndExtract a b c d, out) \<in> set es"
      with q have "case DownloadAndExtract a b c d of DownloadAndExtract a b c d \<Rightarrow>
       a = ''https://msd-for-monai.s3-us-west-2.amazonaws.com/Task09_Spleen.tar''
       \<and> b = ''./Task09_Spleen.tar'' \<and> c = ''Spleen3D/datasets''
       \<and> d = ''410d4a301da4e5b2f6f86ec3ddba524e'' | _ \<Rightarrow> True" by blast
      then show "a = ''https://msd-for-monai.s3-us-west-2.amazonaws.com/Task09_Spleen.tar''"
        "b = ''./Task09_Spleen.tar''" "c = ''Spleen3D/datasets''"
        "d = ''410d4a301da4e5b2f6f86ec3ddba524e''" by simp_all
    qed
  qed
  from lists vars calls show ?thesis
    by (simp only: sorted_sort mset_sort) blast
qed


theorem dataset_inputs_witness:
  "train_images sample_sdk sample_paths = [sample_image ''10'', sample_image ''2'']
   \<and> train_labels sample_sdk sample_paths = [sample_label ''10'', sample_label ''2'']
   \<and> notebook sample_sdk sample_settings fresh =
       (Inr sample_variables, \<lparr>world = sample_paths, trace = map (\<lambda>c. (c, Returned)) sample_calls\<rparr>)
   \<and> (DownloadAndExtract resource compressed_file ''Spleen3D/datasets'' md5, Returned)
       \<in> set (map (\<lambda>c. (c, Returned)) sample_calls)
   \<and> resource = ''https://msd-for-monai.s3-us-west-2.amazonaws.com/Task09_Spleen.tar''
   \<and> md5 = ''410d4a301da4e5b2f6f86ec3ddba524e''"
proof -
  note inputs = dataset_inputs [of sample_sdk sample_paths sample_settings fresh sample_variables
      "\<lparr>world = sample_paths, trace = map (\<lambda>c. (c, Returned)) sample_calls\<rparr>" "Inr sample_variables"]
  have images: "sort (glob sample_sdk sample_paths ''Spleen3D/datasets/Task09_Spleen/imagesTr/*.nii.gz'')
      = [sample_image ''10'', sample_image ''2'']"
    by code_simp
  have labels: "sort (glob sample_sdk sample_paths ''Spleen3D/datasets/Task09_Spleen/labelsTr/*.nii.gz'')
      = [sample_label ''10'', sample_label ''2'']"
    by code_simp
  have mem: "(DownloadAndExtract resource compressed_file ''Spleen3D/datasets'' md5, Returned)
       \<in> set (map (\<lambda>c. (c, Returned)) sample_calls)"
    by (simp add: sample_calls_def)
  from inputs sample_run obtain es where
    es: "map (\<lambda>c. (c, Returned)) sample_calls = trace fresh @ es"
    and args: "\<forall>a b c d out. (DownloadAndExtract a b c d, out) \<in> set es \<longrightarrow>
                a = ''https://msd-for-monai.s3-us-west-2.amazonaws.com/Task09_Spleen.tar''
                \<and> b = ''./Task09_Spleen.tar'' \<and> c = ''Spleen3D/datasets''
                \<and> d = ''410d4a301da4e5b2f6f86ec3ddba524e''"
    by auto
  from es mem have "(DownloadAndExtract resource compressed_file ''Spleen3D/datasets'' md5, Returned)
       \<in> set es"
    by (simp add: fresh_trace)
  with args have "resource = ''https://msd-for-monai.s3-us-west-2.amazonaws.com/Task09_Spleen.tar''"
    "md5 = ''410d4a301da4e5b2f6f86ec3ddba524e''"
    by blast+
  with inputs images labels mem sample_run show ?thesis by simp
qed


subsection \<open>The loop over slices\<close>

lemma invoke_Inr:
  "invoke c f s = (Inr a, s') \<longleftrightarrow>
     (\<exists>w'. f (world s) = (Inr a, w') \<and> s' = \<lparr>world = w', trace = trace s @ [(c, Returned)]\<rparr>)"
  by (auto simp: invoke_def outcome_of_def split: prod.splits)

lemma lift_Inr: "lift r s = (Inr a, s') \<longleftrightarrow> r = Inr a \<and> s' = s"
  by (auto simp: lift_def)

lemma predict_loop_run:
  assumes "predict_loop env b k f cs acc s = (Inr preds, s')"
  shows "\<exists>rs ws. preds = acc @ rs \<and> length rs = length cs \<and> length ws = Suc (length cs)
    \<and> ws ! 0 = world s \<and> ws ! length cs = world s'
    \<and> (\<forall>i < length cs. predict env (payload b k f (PInt (cs ! i))) (ws ! i)
          = (Inr (rs ! i), ws ! Suc i))
    \<and> trace s' = trace s @ map (\<lambda>c. (Predict (payload b k f (PInt c)), Returned)) cs"
  using assms
proof (induction cs arbitrary: acc s)
  case Nil
  then have "preds = acc" "s' = s" by (simp_all add: ret_Inr)
  then show ?case by (intro exI [of _ "[]"] exI [of _ "[world s]"]) simp
next
  case (Cons c cs)
  from Cons.prems obtain r w1 where
    call: "predict env (payload b k f (PInt c)) (world s) = (Inr r, w1)"
    and rest: "predict_loop env b k f cs (acc @ [r])
        \<lparr>world = w1, trace = trace s @ [(Predict (payload b k f (PInt c)), Returned)]\<rparr> = (Inr preds, s')"
    by (auto simp: seq_Inr invoke_Inr)
  from Cons.IH [OF rest] obtain rs ws where
    ih: "preds = (acc @ [r]) @ rs" "length rs = length cs" "length ws = Suc (length cs)"
      "ws ! 0 = w1" "ws ! length cs = world s'"
      "\<forall>i < length cs. predict env (payload b k f (PInt (cs ! i))) (ws ! i) = (Inr (rs ! i), ws ! Suc i)"
      "trace s' = (trace s @ [(Predict (payload b k f (PInt c)), Returned)])
          @ map (\<lambda>c. (Predict (payload b k f (PInt c)), Returned)) cs"
    by auto
  have steps: "\<forall>i < length (c # cs). predict env (payload b k f (PInt ((c # cs) ! i))) ((world s # ws) ! i)
          = (Inr ((r # rs) ! i), (world s # ws) ! Suc i)"
  proof (intro allI impI)
    fix i assume "i < length (c # cs)"
    then show "predict env (payload b k f (PInt ((c # cs) ! i))) ((world s # ws) ! i)
          = (Inr ((r # rs) ! i), (world s # ws) ! Suc i)"
      using call ih(4) ih(6) by (cases i) simp_all
  qed
  show ?case
    by (intro exI [of _ "r # rs"] exI [of _ "world s # ws"]) (use ih steps in simp)
qed

text \<open>When the body of the loop cell runs to its end, the cell under \<^verbatim>\<open>%%time\<close> ends in
  the same state with the same variables.\<close>

lemma predict_loop_timed_agrees:
  "predict_loop env b k f cs acc s = (Inr preds, s')
     \<Longrightarrow> predict_loop_timed env b k f cs acc s = (Inr (Some f, preds), s')"
proof (induction cs arbitrary: acc s)
  case Nil
  then show ?case by (simp add: ret_def)
next
  case (Cons c cs)
  from Cons.prems obtain r s1 where
    call: "invoke (Predict (payload b k f (PInt c))) (predict env (payload b k f (PInt c))) s
        = (Inr r, s1)"
    and rest: "predict_loop env b k f cs (acc @ [r]) s1 = (Inr preds, s')"
    by (auto simp: seq_Inr)
  from Cons.IH [OF rest] call show ?case by (simp add: caught_def)
qed

lemma inference_loop_timed_agrees:
  assumes "cell_inference_loop env bucket test_files a b s = (Inr (file_name, preds), s')"
  shows "cell_inference_loop_timed env bucket test_files a b s = (Inr (Some file_name, preds), s')"
proof -
  from assms obtain first_file image_path where
    f: "py_index test_files 0 = Inr first_file"
    and i: "dict_get first_file ''image'' = Inr image_path"
    and n: "py_index (str_split CHR ''/'' image_path) (- 1) = Inr file_name"
    and loop: "predict_loop env bucket prefix_key file_name (py_range a b) [] s = (Inr preds, s')"
    by (auto simp: cell_inference_loop_def seq_Inr lift_Inr ret_Inr)
  from predict_loop_timed_agrees [OF loop] f i n show ?thesis
    by (simp add: cell_inference_loop_timed_def caught_def lift_def)
qed

lemma py_range_length: "length (py_range a b) = nat (b - a)"
  by (simp add: py_range_def)

lemma py_range_nth: "i < nat (b - a) \<Longrightarrow> py_range a b ! i = a + int i"
  by (simp add: py_range_def)

lemma map_py_range: "map g (py_range a b) = map (\<lambda>i. g (a + int i)) [0..<nat (b - a)]"
  by (rule nth_equalityI) (simp_all add: py_range_length py_range_nth)

text \<open>
  Claim C10. For \<open>nslicestart \<le> nsliceend\<close>, when the cell with the single-slice loop
  returns, \<open>test_demo_preds\<close> has \<open>nsliceend - nslicestart\<close> elements; its \<open>i\<close>-th
  element is what \<^verbatim>\<open>predictor.predict\<close> returned for the payload whose nslice is
  \<open>nslicestart + i\<close>, called in the world the previous request left; and the requests
  appear in the trace in increasing slice order, one per slice. The cell as it runs under
  \<^verbatim>\<open>%%time\<close> then ends in the same state, with \<^verbatim>\<open>file\<close> assigned and this list in
  \<^verbatim>\<open>test_demo_preds\<close>.
\<close>

theorem inference_loop_collects_responses:
  fixes nslicestart nsliceend :: int
  assumes "nslicestart \<le> nsliceend"
    and "cell_inference_loop env bucket test_files nslicestart nsliceend s
           = (Inr (file, test_demo_preds), s')"
  shows "int (length test_demo_preds) = nsliceend - nslicestart
    \<and> (\<exists>ws. length ws = Suc (length test_demo_preds)
          \<and> ws ! 0 = world s \<and> ws ! length test_demo_preds = world s'
          \<and> (\<forall>i < length test_demo_preds.
                predict env (payload bucket prefix_key file (PInt (nslicestart + int i))) (ws ! i)
                  = (Inr (test_demo_preds ! i), ws ! Suc i)))
    \<and> trace s' = trace s @
         map (\<lambda>i. (Predict (payload bucket prefix_key file (PInt (nslicestart + int i))), Returned))
           [0..<length test_demo_preds]
    \<and> cell_inference_loop_timed env bucket test_files nslicestart nsliceend s
         = (Inr (Some file, test_demo_preds), s')"
proof -
  let ?cs = "py_range nslicestart nsliceend"
  from assms(2) have loop: "predict_loop env bucket prefix_key file ?cs [] s = (Inr test_demo_preds, s')"
    by (auto simp: cell_inference_loop_def seq_Inr lift_Inr ret_Inr)
  from predict_loop_run [OF loop] obtain ws where
    len: "length test_demo_preds = length ?cs" and ws: "length ws = Suc (length ?cs)"
    and w0: "ws ! 0 = world s" and wn: "ws ! length ?cs = world s'"
    and steps: "\<forall>i < length ?cs. predict env (payload bucket prefix_key file (PInt (?cs ! i))) (ws ! i)
          = (Inr (test_demo_preds ! i), ws ! Suc i)"
    and tr: "trace s' = trace s @ map (\<lambda>c. (Predict (payload bucket prefix_key file (PInt c)), Returned)) ?cs"
    by auto
  have n: "length test_demo_preds = nat (nsliceend - nslicestart)"
    using len by (simp add: py_range_length)
  have "int (length test_demo_preds) = nsliceend - nslicestart"
    using n assms(1) by simp
  moreover have "\<forall>i < length test_demo_preds.
                predict env (payload bucket prefix_key file (PInt (nslicestart + int i))) (ws ! i)
                  = (Inr (test_demo_preds ! i), ws ! Suc i)"
    using steps len n by (simp add: py_range_nth)
  moreover have "trace s' = trace s @
         map (\<lambda>i. (Predict (payload bucket prefix_key file (PInt (nslicestart + int i))), Returned))
           [0..<length test_demo_preds]"
    using tr n by (simp add: map_py_range)
  ultimately show ?thesis
    using ws w0 wn len inference_loop_timed_agrees [OF assms(2)] by auto
qed

lemma sample_loop:
  "cell_inference_loop sample_sdk ''sample-bucket''
      [[(''image'', sample_image ''2''), (''label'', sample_label ''2'')]] 5 8 fresh
    = (Inr (''spleen_2.nii.gz'',
            [PixelArray [[5, 0], [0, 1]], PixelArray [[6, 0], [0, 1]], PixelArray [[7, 0], [0, 1]]]),
       \<lparr>world = [],
        trace = [(Predict (payload ''sample-bucket'' prefix_key ''spleen_2.nii.gz'' (PInt 5)), Returned),
                 (Predict (payload ''sample-bucket'' prefix_key ''spleen_2.nii.gz'' (PInt 6)), Returned),
                 (Predict (payload ''sample-bucket'' prefix_key ''spleen_2.nii.gz'' (PInt 7)), Returned)]\<rparr>)"
  by code_simp


theorem inference_loop_collects_responses_witness:
  "(5::int) \<le> 8
   \<and> cell_inference_loop sample_sdk ''sample-bucket''
        [[(''image'', sample_image ''2''), (''label'', sample_label ''2'')]] 5 8 fresh
      = (Inr (''spleen_2.nii.gz'',
            [PixelArray [[5, 0], [0, 1]], PixelArray [[6, 0], [0, 1]], PixelArray [[7, 0], [0, 1]]]),
         \<lparr>world = [],
          trace = [(Predict (payload ''sample-bucket'' prefix_key ''spleen_2.nii.gz'' (PInt 5)), Returned),
                   (Predict (payload ''sample-bucket'' prefix_key ''spleen_2.nii.gz'' (PInt 6)), Returned),
                   (Predict (payload ''sample-bucket'' prefix_key ''spleen_2.nii.gz'' (PInt 7)), Returned)]\<rparr>)
   \<and> int (length [PixelArray [[5, 0], [0, 1]], PixelArray [[6, 0], [0, 1]], PixelArray [[7, 0], [0, 1]]])
      = 8 - 5
   \<and> fst (cell_inference_loop_timed sample_sdk ''sample-bucket''
        [[(''image'', sample_image ''2''), (''label'', sample_label ''2'')]] 5 8 fresh)
      = Inr (Some ''spleen_2.nii.gz'',
            [PixelArray [[5, 0], [0, 1]], PixelArray [[6, 0], [0, 1]], PixelArray [[7, 0], [0, 1]]])"
proof -
  have le: "(5::int) \<le> 8" by simp
  from inference_loop_collects_responses [OF le sample_loop]
  have "int (length [PixelArray [[5, 0], [0, 1]], PixelArray [[6, 0], [0, 1]], PixelArray [[7, 0], [0, 1]]])
      = 8 - 5"
    and "fst (cell_inference_loop_timed sample_sdk ''sample-bucket''
        [[(''image'', sample_image ''2''), (''label'', sample_label ''2'')]] 5 8 fresh)
      = Inr (Some ''spleen_2.nii.gz'',
            [PixelArray [[5, 0], [0, 1]], PixelArray [[6, 0], [0, 1]], PixelArray [[7, 0], [0, 1]]])"
    by simp_all
  with le sample_loop show ?thesis by blast
qed

subsection \<open>Responses of the endpoint\<close>

lemma endpoint_on_request:
  assumes "well_formed_request p"
  shows "\<exists>v. map_of p ''nslice'' = Some v \<and>
    endpoint be p =
      (case selector_of v of
         None \<Rightarrow> Inl (LibraryError ''nslice'')
       | Some (SingleSlice n) \<Rightarrow> Inr (PixelArray (infer_slice be p n))
       | Some (SliceRange t) \<Rightarrow> Inr (StorageLocation (save_result be p t))
       | Some AllSlices \<Rightarrow> Inr (StorageLocation (save_result be p ''all'')))"
proof -
  from assms have keys: "map fst p = request_keys"
    by (simp add: well_formed_request_def)
  from assms obtain v where v: "map_of p ''nslice'' = Some v"
    by (auto simp: well_formed_request_def split: option.splits)
  have "distinct request_keys" by (simp add: request_keys_def)
  with keys v show ?thesis by (simp add: endpoint_def)
qed

lemma all_not_range: "\<not> is_range_text ''all''"
  by (simp add: is_range_text_def)

text \<open>
  Claim C2. For a well-formed request the endpoint answers an integer nslice with the
  pixel array of that slice, and a range text or \<^verbatim>\<open>all\<close> with the storage location
  where the result was saved; its response has no other form.
\<close>

theorem endpoint_response_forms:
  assumes "well_formed_request p"
  shows "(\<forall>n. map_of p ''nslice'' = Some (PInt n) \<longrightarrow>
            endpoint be p = Inr (PixelArray (infer_slice be p n)))
    \<and> (\<forall>t. map_of p ''nslice'' = Some (PStr t) \<and> is_range_text t \<longrightarrow>
            endpoint be p = Inr (StorageLocation (save_result be p t)))
    \<and> (map_of p ''nslice'' = Some (PStr ''all'') \<longrightarrow>
            endpoint be p = Inr (StorageLocation (save_result be p ''all'')))
    \<and> ((\<exists>px. endpoint be p = Inr (PixelArray px)) \<or> (\<exists>loc. endpoint be p = Inr (StorageLocation loc)))"
proof -
  from endpoint_on_request [OF assms] obtain v where
    v: "map_of p ''nslice'' = Some v"
    and e: "endpoint be p =
      (case selector_of v of
         None \<Rightarrow> Inl (LibraryError ''nslice'')
       | Some (SingleSlice n) \<Rightarrow> Inr (PixelArray (infer_slice be p n))
       | Some (SliceRange t) \<Rightarrow> Inr (StorageLocation (save_result be p t))
       | Some AllSlices \<Rightarrow> Inr (StorageLocation (save_result be p ''all'')))"
    by blast
  from assms v have some: "selector_of v \<noteq> None"
    by (simp add: well_formed_request_def)
  have int: "endpoint be p = Inr (PixelArray (infer_slice be p n))"
    if "map_of p ''nslice'' = Some (PInt n)" for n
    using that v e by (simp add: selector_of_def)
  have range: "endpoint be p = Inr (StorageLocation (save_result be p t))"
    if "map_of p ''nslice'' = Some (PStr t)" "is_range_text t" for t
    using that v e all_not_range by (auto simp: selector_of_def)
  have all: "endpoint be p = Inr (StorageLocation (save_result be p ''all''))"
    if "map_of p ''nslice'' = Some (PStr ''all'')"
    using that v e by (simp add: selector_of_def)
  have "(\<exists>px. endpoint be p = Inr (PixelArray px)) \<or> (\<exists>loc. endpoint be p = Inr (StorageLocation loc))"
    using some e by (cases "selector_of v") (auto split: selector.splits)
  with int range all show ?thesis by blast
qed

theorem endpoint_response_forms_witness:
  "well_formed_request (payload ''sample-bucket'' prefix_key ''spleen_2.nii.gz'' (PInt 3))
   \<and> endpoint sample_backend (payload ''sample-bucket'' prefix_key ''spleen_2.nii.gz'' (PInt 3))
       = Inr (PixelArray [[3, 0], [0, 1]])
   \<and> well_formed_request (payload_multi ''sample-bucket'' ''spleen_2.nii.gz'' 70 75)
   \<and> endpoint sample_backend (payload_multi ''sample-bucket'' ''spleen_2.nii.gz'' 70 75)
       = Inr (StorageLocation ''s3://sample-bucket/inference/70:75'')
   \<and> well_formed_request (payload_all ''sample-bucket'' ''spleen_2.nii.gz'')
   \<and> endpoint sample_backend (payload_all ''sample-bucket'' ''spleen_2.nii.gz'')
       = Inr (StorageLocation ''s3://sample-bucket/inference/all'')"
proof -
  let ?one = "payload ''sample-bucket'' prefix_key ''spleen_2.nii.gz'' (PInt 3)"
  let ?multi = "payload_multi ''sample-bucket'' ''spleen_2.nii.gz'' 70 75"
  let ?all = "payload_all ''sample-bucket'' ''spleen_2.nii.gz''"
  have sel: "sliceselect 70 75 = ''70:75''" by code_simp
  have "endpoint sample_backend ?one = Inr (PixelArray (infer_slice sample_backend ?one 3))"
    using endpoint_response_forms [OF wf_payload_int, of "''sample-bucket''" prefix_key
        "''spleen_2.nii.gz''" 3 sample_backend]
    by (simp add: payload_def)
  then have one: "endpoint sample_backend ?one = Inr (PixelArray [[3, 0], [0, 1]])"
    by (simp add: sample_backend_def)
  have "endpoint sample_backend ?multi
      = Inr (StorageLocation (save_result sample_backend ?multi (sliceselect 70 75)))"
    using endpoint_response_forms [OF wf_payload_multi, of "''sample-bucket''" "''spleen_2.nii.gz''"
        70 75 sample_backend] is_range_text_sliceselect [of 70 75]
    by (simp add: payload_multi_def payload_def)
  then have multi: "endpoint sample_backend ?multi
      = Inr (StorageLocation ''s3://sample-bucket/inference/70:75'')"
    by (simp add: sample_backend_def sel)
  have "endpoint sample_backend ?all
      = Inr (StorageLocation (save_result sample_backend ?all ''all''))"
    using endpoint_response_forms [OF wf_payload_all, of "''sample-bucket''" "''spleen_2.nii.gz''"
        sample_backend]
    by (simp add: payload_all_def payload_def)
  then have all: "endpoint sample_backend ?all
      = Inr (StorageLocation ''s3://sample-bucket/inference/all'')"
    by (simp add: sample_backend_def)
  from one multi all show ?thesis
    by (simp add: wf_payload_int wf_payload_multi wf_payload_all)
qed


subsection \<open>The training job\<close>

lemma metrics_parsed:
  "map (\<lambda>m. parse_regex (Regex m)) metrics
     = map (\<lambda>p. Some (p, [(CHR ''0'', CHR ''9''), (CHR ''.'', CHR ''.'')])) log_prefixes"
  by code_simp

lemma in_numeric_class:
  "in_class [(CHR ''0'', CHR ''9''), (CHR ''.'', CHR ''.'')] = numeric_char"
  by (rule ext) (auto simp: in_class_def numeric_char_def)

lemma search_first:
  assumes "absent_before lit (before @ lit @ rest) (length before)" and "lit \<noteq> []"
  shows "search lit cls (before @ lit @ rest) = Some (takeWhile cls rest)"
  using assms(1)
proof (induction before)
  case Nil
  from assms(2) obtain c l where "lit = c # l" by (cases lit) auto
  then show ?case by simp
next
  case (Cons b before)
  have all: "\<forall>k < Suc (length before).
      take (length lit) (drop k (b # before @ lit @ rest)) \<noteq> lit"
  proof (intro allI impI)
    fix k assume "k < Suc (length before)"
    then have "k \<in> set [0..<length (b # before)]" by (simp del: upt_Suc) 
    with Cons.prems show "take (length lit) (drop k (b # before @ lit @ rest)) \<noteq> lit"
      unfolding absent_before_def list_all_iff by (metis append_Cons)
  qed
  then have here: "take (length lit) (b # before @ lit @ rest) \<noteq> lit"
    by (metis drop0 zero_less_Suc)
  have "absent_before lit (before @ lit @ rest) (length before)"
    unfolding absent_before_def list_all_iff
  proof
    fix k assume "k \<in> set [0..<length before]"
    then have "Suc k < Suc (length before)" by simp
    with all have "take (length lit) (drop (Suc k) (b # before @ lit @ rest)) \<noteq> lit" by blast
    then show "take (length lit) (drop k (before @ lit @ rest)) \<noteq> lit" by simp
  qed
  from Cons.IH [OF this] here show ?case by simp
qed

lemma takeWhile_value:
  assumes "list_all P num" and "rest = [] \<or> \<not> P (hd rest)"
  shows "takeWhile P (num @ rest) = num"
proof -
  have "takeWhile P rest = []" using assms(2) by (cases rest) auto
  with assms(1) show ?thesis by (simp add: list_all_iff)
qed


lemma captured_value:
  assumes "parse_regex rx = Some (p, [(CHR ''0'', CHR ''9''), (CHR ''.'', CHR ''.'')])"
    and "p \<noteq> []"
    and "absent_before p (before @ p @ num @ rest) (length before)"
    and "list_all numeric_char num"
    and "rest = [] \<or> \<not> numeric_char (hd rest)"
  shows "captured rx (before @ p @ num @ rest) = Some num"
proof -
  have "captured rx (before @ p @ num @ rest) = search p numeric_char (before @ p @ num @ rest)"
    using assms(1) by (simp add: captured_def in_numeric_class)
  also have "\<dots> = Some (takeWhile numeric_char (num @ rest))"
    using assms(3) assms(2) by (rule search_first)
  also have "\<dots> = Some num"
    using assms(4) assms(5) by (simp add: takeWhile_value)
  finally show ?thesis .
qed

lemma metric_parsed:
  assumes "i < 3"
  shows "parse_regex (Regex (metrics ! i))
    = Some (log_prefixes ! i, [(CHR ''0'', CHR ''9''), (CHR ''.'', CHR ''.'')])"
proof -
  have len: "length metrics = 3" "length log_prefixes = 3"
    by (simp_all add: metrics_def log_prefixes_def)
  have "map (\<lambda>m. parse_regex (Regex m)) metrics ! i
     = map (\<lambda>p. Some (p, [(CHR ''0'', CHR ''9''), (CHR ''.'', CHR ''.'')])) log_prefixes ! i"
    by (simp only: metrics_parsed)
  with assms len show ?thesis by simp
qed

lemma log_prefix_nonempty: "i < 3 \<Longrightarrow> log_prefixes ! i \<noteq> []"
proof -
  assume "i < 3"
  then have "i = 0 \<or> i = 1 \<or> i = 2" by auto
  then show ?thesis by (auto simp: log_prefixes_def)
qed

subsection \<open>The steps of a run that reaches the end\<close>

lemma steps_append: "steps (es1 @ es2) = steps es1 @ steps es2"
  by (simp add: steps_def map_filter_def)

lemma steps_Nil: "steps [] = []"
  by (simp add: steps_def map_filter_def)

lemma steps_Cons: "steps ((c, out) # es) = (case step_of c of None \<Rightarrow> steps es | Some k \<Rightarrow> k # steps es)"
  by (simp add: steps_def map_filter_def split: option.splits)

lemma adds_refl: "adds [] s s"
  by (simp add: adds_def steps_Nil)

lemma adds_trans:
  assumes "adds L1 s s1" and "adds L2 s1 s2"
  shows "adds (L1 @ L2) s s2"
proof -
  from assms obtain es1 es2 where
    e1: "trace s1 = trace s @ es1" "list_all returned es1 \<longrightarrow> steps es1 = L1"
    and e2: "trace s2 = trace s1 @ es2" "list_all returned es2 \<longrightarrow> steps es2 = L2"
    unfolding adds_def by blast
  have "trace s2 = trace s @ (es1 @ es2)" using e1(1) e2(1) by simp
  moreover have "list_all returned (es1 @ es2) \<longrightarrow> steps (es1 @ es2) = L1 @ L2"
    using e1(2) e2(2) by (simp add: steps_append)
  ultimately show ?thesis unfolding adds_def by blast
qed

lemma adds_Nil_trans: "adds [] s s1 \<Longrightarrow> adds L s1 s2 \<Longrightarrow> adds L s s2"
  using adds_trans [of "[]" s s1 L s2] by simp

lemma adds_invoke:
  "invoke c f s = (r, s') \<Longrightarrow> adds (case step_of c of None \<Rightarrow> [] | Some k \<Rightarrow> [k]) s s'"
  by (auto simp: invoke_def adds_def steps_Cons steps_Nil split: option.splits prod.splits)

text \<open>After a call that raised nothing is claimed about the steps.\<close>

lemma adds_raised: "invoke c f s = (Inl e, s') \<Longrightarrow> adds L s s'"
  by (auto simp: invoke_def adds_def returned_def outcome_of_def split: prod.splits)

lemma adds_session: "cell_session env s = (Inr a, s') \<Longrightarrow> adds [] s s'"
  unfolding cell_session_def
  apply (auto simp: seq_Inr ret_Inr dest!: adds_invoke simp: step_of_def)
  by (blast intro: adds_Nil_trans)

lemma adds_download:
  "cell_download env s = (Inr a, s') \<Longrightarrow> adds [] s s' \<or> adds [StepDownload] s s'"
  unfolding cell_download_def
  by (auto simp: seq_Inr ret_Inr observe_Inr adds_refl step_of_def split: if_splits dest!: adds_invoke)

lemma adds_transforms: "cell_transforms env s = (Inr a, s') \<Longrightarrow> adds [StepCompose] s s'"
  unfolding cell_transforms_def by (auto dest!: adds_invoke simp: step_of_def)

lemma adds_split: "cell_split env s = (Inr a, s') \<Longrightarrow> adds [] s s'"
  unfolding cell_split_def by (auto simp: observe_Inr adds_refl)

lemma adds_check: "cell_check env files s = (Inr a, s') \<Longrightarrow> adds [StepPlot] s s'"
  unfolding cell_check_def
  apply (auto simp: seq_Inr dest!: adds_invoke simp: step_of_def)
  by (blast intro: adds_Nil_trans)

lemma adds_mkdirs: "cell_mkdirs env s = (Inr a, s') \<Longrightarrow> adds [] s s'"
  unfolding cell_mkdirs_def
  apply (auto simp: seq_Inr dest!: adds_invoke simp: step_of_def)
  by (blast intro: adds_Nil_trans)

lemma adds_copy_files:
  "copy_files env files d1 d2 s = (Inr a, s') \<Longrightarrow> adds (replicate (2 * length files) StepCopy) s s'"
proof (induction files arbitrary: s)
  case Nil
  then show ?case by (simp add: ret_Inr adds_refl)
next
  case (Cons d files)
  from Cons.prems obtain images label s1 s2 where
    c1: "invoke (Copy images d1) (copy env images d1) s = (Inr (), s1)"
    and c2: "invoke (Copy label d2) (copy env label d2) s1 = (Inr (), s2)"
    and rest: "copy_files env files d1 d2 s2 = (Inr a, s')"
    by (auto simp: seq_Inr lift_Inr)
  from adds_invoke [OF c1] adds_invoke [OF c2] have "adds ([StepCopy] @ [StepCopy]) s s2"
    by (intro adds_trans) (simp_all add: step_of_def)
  from adds_trans [OF this Cons.IH [OF rest]] show ?case by simp
qed

lemma adds_upload_train: "cell_upload_train env b s = (Inr a, s') \<Longrightarrow> adds [StepUpload] s s'"
  unfolding cell_upload_train_def by (auto dest!: adds_invoke simp: step_of_def)

lemma adds_upload_test: "cell_upload_test env b s = (Inr a, s') \<Longrightarrow> adds [StepUpload] s s'"
  unfolding cell_upload_test_def by (auto dest!: adds_invoke simp: step_of_def)

text \<open>The training cell, statement by statement: the constructor raises and \<^verbatim>\<open>estimator\<close>
  stays unassigned, or it returns and \<^verbatim>\<open>fit\<close> is called in the world it left.\<close>

lemma train_cases:
  assumes "cell_train env role_arn S3_inputs s = (r, s')"
  shows "(\<exists>e w1. new_estimator env (pytorch_estimator role_arn) (world s) = (Inl e, w1)
            \<and> r = Inr None
            \<and> s' = \<lparr>world = w1, trace = trace s @ [(PyTorch (pytorch_estimator role_arn), Raised e)]\<rparr>)
       \<or> (\<exists>w1. new_estimator env (pytorch_estimator role_arn) (world s) = (Inr (), w1)
            \<and> r = Inr (Some ())
            \<and> s' = \<lparr>world = snd (fit env S3_inputs w1),
                    trace = trace s @ [(PyTorch (pytorch_estimator role_arn), Returned),
                                       (Fit S3_inputs, outcome_of (fst (fit env S3_inputs w1)))]\<rparr>)"
  using assms unfolding cell_train_def caught_def invoke_def ret_def outcome_of_def
  by (auto split: prod.splits sum.splits)

lemma adds_train:
  assumes "cell_train env role_arn S3_inputs s = (Inr (Some u), s')"
  shows "adds [StepFit] s s'"
proof -
  from train_cases [OF assms] obtain out where
    "trace s' = trace s @ [(PyTorch (pytorch_estimator role_arn), Returned), (Fit S3_inputs, out)]"
    by auto
  then show ?thesis
    by (simp add: adds_def steps_Cons steps_Nil step_of_def)
qed

lemma adds_deploy:
  assumes "cell_deploy env estimator h s = (Inr a, s')"
  shows "adds [StepDeploy] s s' \<and> estimator \<noteq> None \<and> h \<noteq> None"
proof -
  from assms obtain args where h: "h = Some args"
    by (cases h) (auto simp: cell_deploy_def lift_def)
  from assms h have est: "estimator \<noteq> None"
    and call: "invoke (Deploy args) (deploy env args) s = (Inr a, s')"
    by (auto simp: cell_deploy_def seq_Inr lift_Inr variable_def split: option.splits)
  from adds_invoke [OF call] est h show ?thesis by (simp add: step_of_def)
qed

lemma adds_predict_loop_timed:
  assumes "predict_loop_timed env b k f cs acc s = (r, s')"
  shows "adds (replicate (length cs) StepPredict) s s'"
  using assms
proof (induction cs arbitrary: acc s)
  case Nil
  then show ?case by (simp add: ret_def adds_refl)
next
  case (Cons c cs)
  let ?call = "invoke (Predict (payload b k f (PInt c))) (predict env (payload b k f (PInt c)))"
  from Cons.prems have
    "(\<exists>e. ?call s = (Inl e, s'))
     \<or> (\<exists>a s1. ?call s = (Inr a, s1) \<and> predict_loop_timed env b k f cs (acc @ [a]) s1 = (r, s'))"
    by (simp add: caught_Inr) blast
  then show ?case
  proof (elim disjE exE conjE)
    fix e assume "?call s = (Inl e, s')"
    then show ?thesis by (rule adds_raised)
  next
    fix a s1 assume call: "?call s = (Inr a, s1)"
      and rest: "predict_loop_timed env b k f cs (acc @ [a]) s1 = (r, s')"
    from adds_invoke [OF call] have "adds [StepPredict] s s1" by (simp add: step_of_def)
    from adds_trans [OF this Cons.IH [OF rest]] show ?thesis by simp
  qed
qed

text \<open>The loop cell leaves \<^verbatim>\<open>test_demo_preds\<close> empty and \<^verbatim>\<open>file\<close> unassigned without a call,
  or it assigns \<^verbatim>\<open>file\<close> and runs the loop.\<close>

lemma inference_loop_timed_cases:
  fixes a b :: int
  assumes "cell_inference_loop_timed env bucket files a b s = (r, s')"
  shows "(r = Inr (None, []) \<and> s' = s)
       \<or> (\<exists>file_name. predict_loop_timed env bucket prefix_key file_name (py_range a b) [] s = (r, s'))"
  using assms unfolding cell_inference_loop_timed_def
  by (auto simp: caught_Inr lift_def)

lemma predict_loop_timed_file:
  "predict_loop_timed env b k f cs acc s = (r, s') \<Longrightarrow> \<exists>preds. r = Inr (Some f, preds)"
  by (induction cs arbitrary: acc s) (auto simp: caught_Inr ret_def)

lemma adds_inference_loop:
  fixes a b :: int
  assumes "cell_inference_loop_timed env bucket files a b s = (Inr (file_var, preds), s')"
    and "preds \<noteq> []"
  shows "adds (replicate (nat (b - a)) StepPredict) s s' \<and> file_var \<noteq> None"
proof -
  from inference_loop_timed_cases [OF assms(1)] assms(2) obtain file_name where
    loop: "predict_loop_timed env bucket prefix_key file_name (py_range a b) [] s
      = (Inr (file_var, preds), s')"
    by auto
  from predict_loop_timed_file [OF loop] have "file_var \<noteq> None" by auto
  with adds_predict_loop_timed [OF loop] show ?thesis by (simp add: py_range_length)
qed

lemma adds_tensor_size:
  "cell_tensor_size preds n s = (Inr a, s') \<Longrightarrow> adds [] s s' \<and> preds \<noteq> []"
  unfolding cell_tensor_size_def
  by (auto simp: seq_Inr lift_Inr adds_refl py_index_def split: if_splits)

lemma adds_plot_result: "cell_plot_result env preds a n s = (Inr x, s') \<Longrightarrow> adds [StepPlot] s s'"
  unfolding cell_plot_result_def
  by (auto simp: seq_Inr lift_Inr dest!: adds_invoke simp: step_of_def)

lemma adds_multi:
  "cell_multi env b (Some f) x y s = (r, s') \<Longrightarrow> adds [StepPredict] s s'"
  unfolding cell_multi_def
  by (auto simp: caught_Inr lift_def variable_def ret_def dest!: adds_invoke simp: step_of_def)

lemma adds_all: "cell_all env b (Some f) s = (r, s') \<Longrightarrow> adds [StepPredict] s s'"
  unfolding cell_all_def
  by (auto simp: caught_Inr lift_def variable_def ret_def dest!: adds_invoke simp: step_of_def)

lemma length_split: "length (train_files dd) + length (test_demo_files dd) = length dd"
  by (simp add: train_files_def test_demo_files_def slice_to_def slice_from_def)

lemma adds_before_training:
  assumes "adds [] s s1" "adds pre s1 s2" "adds [StepCompose] s2 s3" "adds [] s3 s4"
    "adds [StepPlot] s4 s5" "adds [] s5 s6"
    "adds (replicate a StepCopy) s6 s7" "adds (replicate b StepCopy) s7 s8"
    "adds [StepUpload] s8 s9" "adds [StepUpload] s9 s10"
  shows "adds (pre @ [StepCompose, StepPlot] @ replicate (a + b) StepCopy
         @ [StepUpload, StepUpload]) s s10"
proof -
  have "adds ([] @ pre @ [StepCompose] @ [] @ [StepPlot] @ [] @ replicate a StepCopy
      @ replicate b StepCopy @ [StepUpload] @ [StepUpload]) s s10"
    by ((rule adds_trans, rule assms)+) (rule assms)
  then show ?thesis by (simp add: replicate_add)
qed

lemma adds_after_training:
  assumes "adds [StepDeploy] s11 s12" "adds (replicate n StepPredict) s12 s13" "adds [] s13 s14"
    "adds [StepPlot] s14 s15" "adds [StepPredict] s15 s16" "adds [StepPredict] s16 s17"
  shows "adds ([StepDeploy] @ replicate n StepPredict @ [StepPlot, StepPredict, StepPredict])
           s11 s17"
proof -
  have "adds ([StepDeploy] @ replicate n StepPredict @ [] @ [StepPlot] @ [StepPredict]
      @ [StepPredict]) s11 s17"
    by ((rule adds_trans, rule assms)+) (rule assms)
  then show ?thesis by simp
qed

text \<open>A run that reaches the end, cut at the training cell: the cells before it, the
  training cell with \<^verbatim>\<open>estimator\<close> assigned and the URI of the uploaded training data as
  its input, and the cells after it. The deploy cell has its arguments filled in.\<close>

lemma notebook_finished:
  assumes "notebook env cfg s = (Inr v, s')"
  shows "\<exists>pre role_arn s10 s11.
      (pre = [] \<or> pre = [StepDownload])
    \<and> adds (pre @ [StepCompose, StepPlot]
         @ replicate (2 * length (var_data_dicts v)) StepCopy
         @ [StepUpload, StepUpload]) s s10
    \<and> cell_train env role_arn (var_S3_inputs v) s10 = (Inr (Some ()), s11)
    \<and> adds ([StepDeploy]
         @ replicate (nat (nsliceend cfg - nslicestart cfg)) StepPredict
         @ [StepPlot, StepPredict, StepPredict]) s11 s'
    \<and> hosting cfg \<noteq> None"
proof -
  from assms obtain role_arn bucket dd S3_inputs S3_demo_test estimator file_var preds
      x5 x6 x7 x8 x12 x14 x15 multi allr
      s1 s2 s3 s4 s5 s6 s7 s8 s9 s10 s11 s12 s13 s14 s15 s16
    where c1: "cell_session env s = (Inr (role_arn, bucket), s1)"
      and c2: "cell_download env s1 = (Inr (), s2)"
      and c3: "cell_transforms env s2 = (Inr (), s3)"
      and c4: "cell_split env s3 = (Inr dd, s4)"
      and c5: "cell_check env (test_demo_files dd) s4 = (Inr x5, s5)"
      and c6: "cell_mkdirs env s5 = (Inr x6, s6)"
      and c7: "copy_files env (train_files dd)
                 processed_train_images_path processed_train_labels_path s6 = (Inr x7, s7)"
      and c8: "copy_files env (test_demo_files dd)
                 processed_test_images_path processed_test_labels_path s7 = (Inr x8, s8)"
      and c9: "cell_upload_train env bucket s8 = (Inr S3_inputs, s9)"
      and c10: "cell_upload_test env bucket s9 = (Inr S3_demo_test, s10)"
      and c11: "cell_train env role_arn S3_inputs s10 = (Inr estimator, s11)"
      and c12: "cell_deploy env estimator (hosting cfg) s11 = (Inr x12, s12)"
      and c13: "cell_inference_loop_timed env bucket (test_demo_files dd)
                  (nslicestart cfg) (nsliceend cfg) s12 = (Inr (file_var, preds), s13)"
      and c14: "cell_tensor_size preds (nslice cfg) s13 = (Inr x14, s14)"
      and c15: "cell_plot_result env preds (nslicestart cfg) (nslice cfg) s14 = (Inr x15, s15)"
      and c16: "cell_multi env bucket file_var (slicestart cfg) (sliceend cfg) s15 = (Inr multi, s16)"
      and c17: "cell_all env bucket file_var s16 = (Inr allr, s')"
      and v: "var_data_dicts v = dd" "var_S3_inputs v = S3_inputs"
    unfolding notebook_def by (auto simp: seq_Inr ret_Inr)
  from adds_deploy [OF c12] have deploy: "adds [StepDeploy] s11 s12"
    and est: "estimator = Some ()" and h: "hosting cfg \<noteq> None"
    by auto
  from adds_tensor_size [OF c14] have size: "adds [] s13 s14" and ne: "preds \<noteq> []"
    by auto
  from adds_inference_loop [OF c13 ne] obtain file_name where
    loop: "adds (replicate (nat (nsliceend cfg - nslicestart cfg)) StepPredict) s12 s13"
    and f: "file_var = Some file_name"
    by auto
  have after: "adds ([StepDeploy]
         @ replicate (nat (nsliceend cfg - nslicestart cfg)) StepPredict
         @ [StepPlot, StepPredict, StepPredict]) s11 s'"
    using deploy loop size adds_plot_result [OF c15] adds_multi [OF c16 [unfolded f]]
      adds_all [OF c17 [unfolded f]]
    by (rule adds_after_training)
  have before: "adds (pre @ [StepCompose, StepPlot]
         @ replicate (2 * length (var_data_dicts v)) StepCopy
         @ [StepUpload, StepUpload]) s s10"
    if "adds pre s1 s2" for pre
  proof -
    from adds_before_training [OF adds_session [OF c1] that adds_transforms [OF c3]
        adds_split [OF c4] adds_check [OF c5] adds_mkdirs [OF c6] adds_copy_files [OF c7]
        adds_copy_files [OF c8] adds_upload_train [OF c9] adds_upload_test [OF c10]]
    show ?thesis by (simp add: v length_split distrib_left [symmetric])
  qed
  from adds_download [OF c2] before
  have "\<exists>pre. (pre = [] \<or> pre = [StepDownload])
    \<and> adds (pre @ [StepCompose, StepPlot]
         @ replicate (2 * length (var_data_dicts v)) StepCopy
         @ [StepUpload, StepUpload]) s s10"
    by blast
  with c11 est after h v show ?thesis by blast
qed

lemma adds_steps:
  "adds L s s' \<Longrightarrow> trace s' = trace s @ es \<Longrightarrow> list_all returned es \<Longrightarrow> steps es = L"
  by (auto simp: adds_def)

lemma adds_grows: "adds L s s' \<Longrightarrow> \<exists>es. trace s' = trace s @ es"
  by (auto simp: adds_def)

lemma notebook_steps:
  assumes "notebook env cfg s = (Inr v, s')"
  shows "\<exists>pre. (pre = [] \<or> pre = [StepDownload])
    \<and> adds (pre @ [StepCompose, StepPlot]
         @ replicate (2 * length (var_data_dicts v)) StepCopy
         @ [StepUpload, StepUpload, StepFit, StepDeploy]
         @ replicate (nat (nsliceend cfg - nslicestart cfg)) StepPredict
         @ [StepPlot, StepPredict, StepPredict]) s s'"
proof -
  from notebook_finished [OF assms] obtain pre role_arn s10 s11 where
    pre: "pre = [] \<or> pre = [StepDownload]"
    and a: "adds (pre @ [StepCompose, StepPlot]
         @ replicate (2 * length (var_data_dicts v)) StepCopy
         @ [StepUpload, StepUpload]) s s10"
    and t: "cell_train env role_arn (var_S3_inputs v) s10 = (Inr (Some ()), s11)"
    and b: "adds ([StepDeploy]
         @ replicate (nat (nsliceend cfg - nslicestart cfg)) StepPredict
         @ [StepPlot, StepPredict, StepPredict]) s11 s'"
    by blast
  from adds_trans [OF adds_trans [OF a adds_train [OF t]] b] pre show ?thesis
    by (intro exI [of _ pre]) simp
qed

subsection \<open>The place of every call\<close>

lemma in_stage_Nil: "in_stage lo hi []"
  by (simp add: in_stage_def)

lemma in_stage_single: "lo \<le> rank c \<Longrightarrow> rank c \<le> hi \<Longrightarrow> in_stage lo hi [(c, out)]"
  by (simp add: in_stage_def)

lemma in_stage_append:
  assumes "in_stage lo mid es1" and "in_stage mid hi es2" and "lo \<le> mid" and "mid \<le> hi"
  shows "in_stage lo hi (es1 @ es2)"
  using assms by (fastforce simp: in_stage_def sorted_append list_all_iff)

lemma in_stage_widen:
  "in_stage lo hi es \<Longrightarrow> lo' \<le> lo \<Longrightarrow> hi \<le> hi' \<Longrightarrow> in_stage lo' hi' es"
  by (fastforce simp: in_stage_def list_all_iff)

lemma staged_ret: "staged lo hi (ret a)"
  by (simp add: staged_def emits_ret in_stage_Nil)

lemma staged_lift: "staged lo hi (lift r)"
  by (simp add: staged_def emits_lift in_stage_Nil)

lemma staged_observe: "staged lo hi (observe f)"
  by (simp add: staged_def emits_observe in_stage_Nil)

lemma staged_invoke: "lo \<le> rank c \<Longrightarrow> rank c \<le> hi \<Longrightarrow> staged lo hi (invoke c f)"
  by (simp add: staged_def emits_invoke in_stage_single)

lemma staged_seq:
  assumes "staged lo mid m" and "\<And>a. staged mid hi (f a)" and "lo \<le> mid" and "mid \<le> hi"
  shows "staged lo hi (seq m f)"
  unfolding staged_def
proof (rule emits_seq [where ?R1.0 = "\<lambda>es out. in_stage lo mid es"
      and ?R2.0 = "\<lambda>es out. in_stage mid hi es"])
  show "emits m (\<lambda>es out. in_stage lo mid es)" using assms(1) by (simp add: staged_def)
  show "emits (f a) (\<lambda>es out. in_stage mid hi es)" for a using assms(2) by (simp add: staged_def)
  show "in_stage lo hi es" if "in_stage lo mid es" for es
    using that assms(4) by (rule in_stage_widen [OF _ order_refl])
  show "in_stage lo hi (es1 @ es2)" if "in_stage lo mid es1" "in_stage mid hi es2" for es1 es2
    using that assms(3,4) by (rule in_stage_append)
qed

lemma staged_widen: "staged lo hi m \<Longrightarrow> lo' \<le> lo \<Longrightarrow> hi \<le> hi' \<Longrightarrow> staged lo' hi' m"
  unfolding staged_def by (erule emits_weaken) (rule in_stage_widen)

lemma staged_case_prod: "(\<And>a b. staged lo hi (f a b)) \<Longrightarrow> staged lo hi (case_prod f x)"
  by (cases x) simp

text \<open>A cell all of whose calls have the same place.\<close>

lemma staged_same_seq:
  "staged k k m \<Longrightarrow> (\<And>a. staged k k (f a)) \<Longrightarrow> staged k k (seq m f)"
  by (rule staged_seq [where mid = k]) simp_all

lemma staged_caught:
  assumes "staged lo mid m" and "\<And>a. staged mid hi (f a)" and "lo \<le> mid" and "mid \<le> hi"
  shows "staged lo hi (caught m left f)"
  unfolding staged_def
proof (rule emits_caught [where ?R1.0 = "\<lambda>es out. in_stage lo mid es"
      and ?R2.0 = "\<lambda>es out. in_stage mid hi es"])
  show "emits m (\<lambda>es out. in_stage lo mid es)" using assms(1) by (simp add: staged_def)
  show "emits (f a) (\<lambda>es out. in_stage mid hi es)" for a using assms(2) by (simp add: staged_def)
  show "in_stage lo hi es" if "in_stage lo mid es" for es
    using that assms(4) by (rule in_stage_widen [OF _ order_refl])
  show "in_stage lo hi (es1 @ es2)" if "in_stage lo mid es1" "in_stage mid hi es2" for es1 es2
    using that assms(3,4) by (rule in_stage_append)
qed

lemma staged_same_caught:
  "staged k k m \<Longrightarrow> (\<And>a. staged k k (f a)) \<Longrightarrow> staged k k (caught m left f)"
  by (rule staged_caught [where mid = k]) simp_all

lemma staged_case_option:
  "staged lo hi m \<Longrightarrow> (\<And>a. staged lo hi (f a)) \<Longrightarrow> staged lo hi (case_option m f x)"
  by (cases x) simp_all

lemmas staged_same_rules =
  staged_ret staged_lift staged_observe staged_invoke staged_same_seq staged_same_caught
  staged_case_option

lemma staged_session: "staged 0 0 (cell_session env)"
  unfolding cell_session_def by (intro staged_same_rules) (simp_all add: rank_def)

lemma staged_download: "staged 1 1 (cell_download env)"
  unfolding cell_download_def
  by (intro staged_same_rules) (simp_all add: rank_def staged_ret staged_invoke)

lemma staged_transforms: "staged 2 2 (cell_transforms env)"
  unfolding cell_transforms_def by (intro staged_same_rules) (simp_all add: rank_def)

lemma staged_check: "staged 3 3 (cell_check env files)"
  unfolding cell_check_def by (intro staged_same_rules) (simp_all add: rank_def)

lemma staged_mkdirs: "staged 4 4 (cell_mkdirs env)"
  unfolding cell_mkdirs_def by (intro staged_same_rules) (simp_all add: rank_def)

lemma staged_copy_files: "staged 5 5 (copy_files env files d1 d2)"
  by (induction files) (auto intro!: staged_same_rules simp: rank_def)

lemma staged_upload_train: "staged 6 6 (cell_upload_train env b)"
  unfolding cell_upload_train_def by (intro staged_same_rules) (simp_all add: rank_def)

lemma test_path_differs: "processed_test_images_path \<noteq> processed_train_path"
  by (simp add: processed_test_images_path_def processed_train_path_def processed_test_path_def
      path_join_def join_step_def data_dir_def)

lemma staged_upload_test: "staged 7 7 (cell_upload_test env b)"
  unfolding cell_upload_test_def
  by (intro staged_same_rules) (simp_all add: rank_def test_path_differs)

lemma staged_train: "staged 8 9 (cell_train env r i)"
  unfolding cell_train_def
proof (rule staged_caught [where mid = 9])
  show "staged 8 9 (invoke (PyTorch (pytorch_estimator r)) (new_estimator env (pytorch_estimator r)))"
    by (rule staged_invoke) (simp_all add: rank_def)
  show "staged 9 9 (caught (invoke (Fit i) (fit env i)) (Some a) (\<lambda>_. ret (Some a)))" for a
    by (intro staged_same_rules) (simp_all add: rank_def)
qed simp_all

lemma staged_deploy: "staged 10 10 (cell_deploy env estimator h)"
  unfolding cell_deploy_def by (intro staged_same_rules) (simp_all add: rank_def)

lemma rank_request_int: "rank (Predict (payload b k f (PInt c))) = 11"
  by (simp add: rank_def payload_def)

lemma rank_request_multi: "rank (Predict (payload_multi b f x y)) = 13"
  by (simp add: rank_def payload_multi_def payload_def sliceselect_not_all)

lemma rank_request_all: "rank (Predict (payload_all b f)) = 14"
  by (simp add: rank_def payload_all_def payload_def)

lemma staged_predict_loop: "staged 11 11 (predict_loop_timed env b k f cs acc)"
  by (induction cs arbitrary: acc) (auto intro!: staged_same_rules simp: rank_request_int)

lemma staged_inference_loop: "staged 11 11 (cell_inference_loop_timed env b files x y)"
  unfolding cell_inference_loop_timed_def
  by (intro staged_same_rules staged_predict_loop)

lemma staged_tensor_size: "staged 12 12 (cell_tensor_size preds n)"
  unfolding cell_tensor_size_def by (intro staged_same_rules)

lemma staged_plot_result: "staged 12 12 (cell_plot_result env preds x n)"
  unfolding cell_plot_result_def by (intro staged_same_rules) (simp_all add: rank_def)

lemma staged_multi: "staged 13 13 (cell_multi env b f x y)"
  unfolding cell_multi_def by (intro staged_same_rules) (simp_all add: rank_request_multi)

lemma staged_all: "staged 14 14 (cell_all env b f)"
  unfolding cell_all_def by (intro staged_same_rules) (simp_all add: rank_request_all)

lemma from_session: "lo \<le> 0 \<Longrightarrow> staged lo 0 (cell_session env)"
  using staged_session by simp

lemma from_download: "lo \<le> 1 \<Longrightarrow> staged lo 1 (cell_download env)"
  by (rule staged_widen [OF staged_download]) simp_all

lemma from_transforms: "lo \<le> 2 \<Longrightarrow> staged lo 2 (cell_transforms env)"
  by (rule staged_widen [OF staged_transforms]) simp_all

lemma from_split: "staged lo lo (cell_split env)"
  unfolding cell_split_def by (rule staged_observe)

lemma from_check: "lo \<le> 3 \<Longrightarrow> staged lo 3 (cell_check env files)"
  by (rule staged_widen [OF staged_check]) simp_all

lemma from_mkdirs: "lo \<le> 4 \<Longrightarrow> staged lo 4 (cell_mkdirs env)"
  by (rule staged_widen [OF staged_mkdirs]) simp_all

lemma from_copy_files: "lo \<le> 5 \<Longrightarrow> staged lo 5 (copy_files env files d1 d2)"
  by (rule staged_widen [OF staged_copy_files]) simp_all

lemma from_upload_train: "lo \<le> 6 \<Longrightarrow> staged lo 6 (cell_upload_train env b)"
  by (rule staged_widen [OF staged_upload_train]) simp_all

lemma from_upload_test: "lo \<le> 7 \<Longrightarrow> staged lo 7 (cell_upload_test env b)"
  by (rule staged_widen [OF staged_upload_test]) simp_all

lemma from_train: "lo \<le> 8 \<Longrightarrow> staged lo 9 (cell_train env r i)"
  by (rule staged_widen [OF staged_train]) simp_all

lemma from_deploy: "lo \<le> 10 \<Longrightarrow> staged lo 10 (cell_deploy env estimator h)"
  by (rule staged_widen [OF staged_deploy]) simp_all

lemma from_inference_loop:
  "lo \<le> 11 \<Longrightarrow> staged lo 11 (cell_inference_loop_timed env b files x y)"
  by (rule staged_widen [OF staged_inference_loop]) simp_all

lemma from_tensor_size: "staged lo lo (cell_tensor_size preds n)"
  unfolding cell_tensor_size_def by (intro staged_same_rules)

lemma from_plot_result: "lo \<le> 12 \<Longrightarrow> staged lo 12 (cell_plot_result env preds x n)"
  by (rule staged_widen [OF staged_plot_result]) simp_all

lemma from_multi: "lo \<le> 13 \<Longrightarrow> staged lo 13 (cell_multi env b f x y)"
  by (rule staged_widen [OF staged_multi]) simp_all

lemma from_all: "lo \<le> 14 \<Longrightarrow> staged lo 14 (cell_all env b f)"
  by (rule staged_widen [OF staged_all]) simp_all

lemmas from_cells =
  from_session from_download from_transforms from_split from_check from_mkdirs from_copy_files
  from_upload_train from_upload_test from_train from_deploy from_inference_loop
  from_tensor_size from_plot_result from_multi from_all

lemma staged_notebook: "staged 0 14 (notebook env cfg)"
  unfolding notebook_def
  apply (intro staged_seq staged_case_prod staged_ret)
  apply ((rule from_cells; simp)+)
  apply simp_all
  done


lemma staged_split: "staged 3 3 (cell_split env)"
  by (rule from_split)

lemmas staged_cells =
  staged_session staged_download staged_transforms staged_split staged_check staged_mkdirs
  staged_copy_files staged_upload_train staged_upload_test staged_train staged_deploy
  staged_inference_loop staged_tensor_size staged_plot_result staged_multi staged_all

lemma in_stage_low: "in_stage lo hi es \<Longrightarrow> hi \<le> k \<Longrightarrow> list_all (\<lambda>e. rank (fst e) \<le> k) es"
  by (fastforce simp: in_stage_def list_all_iff)

lemma behind_low: "list_all (\<lambda>e. rank (fst e) \<le> k) es \<Longrightarrow> behind P k es"
  by (fastforce simp: behind_def list_all_length)

lemma behind_append:
  assumes low: "list_all (\<lambda>e. rank (fst e) \<le> k) es1" and b: "behind P k es2"
  shows "behind P k (es1 @ es2)"
  unfolding behind_def
proof (intro allI impI)
  fix i assume i: "i < length (es1 @ es2)" and hi: "k < rank (fst ((es1 @ es2) ! i))"
  have "\<not> i < length es1"
  proof
    assume "i < length es1"
    then have "rank (fst ((es1 @ es2) ! i)) \<le> k"
      using low by (simp add: nth_append list_all_length)
    with hi show False by simp
  qed
  then have ge: "length es1 \<le> i" by simp
  with i hi have "i - length es1 < length es2" "k < rank (fst (es2 ! (i - length es1)))"
    by (simp_all add: nth_append)
  with b obtain j where j: "j < i - length es1" "rank (fst (es2 ! j)) = k" "P (es2 ! j)"
    unfolding behind_def by blast
  then have "length es1 + j < i" "(es1 @ es2) ! (length es1 + j) = es2 ! j"
    using ge by (simp_all add: nth_append)
  with j show "\<exists>j<i. rank (fst ((es1 @ es2) ! j)) = k \<and> P ((es1 @ es2) ! j)"
    by metis
qed

lemma behind_reached:
  assumes "reaches P k es1 Returned"
  shows "behind P k (es1 @ es2)"
  unfolding behind_def
proof (intro allI impI)
  fix i assume i: "i < length (es1 @ es2)" and hi: "k < rank (fst ((es1 @ es2) ! i))"
  from assms have low: "list_all (\<lambda>e. rank (fst e) \<le> k) es1"
    and ex: "list_ex (\<lambda>e. rank (fst e) = k \<and> P e) es1"
    by (simp_all add: reaches_def)
  have "\<not> i < length es1"
  proof
    assume "i < length es1"
    then have "rank (fst ((es1 @ es2) ! i)) \<le> k"
      using low by (simp add: nth_append list_all_length)
    with hi show False by simp
  qed
  then have ge: "length es1 \<le> i" by simp
  from ex obtain j where j: "j < length es1" "rank (fst (es1 ! j)) = k" "P (es1 ! j)"
    by (auto simp: list_ex_length)
  then have "j < i" "(es1 @ es2) ! j = es1 ! j" using ge by (simp_all add: nth_append)
  with j show "\<exists>j<i. rank (fst ((es1 @ es2) ! j)) = k \<and> P ((es1 @ es2) ! j)"
    by metis
qed

lemma behind_seq_before:
  assumes "staged lo hi m" and "hi < k" and "\<And>a. emits (f a) (\<lambda>es out. behind P k es)"
  shows "emits (seq m f) (\<lambda>es out. behind P k es)"
proof (rule emits_seq [where ?R1.0 = "\<lambda>es out. in_stage lo hi es"
      and ?R2.0 = "\<lambda>es out. behind P k es"])
  show "emits m (\<lambda>es out. in_stage lo hi es)" using assms(1) by (simp add: staged_def)
  show "emits (f a) (\<lambda>es out. behind P k es)" for a by (rule assms(3))
  show "behind P k es" if "in_stage lo hi es" for es
    using in_stage_low [OF that] assms(2) by (simp add: behind_low)
  show "behind P k (es1 @ es2)" if "in_stage lo hi es1" "behind P k es2" for es1 es2
    using in_stage_low [OF that(1)] assms(2) that(2) by (simp add: behind_append)
qed

lemma behind_seq_at:
  assumes "emits m (reaches P k)" and "\<And>a. calls_satisfy (\<lambda>c. True) (f a)"
  shows "emits (seq m f) (\<lambda>es out. behind P k es)"
proof (rule emits_seq [where ?R1.0 = "reaches P k"
      and ?R2.0 = "\<lambda>es out. list_all (\<lambda>e. True) es"])
  show "emits m (reaches P k)" by (rule assms(1))
  show "emits (f a) (\<lambda>es out. list_all (\<lambda>e. True) es)" for a
    using assms(2) [of a] by (simp add: calls_satisfy_def)
  show "behind P k es" if "reaches P k es (Raised e)" for es e
    using that by (simp add: reaches_def behind_low)
  show "behind P k (es1 @ es2)" if "reaches P k es1 Returned" for es1 es2
    using that by (rule behind_reached)
qed

lemma behind_case_prod:
  "(\<And>a b. emits (f a b) (\<lambda>es out. behind P k es))
     \<Longrightarrow> emits (case_prod f x) (\<lambda>es out. behind P k es)"
  by (cases x) simp

lemma reaches_invoke: "rank c = k \<Longrightarrow> emits (invoke c g) (reaches returned k)"
  by (rule emits_invoke) (simp add: reaches_def returned_def)

lemma reaches_lift_seq: "emits (f a) (reaches P k) \<Longrightarrow> emits (seq (lift (Inr a)) f) (reaches P k)"
  by (simp add: emits_def seq_def lift_def)

lemma reaches_raise: "emits (seq (lift (Inl e)) f) (reaches P k)"
  by (simp add: emits_def seq_def lift_def reaches_def outcome_of_def)

lemma reaches_deploy: "emits (cell_deploy env estimator h) (reaches returned 10)"
proof (cases h)
  case None
  then show ?thesis
    by (simp add: cell_deploy_def emits_def lift_def reaches_def outcome_of_def)
next
  case (Some args)
  show ?thesis
  proof (cases estimator)
    case None
    with Some show ?thesis
      by (simp add: cell_deploy_def variable_def reaches_raise)
  next
    case (Some u)
    with \<open>h = Some args\<close> show ?thesis
      by (simp add: cell_deploy_def variable_def reaches_lift_seq reaches_invoke rank_def)
  qed
qed

lemma calls_of_rest:
  "calls_satisfy (\<lambda>c. True) (copy_files env files d1 d2)"
  "calls_satisfy (\<lambda>c. True) (predict_loop_timed env b k f cs acc)"
  by (simp_all add: calls_satisfy_copy_files calls_satisfy_predict_loop_timed)

lemma behind_deploy: "emits (notebook env cfg) (\<lambda>es out. behind returned 10 es)"
  unfolding notebook_def
  apply (((rule behind_case_prod)?, rule behind_seq_before, rule staged_cells, (simp; fail))+)
  apply (rule behind_seq_at)
   apply (rule reaches_deploy)
  apply (unfold cell_defs)
  apply (intro calls_satisfy_rules calls_of_rest; simp)
  done

lemma behind_upload: "emits (notebook env cfg) (\<lambda>es out. behind returned 6 es)"
  unfolding notebook_def
  apply (((rule behind_case_prod)?, rule behind_seq_before, rule staged_cells, (simp; fail))+)
  apply (rule behind_seq_at)
   apply (unfold cell_upload_train_def, rule reaches_invoke, simp add: rank_def)
  apply (unfold cell_defs)
  apply (intro calls_satisfy_rules calls_of_rest; simp)
  done

text \<open>The deploy cell reads \<^verbatim>\<open>estimator\<close>: when the constructor raised, the name is
  unassigned and the run stops there without a further call; otherwise \<^verbatim>\<open>fit\<close> has been
  called, whether or not it returned.\<close>

lemma deploy_unassigned:
  "\<exists>e. seq (cell_deploy env None h) g s = (Inl e, s)"
  by (cases h) (simp_all add: cell_deploy_def seq_def lift_def variable_def)

lemma behind_fit_tail:
  assumes rest: "\<And>estimator. calls_satisfy (\<lambda>c. True) (seq (cell_deploy env estimator h) g)"
  shows "emits (seq (cell_train env role_arn S3_inputs)
           (\<lambda>estimator. seq (cell_deploy env estimator h) g)) (\<lambda>es out. behind called 9 es)"
  unfolding emits_def
proof
  fix s
  let ?m = "seq (cell_train env role_arn S3_inputs) (\<lambda>estimator. seq (cell_deploy env estimator h) g)"
  obtain r s1 where t: "cell_train env role_arn S3_inputs s = (r, s1)"
    by (cases "cell_train env role_arn S3_inputs s")
  from train_cases [OF t]
  show "\<exists>es. trace (snd (?m s)) = trace s @ es \<and> behind called 9 es"
  proof (elim disjE exE conjE)
    fix e w1
    assume r: "r = Inr None"
      and s1: "s1 = \<lparr>world = w1, trace = trace s @ [(PyTorch (pytorch_estimator role_arn), Raised e)]\<rparr>"
    from deploy_unassigned [of env h g s1] obtain x where
      "seq (cell_deploy env None h) g s1 = (Inl x, s1)" by blast
    with t r have "?m s = (Inl x, s1)" by (simp add: seq_def)
    moreover have "behind called 9 [(PyTorch (pytorch_estimator role_arn), Raised e)]"
      by (rule behind_low) (simp add: rank_def)
    ultimately show ?thesis using s1 by auto
  next
    fix w1
    assume r: "r = Inr (Some ())"
      and s1: "s1 = \<lparr>world = snd (fit env S3_inputs w1),
                    trace = trace s @ [(PyTorch (pytorch_estimator role_arn), Returned),
                                       (Fit S3_inputs, outcome_of (fst (fit env S3_inputs w1)))]\<rparr>"
    let ?es1 = "[(PyTorch (pytorch_estimator role_arn), Returned),
                 (Fit S3_inputs, outcome_of (fst (fit env S3_inputs w1)))]"
    from t r have run: "?m s = seq (cell_deploy env (Some ()) h) g s1" by (simp add: seq_def)
    from calls_satisfyD [OF rest surjective_pairing, of "Some ()" s1]
    obtain es2 where es2: "trace (snd (seq (cell_deploy env (Some ()) h) g s1)) = trace s1 @ es2"
      by blast
    have "reaches called 9 ?es1 Returned"
      by (simp add: reaches_def rank_def called_def)
    then have "behind called 9 (?es1 @ es2)" by (rule behind_reached)
    moreover have "trace (snd (?m s)) = trace s @ (?es1 @ es2)"
      using run es2 s1 by simp
    ultimately show ?thesis by blast
  qed
qed

lemma behind_fit: "emits (notebook env cfg) (\<lambda>es out. behind called 9 es)"
  unfolding notebook_def
  apply (((rule behind_case_prod)?, rule behind_seq_before, rule staged_cells, (simp; fail))+)
  apply (rule behind_fit_tail)
  apply (unfold cell_defs)
  apply (intro calls_satisfy_rules calls_of_rest; simp)
  done

text \<open>With the deploy cell as shipped the run stops there at the latest: it does not end
  normally and makes no call after the training job.\<close>

lemma stopped_seq:
  assumes "staged lo hi m" and "hi \<le> k" and "\<And>a. emits (f a) (stopped k)"
  shows "emits (seq m f) (stopped k)"
proof (rule emits_seq [where ?R1.0 = "\<lambda>es out. in_stage lo hi es" and ?R2.0 = "stopped k"])
  show "emits m (\<lambda>es out. in_stage lo hi es)" using assms(1) by (simp add: staged_def)
  show "emits (f a) (stopped k)" for a by (rule assms(3))
  show "stopped k es (Raised e)" if "in_stage lo hi es" for es e
    using in_stage_low [OF that assms(2)] by (simp add: stopped_def)
  show "stopped k (es1 @ es2) out" if "in_stage lo hi es1" "stopped k es2 out" for es1 es2 out
    using in_stage_low [OF that(1) assms(2)] that(2) by (simp add: stopped_def)
qed

lemma stopped_case_prod:
  "(\<And>a b. emits (f a b) (stopped k)) \<Longrightarrow> emits (case_prod f x) (stopped k)"
  by (cases x) simp

lemma stopped_shipped: "emits (seq (cell_deploy env estimator None) g) (stopped k)"
  by (simp add: emits_def cell_deploy_def seq_def lift_def stopped_def outcome_of_def)

lemma shipped_stops:
  assumes "hosting cfg = None"
  shows "emits (notebook env cfg) (stopped 9)"
  unfolding notebook_def assms
  apply (((rule stopped_case_prod)?, rule stopped_seq, rule staged_cells, (simp; fail))+)
  apply (rule stopped_shipped)
  done

lemma rank_deploy: "rank c = 10 \<longleftrightarrow> (\<exists>args. c = Deploy args)"
  by (cases c) (auto simp: rank_def split: option.splits pyval.splits)

lemma rank_fit: "rank c = 9 \<longleftrightarrow> (\<exists>inputs. c = Fit inputs)"
  by (cases c) (auto simp: rank_def split: option.splits pyval.splits)

lemma rank_train_upload:
  "rank c = 6 \<longleftrightarrow> (\<exists>key_prefix bucket. c = UploadData processed_train_path key_prefix bucket)"
  by (cases c) (auto simp: rank_def split: option.splits pyval.splits)

lemma rank_predict: "10 < rank (Predict p)"
  by (simp add: rank_def split: option.splits pyval.splits)

lemma behindD:
  assumes "behind P k es" and "i < length es" and "es ! i = (c, out)" and "k < rank c"
  shows "\<exists>j c' out'. j < i \<and> es ! j = (c', out') \<and> rank c' = k \<and> P (c', out')"
proof -
  from assms obtain j where "j < i" "rank (fst (es ! j)) = k" "P (es ! j)"
    unfolding behind_def by fastforce
  then show ?thesis by (metis prod.collapse)
qed

subsection \<open>The submission of the training job\<close>

lemma estimator_call: "calls_satisfy
   (\<lambda>c. case c of PyTorch e \<Rightarrow> \<exists>a. e = pytorch_estimator a | _ \<Rightarrow> True) (notebook env cfg)"
  unfolding notebook_def cell_defs
  by (intro calls_satisfy_rules calls_satisfy_copy_files calls_satisfy_predict_loop_timed) auto

lemma fit_follows_append:
  assumes "fit_follows_estimator es1" and "fit_follows_estimator es2"
  shows "fit_follows_estimator (es1 @ es2)"
  unfolding fit_follows_estimator_def
proof (intro allI impI)
  fix i inputs out
  assume i: "i < length (es1 @ es2)" and at: "(es1 @ es2) ! i = (Fit inputs, out)"
  show "0 < i \<and> (\<exists>role_arn. (es1 @ es2) ! (i - 1) = (PyTorch (pytorch_estimator role_arn), Returned))"
  proof (cases "i < length es1")
    case True
    with at have "es1 ! i = (Fit inputs, out)" by (simp add: nth_append)
    with assms(1) True obtain role_arn where
      "0 < i" "es1 ! (i - 1) = (PyTorch (pytorch_estimator role_arn), Returned)"
      unfolding fit_follows_estimator_def by blast
    moreover have "i - 1 < length es1" using True by simp
    then have "(es1 @ es2) ! (i - 1) = es1 ! (i - 1)"
      by (simp only: nth_append if_True)
    ultimately show ?thesis by auto
  next
    case False
    let ?j = "i - length es1"
    from False i have j: "?j < length es2" by simp
    from False at have "es2 ! ?j = (Fit inputs, out)" by (simp add: nth_append)
    with assms(2) j obtain role_arn where
      pos: "0 < ?j" and prev: "es2 ! (?j - 1) = (PyTorch (pytorch_estimator role_arn), Returned)"
      unfolding fit_follows_estimator_def by blast
    from pos have "\<not> i - 1 < length es1" "i - 1 - length es1 = ?j - 1" by simp_all
    then have "(es1 @ es2) ! (i - 1) = es2 ! (?j - 1)" by (simp add: nth_append)
    with pos prev show ?thesis by auto
  qed
qed

lemma fit_follows_staged:
  assumes "staged lo hi m" and "hi < 9 \<or> 9 < lo"
  shows "emits m (\<lambda>es out. fit_follows_estimator es)"
proof (rule emits_weaken [OF assms(1) [unfolded staged_def]])
  fix es :: "(call \<times> outcome) list" and out :: outcome
  assume st: "in_stage lo hi es"
  have "es ! i \<noteq> (Fit inputs, out')" if "i < length es" for i inputs out'
  proof
    assume "es ! i = (Fit inputs, out')"
    then have "rank (fst (es ! i)) = 9" by (simp add: rank_def)
    moreover have "lo \<le> rank (fst (es ! i)) \<and> rank (fst (es ! i)) \<le> hi"
      using st that by (simp add: in_stage_def list_all_length)
    ultimately show False using assms(2) by auto
  qed
  then show "fit_follows_estimator es" by (simp add: fit_follows_estimator_def)
qed

lemma fit_follows_seq:
  assumes "emits m (\<lambda>es out. fit_follows_estimator es)"
    and "\<And>a. emits (f a) (\<lambda>es out. fit_follows_estimator es)"
  shows "emits (seq m f) (\<lambda>es out. fit_follows_estimator es)"
  by (rule emits_seq [OF assms]) (simp_all add: fit_follows_append)

lemma fit_follows_case_prod:
  "(\<And>a b. emits (f a b) (\<lambda>es out. fit_follows_estimator es))
     \<Longrightarrow> emits (case_prod f x) (\<lambda>es out. fit_follows_estimator es)"
  by (cases x) simp

lemma fit_follows_train:
  "emits (cell_train env role_arn S3_inputs) (\<lambda>es out. fit_follows_estimator es)"
  unfolding emits_def
proof
  fix s
  obtain r s1 where t: "cell_train env role_arn S3_inputs s = (r, s1)"
    by (cases "cell_train env role_arn S3_inputs s")
  have one: "fit_follows_estimator [(PyTorch (pytorch_estimator role_arn), Raised e)]" for e
    by (simp add: fit_follows_estimator_def)
  have two: "fit_follows_estimator
      [(PyTorch (pytorch_estimator role_arn), Returned), (Fit S3_inputs, out)]" for out
    by (auto simp: fit_follows_estimator_def less_Suc_eq)
  from train_cases [OF t] one two
  show "\<exists>es. trace (snd (cell_train env role_arn S3_inputs s)) = trace s @ es
          \<and> fit_follows_estimator es"
    unfolding t by auto
qed

lemma fit_follows_notebook: "emits (notebook env cfg) (\<lambda>es out. fit_follows_estimator es)"
  unfolding notebook_def
  apply (intro fit_follows_seq fit_follows_case_prod fit_follows_train)
  apply ((rule fit_follows_staged, rule staged_cells, simp)+)
  apply (rule emits_ret)
  apply (simp add: fit_follows_estimator_def)
  done

lemma finished_run_fits:
  assumes run: "notebook env cfg s = (Inr v, s')" and es: "trace s' = trace s @ es"
  shows "\<exists>i role_arn out. Suc i < length es
    \<and> es ! i = (PyTorch (pytorch_estimator role_arn), Returned)
    \<and> es ! Suc i = (Fit (var_S3_inputs v), out)"
proof -
  from notebook_finished [OF run] obtain pre role_arn s10 s11 L where
    a: "adds pre s s10"
    and t: "cell_train env role_arn (var_S3_inputs v) s10 = (Inr (Some ()), s11)"
    and b: "adds L s11 s'"
    by blast
  from adds_grows [OF a] obtain es0 where es0: "trace s10 = trace s @ es0" by blast
  from adds_grows [OF b] obtain es2 where es2: "trace s' = trace s11 @ es2" by blast
  from train_cases [OF t] obtain out where
    "trace s11 = trace s10 @ [(PyTorch (pytorch_estimator role_arn), Returned),
                               (Fit (var_S3_inputs v), out)]"
    by auto
  with es es0 es2 have "es = es0 @ [(PyTorch (pytorch_estimator role_arn), Returned),
                               (Fit (var_S3_inputs v), out)] @ es2"
    by simp
  then have "Suc (length es0) < length es"
    "es ! length es0 = (PyTorch (pytorch_estimator role_arn), Returned)"
    "es ! Suc (length es0) = (Fit (var_S3_inputs v), out)"
    by (simp_all add: nth_append)
  then show ?thesis by blast
qed

text \<open>
  Claim C5. The estimator of the training job has entry point \<^verbatim>\<open>train.py\<close>, framework
  version \<^verbatim>\<open>1.6.0\<close>, one instance, the hyperparameters seed 123, lr 0.001 and
  epochs 20 and no others, and three metric definitions. Their expressions are the log
  prefixes \<^verbatim>\<open>average loss: \<close>, \<^verbatim>\<open>current mean dice: \<close> and \<^verbatim>\<open>best mean dice: \<close>, each
  followed by a group over digits and dots; searched in a log line, each captures the
  numeric text that follows the first occurrence of its prefix. The job is submitted
  with this estimator: when the constructor returns, the training cell calls \<^verbatim>\<open>fit\<close>
  once, on the inputs it is given and in the world the constructor left, and leaves
  what \<^verbatim>\<open>fit\<close> leaves. In every run of the notebook every estimator constructed is this
  one and every \<^verbatim>\<open>fit\<close> call comes directly after a constructor call that returned; a
  run that reaches the end has called \<^verbatim>\<open>fit\<close> on the URI of the uploaded training data.
\<close>

theorem training_job_submission:
  "entry_point (pytorch_estimator role_arn) = ''train.py''
   \<and> framework_version (pytorch_estimator role_arn) = ''1.6.0''
   \<and> instance_count (pytorch_estimator role_arn) = 1
   \<and> hyperparameters (pytorch_estimator role_arn)
       = [(''seed'', PInt 123), (''lr'', PFloat ''0.001''), (''epochs'', PInt 20)]
   \<and> length (metric_definitions (pytorch_estimator role_arn)) = 3
   \<and> map (\<lambda>m. parse_regex (Regex m)) (metric_definitions (pytorch_estimator role_arn))
       = map (\<lambda>p. Some (p, [(CHR ''0'', CHR ''9''), (CHR ''.'', CHR ''.'')]))
           [''average loss: '', ''current mean dice: '', ''best mean dice: '']
   \<and> (\<forall>i < 3. \<forall>before num rest.
         absent_before (log_prefixes ! i) (before @ log_prefixes ! i @ num @ rest) (length before)
         \<and> list_all numeric_char num \<and> (rest = [] \<or> \<not> numeric_char (hd rest))
         \<longrightarrow> captured (Regex (metric_definitions (pytorch_estimator role_arn) ! i))
               (before @ log_prefixes ! i @ num @ rest) = Some num)
   \<and> (new_estimator env (pytorch_estimator role_arn) (world st) = (Inr (), w1) \<longrightarrow>
        cell_train env role_arn S3_inputs st =
          (Inr (Some ()),
           \<lparr>world = snd (fit env S3_inputs w1),
            trace = trace st @ [(PyTorch (pytorch_estimator role_arn), Returned),
                                (Fit S3_inputs, outcome_of (fst (fit env S3_inputs w1)))]\<rparr>))
   \<and> (notebook env cfg s = (r, s') \<longrightarrow>
        (\<exists>es. trace s' = trace s @ es
           \<and> (\<forall>e out. (PyTorch e, out) \<in> set es \<longrightarrow> (\<exists>a. e = pytorch_estimator a))
           \<and> fit_follows_estimator es
           \<and> (\<forall>v. r = Inr v \<longrightarrow>
                (\<exists>i a out. Suc i < length es
                   \<and> es ! i = (PyTorch (pytorch_estimator a), Returned)
                   \<and> es ! Suc i = (Fit (var_S3_inputs v), out)))))"
proof -
  have fields: "entry_point (pytorch_estimator role_arn) = ''train.py''"
    "framework_version (pytorch_estimator role_arn) = ''1.6.0''"
    "instance_count (pytorch_estimator role_arn) = 1"
    "hyperparameters (pytorch_estimator role_arn)
       = [(''seed'', PInt 123), (''lr'', PFloat ''0.001''), (''epochs'', PInt 20)]"
    "metric_definitions (pytorch_estimator role_arn) = metrics"
    by (simp_all add: pytorch_estimator_def)
  have three: "length metrics = 3" by (simp add: metrics_def)
  have exprs: "map (\<lambda>m. parse_regex (Regex m)) metrics
       = map (\<lambda>p. Some (p, [(CHR ''0'', CHR ''9''), (CHR ''.'', CHR ''.'')]))
           [''average loss: '', ''current mean dice: '', ''best mean dice: '']"
    using metrics_parsed by (simp add: log_prefixes_def)
  have capture: "captured (Regex (metrics ! i)) (before @ log_prefixes ! i @ num @ rest) = Some num"
    if "i < 3"
      "absent_before (log_prefixes ! i) (before @ log_prefixes ! i @ num @ rest) (length before)"
      "list_all numeric_char num" "rest = [] \<or> \<not> numeric_char (hd rest)"
    for i before num rest
    using metric_parsed [OF that(1)] log_prefix_nonempty [OF that(1)] that(2,3,4)
    by (rule captured_value)
  have submit: "cell_train env role_arn S3_inputs st =
          (Inr (Some ()),
           \<lparr>world = snd (fit env S3_inputs w1),
            trace = trace st @ [(PyTorch (pytorch_estimator role_arn), Returned),
                                (Fit S3_inputs, outcome_of (fst (fit env S3_inputs w1)))]\<rparr>)"
    if "new_estimator env (pytorch_estimator role_arn) (world st) = (Inr (), w1)"
    using train_cases [where env = env and role_arn = role_arn and S3_inputs = S3_inputs
        and s = st, OF surjective_pairing] that
    by (auto simp: prod_eq_iff)
  have calls: "\<exists>es. trace s' = trace s @ es
           \<and> (\<forall>e out. (PyTorch e, out) \<in> set es \<longrightarrow> (\<exists>a. e = pytorch_estimator a))
           \<and> fit_follows_estimator es
           \<and> (\<forall>v. r = Inr v \<longrightarrow>
                (\<exists>i a out. Suc i < length es
                   \<and> es ! i = (PyTorch (pytorch_estimator a), Returned)
                   \<and> es ! Suc i = (Fit (var_S3_inputs v), out)))"
    if run: "notebook env cfg s = (r, s')"
  proof -
    from calls_satisfyD [OF estimator_call run] obtain es where
      es: "trace s' = trace s @ es"
      and q: "\<forall>c out. (c, out) \<in> set es \<longrightarrow>
          (case c of PyTorch e \<Rightarrow> \<exists>a. e = pytorch_estimator a | _ \<Rightarrow> True)"
      by blast
    have est: "\<exists>a. e = pytorch_estimator a" if "(PyTorch e, out) \<in> set es" for e out
      using q that by force
    from emitsD [OF fit_follows_notebook run] es have follows: "fit_follows_estimator es"
      by auto
    have "\<exists>i a out. Suc i < length es
                   \<and> es ! i = (PyTorch (pytorch_estimator a), Returned)
                   \<and> es ! Suc i = (Fit (var_S3_inputs v), out)"
      if "r = Inr v" for v
      using finished_run_fits [OF run [unfolded that] es] .
    with es est follows show ?thesis by blast
  qed
  from fields three exprs capture submit calls show ?thesis
    by (simp only:) blast
qed

theorem training_job_submission_witness:
  "absent_before ''average loss: '' ''epoch 1 average loss: 0.5432 '' 8
   \<and> list_all numeric_char ''0.5432''
   \<and> \<not> numeric_char (hd '' '')
   \<and> captured (Regex (metrics ! 0)) ''epoch 1 average loss: 0.5432 '' = Some ''0.5432''
   \<and> (PyTorch (pytorch_estimator ''arn:aws:iam::000000000000:role/sample''), Returned)
       \<in> set (trace (snd (notebook sample_sdk sample_settings fresh)))
   \<and> new_estimator sample_sdk (pytorch_estimator ''arn'') (world fresh) = (Inr (), [])
   \<and> cell_train sample_sdk ''arn'' ''s3://inputs'' fresh =
       (Inr (Some ()),
        \<lparr>world = [],
         trace = [(PyTorch (pytorch_estimator ''arn''), Returned),
                  (Fit ''s3://inputs'', Returned)]\<rparr>)
   \<and> (\<exists>i a out. trace (snd (notebook sample_sdk sample_settings fresh)) ! i
                  = (PyTorch (pytorch_estimator a), Returned)
        \<and> trace (snd (notebook sample_sdk sample_settings fresh)) ! Suc i
                  = (Fit ''s3://sample-bucket/MONAI_Segmentation/train'', out))"
proof -
  have a: "absent_before ''average loss: '' ''epoch 1 average loss: 0.5432 '' 8"
    by code_simp
  have n: "list_all numeric_char ''0.5432''"
    by code_simp
  have e: "\<not> numeric_char (hd '' '')"
    by code_simp
  have p: "log_prefixes ! 0 = ''average loss: ''"
    by (simp add: log_prefixes_def)
  have m: "metric_definitions (pytorch_estimator ''arn'') ! 0 = metrics ! 0"
    by (simp add: pytorch_estimator_def)
  have c: "new_estimator sample_sdk (pytorch_estimator ''arn'') (world fresh) = (Inr (), [])"
    by (simp add: sample_sdk_def fresh_def)
  note job = training_job_submission [of "''arn''" sample_sdk fresh "[]" "''s3://inputs''"
      sample_settings fresh
      "fst (notebook sample_sdk sample_settings fresh)" "snd (notebook sample_sdk sample_settings fresh)"]
  from job
  have "\<forall>i < 3. \<forall>before num rest.
         absent_before (log_prefixes ! i) (before @ log_prefixes ! i @ num @ rest) (length before)
         \<and> list_all numeric_char num \<and> (rest = [] \<or> \<not> numeric_char (hd rest))
         \<longrightarrow> captured (Regex (metric_definitions (pytorch_estimator ''arn'') ! i))
               (before @ log_prefixes ! i @ num @ rest) = Some num"
    by blast
  then have "absent_before (log_prefixes ! 0) (''epoch 1 '' @ log_prefixes ! 0 @ ''0.5432'' @ '' '')
        (length ''epoch 1 '')
         \<and> list_all numeric_char ''0.5432'' \<and> ('' '' = [] \<or> \<not> numeric_char (hd '' ''))
         \<longrightarrow> captured (Regex (metric_definitions (pytorch_estimator ''arn'') ! 0))
               (''epoch 1 '' @ log_prefixes ! 0 @ ''0.5432'' @ '' '') = Some ''0.5432''"
    by (metis zero_less_numeral)
  moreover have "absent_before (log_prefixes ! 0)
      (''epoch 1 '' @ log_prefixes ! 0 @ ''0.5432'' @ '' '') (length ''epoch 1 '')"
    by code_simp
  ultimately have "captured (Regex (metric_definitions (pytorch_estimator ''arn'') ! 0))
               (''epoch 1 '' @ log_prefixes ! 0 @ ''0.5432'' @ '' '') = Some ''0.5432''"
    using n e by blast
  then have cap: "captured (Regex (metrics ! 0)) ''epoch 1 average loss: 0.5432 '' = Some ''0.5432''"
    by (simp add: p m)
  have mem: "(PyTorch (pytorch_estimator ''arn:aws:iam::000000000000:role/sample''), Returned)
       \<in> set (trace (snd (notebook sample_sdk sample_settings fresh)))"
    by (simp add: sample_run sample_calls_def)
  from job c have "cell_train sample_sdk ''arn'' ''s3://inputs'' fresh =
          (Inr (Some ()),
           \<lparr>world = snd (fit sample_sdk ''s3://inputs'' []),
            trace = trace fresh @ [(PyTorch (pytorch_estimator ''arn''), Returned),
                (Fit ''s3://inputs'', outcome_of (fst (fit sample_sdk ''s3://inputs'' [])))]\<rparr>)"
    by blast
  then have train: "cell_train sample_sdk ''arn'' ''s3://inputs'' fresh =
       (Inr (Some ()),
        \<lparr>world = [],
         trace = [(PyTorch (pytorch_estimator ''arn''), Returned),
                  (Fit ''s3://inputs'', Returned)]\<rparr>)"
    by (simp add: sample_sdk_def fresh_def outcome_of_def)
  from job obtain es where
    es: "trace (snd (notebook sample_sdk sample_settings fresh)) = trace fresh @ es"
    and fin: "\<forall>v. fst (notebook sample_sdk sample_settings fresh) = Inr v \<longrightarrow>
                (\<exists>i a out. Suc i < length es
                   \<and> es ! i = (PyTorch (pytorch_estimator a), Returned)
                   \<and> es ! Suc i = (Fit (var_S3_inputs v), out))"
    by auto
  have "fst (notebook sample_sdk sample_settings fresh) = Inr sample_variables"
    by (simp add: sample_run)
  with fin have "\<exists>i a out. es ! i = (PyTorch (pytorch_estimator a), Returned)
                   \<and> es ! Suc i = (Fit (var_S3_inputs sample_variables), out)"
    by blast
  moreover have "es = trace (snd (notebook sample_sdk sample_settings fresh))"
    using es by (simp add: fresh_trace)
  moreover have "var_S3_inputs sample_variables = ''s3://sample-bucket/MONAI_Segmentation/train''"
    by (simp add: sample_variables_def)
  ultimately have fit: "\<exists>i a out. trace (snd (notebook sample_sdk sample_settings fresh)) ! i
                  = (PyTorch (pytorch_estimator a), Returned)
        \<and> trace (snd (notebook sample_sdk sample_settings fresh)) ! Suc i
                  = (Fit ''s3://sample-bucket/MONAI_Segmentation/train'', out)"
    by simp
  from a n e cap mem c train fit show ?thesis by blast
qed

subsection \<open>The order of a run\<close>

lemma sample_steps:
  "steps (map (\<lambda>c. (c, Returned)) sample_calls)
     = [StepDownload, StepCompose, StepPlot, StepCopy, StepCopy, StepCopy, StepCopy,
        StepUpload, StepUpload, StepFit, StepDeploy,
        StepPredict, StepPredict, StepPredict, StepPredict, StepPredict,
        StepPredict, StepPredict, StepPredict, StepPredict, StepPredict,
        StepPlot, StepPredict, StepPredict]"
  by code_simp

lemma shipped_run:
  "notebook sample_sdk shipped_settings fresh =
     (Inl SyntaxError,
      \<lparr>world = sample_paths, trace = map (\<lambda>c. (c, Returned)) (take 19 sample_calls)\<rparr>)"
  by code_simp

text \<open>
  Claim C4. The specification lists the steps in the order download, transform
  composition, file copy, upload, training job, deployment, prediction requests,
  plotting. A run does not keep the order as listed, because the notebook plots the
  held-out volume before it copies any file and sends two more requests after it has
  plotted a predicted slice. What holds is the order of the cells themselves: in every
  run the calls appear by their place in the notebook (session, download, transform
  composition, load and plot of the held-out volume, directories, copies, upload of the
  training data, upload of the test images, estimator, training job, deployment, requests
  of the loop, plot of a predicted slice, request for a range, request for all slices);
  every \<^verbatim>\<open>predict\<close> call comes after a \<^verbatim>\<open>deploy\<close> call, which returned; every \<^verbatim>\<open>deploy\<close>
  call after a \<^verbatim>\<open>fit\<close> call, which under \<^verbatim>\<open>%%time\<close> may have raised; every \<^verbatim>\<open>fit\<close> call
  after an upload of the training directory, which returned. A run that reaches the end
  and in which every call returned has performed exactly the steps download (only if
  \<^verbatim>\<open>Spleen3D\<close> was absent), compose, plot, two copies per file pair, two uploads, fit,
  deploy, one request per slice of the loop, plot, request, request. A run reaches the
  end only with the arguments of the deploy cell filled in: as shipped, the run does not
  end normally and makes no \<^verbatim>\<open>deploy\<close> and no \<^verbatim>\<open>predict\<close> call.
\<close>

theorem notebook_order:
  assumes "notebook env cfg s = (r, s')"
  shows "\<exists>es. trace s' = trace s @ es
    \<and> sorted (map (\<lambda>e. rank (fst e)) es)
    \<and> (\<forall>i p out. i < length es \<and> es ! i = (Predict p, out) \<longrightarrow>
          (\<exists>j args. j < i \<and> es ! j = (Deploy args, Returned)))
    \<and> (\<forall>i args out. i < length es \<and> es ! i = (Deploy args, out) \<longrightarrow>
          (\<exists>j inputs out'. j < i \<and> es ! j = (Fit inputs, out')))
    \<and> (\<forall>i inputs out. i < length es \<and> es ! i = (Fit inputs, out) \<longrightarrow>
          (\<exists>j key_prefix bucket. j < i
             \<and> es ! j = (UploadData processed_train_path key_prefix bucket, Returned)))
    \<and> (\<forall>v. r = Inr v \<and> list_all returned es \<longrightarrow>
          (\<exists>pre. (pre = [] \<or> pre = [StepDownload])
             \<and> steps es = pre @ [StepCompose, StepPlot]
                 @ replicate (2 * length (var_data_dicts v)) StepCopy
                 @ [StepUpload, StepUpload, StepFit, StepDeploy]
                 @ replicate (nat (nsliceend cfg - nslicestart cfg)) StepPredict
                 @ [StepPlot, StepPredict, StepPredict]))
    \<and> (hosting cfg = None \<longrightarrow>
          (\<exists>e. r = Inl e)
          \<and> (\<forall>c out. (c, out) \<in> set es \<longrightarrow> (\<forall>args. c \<noteq> Deploy args) \<and> (\<forall>p. c \<noteq> Predict p)))"
proof -
  from emitsD [OF staged_notebook [unfolded staged_def] assms]
  obtain es where es: "trace s' = trace s @ es" and st: "in_stage 0 14 es" by blast
  have b10: "behind returned 10 es" and b9: "behind called 9 es" and b6: "behind returned 6 es"
    using emitsD [OF behind_deploy assms] emitsD [OF behind_fit assms]
      emitsD [OF behind_upload assms] es by auto
  have order: "sorted (map (\<lambda>e. rank (fst e)) es)"
    using st by (simp add: in_stage_def)
  have deploy: "\<exists>j args. j < i \<and> es ! j = (Deploy args, Returned)"
    if "i < length es" "es ! i = (Predict p, out)" for i p out
    using behindD [OF b10 that rank_predict] by (auto simp: rank_deploy returned_def)
  have fit: "\<exists>j inputs out'. j < i \<and> es ! j = (Fit inputs, out')"
    if "i < length es" "es ! i = (Deploy args, out)" for i args out
  proof -
    have "9 < rank (Deploy args)" by (simp add: rank_def)
    from behindD [OF b9 that this] show ?thesis by (auto simp: rank_fit)
  qed
  have upload: "\<exists>j key_prefix bucket. j < i
             \<and> es ! j = (UploadData processed_train_path key_prefix bucket, Returned)"
    if "i < length es" "es ! i = (Fit inputs, out)" for i inputs out
  proof -
    have "6 < rank (Fit inputs)" by (simp add: rank_def)
    from behindD [OF b6 that this] show ?thesis by (auto simp: rank_train_upload returned_def)
  qed
  have complete: "\<exists>pre. (pre = [] \<or> pre = [StepDownload])
             \<and> steps es = pre @ [StepCompose, StepPlot]
                 @ replicate (2 * length (var_data_dicts v)) StepCopy
                 @ [StepUpload, StepUpload, StepFit, StepDeploy]
                 @ replicate (nat (nsliceend cfg - nslicestart cfg)) StepPredict
                 @ [StepPlot, StepPredict, StepPredict]"
    if "r = Inr v" "list_all returned es" for v
  proof -
    from assms that(1) have "notebook env cfg s = (Inr v, s')" by simp
    from notebook_steps [OF this] obtain pre where
      pre: "pre = [] \<or> pre = [StepDownload]"
      and a: "adds (pre @ [StepCompose, StepPlot]
         @ replicate (2 * length (var_data_dicts v)) StepCopy
         @ [StepUpload, StepUpload, StepFit, StepDeploy]
         @ replicate (nat (nsliceend cfg - nslicestart cfg)) StepPredict
         @ [StepPlot, StepPredict, StepPredict]) s s'"
      by blast
    from adds_steps [OF a es that(2)] pre show ?thesis by blast
  qed
  have shipped: "(\<exists>e. r = Inl e)
          \<and> (\<forall>c out. (c, out) \<in> set es \<longrightarrow> (\<forall>args. c \<noteq> Deploy args) \<and> (\<forall>p. c \<noteq> Predict p))"
    if "hosting cfg = None"
  proof -
    from emitsD [OF shipped_stops [OF that] assms] es
    have low: "list_all (\<lambda>e. rank (fst e) \<le> 9) es" and out: "outcome_of r \<noteq> Returned"
      by (auto simp: stopped_def)
    from out have "\<exists>e. r = Inl e" by (cases r) (simp_all add: outcome_of_def)
    moreover have "(\<forall>args. c \<noteq> Deploy args) \<and> (\<forall>p. c \<noteq> Predict p)" if "(c, out) \<in> set es" for c out
    proof -
      from low that have c: "rank c \<le> 9" by (auto simp: list_all_iff)
      have "\<not> rank (Predict p) \<le> 9" for p using rank_predict [of p] by simp
      moreover have "\<not> rank (Deploy args) \<le> 9" for args by (simp add: rank_def)
      ultimately show ?thesis using c by blast
    qed
    ultimately show ?thesis by blast
  qed
  show ?thesis
  proof (intro exI conjI)
    show "trace s' = trace s @ es" by (rule es)
    show "sorted (map (\<lambda>e. rank (fst e)) es)" by (rule order)
  qed (use deploy fit upload complete shipped in blast)+
qed

theorem notebook_order_witness:
  "notebook sample_sdk sample_settings fresh =
     (Inr sample_variables, \<lparr>world = sample_paths, trace = map (\<lambda>c. (c, Returned)) sample_calls\<rparr>)
   \<and> sorted (map (\<lambda>e. rank (fst e)) (map (\<lambda>c. (c, Returned)) sample_calls))
   \<and> list_all returned (map (\<lambda>c. (c, Returned)) sample_calls)
   \<and> steps (map (\<lambda>c. (c, Returned)) sample_calls)
     = [StepDownload, StepCompose, StepPlot, StepCopy, StepCopy, StepCopy, StepCopy,
        StepUpload, StepUpload, StepFit, StepDeploy,
        StepPredict, StepPredict, StepPredict, StepPredict, StepPredict,
        StepPredict, StepPredict, StepPredict, StepPredict, StepPredict,
        StepPlot, StepPredict, StepPredict]
   \<and> hosting shipped_settings = None
   \<and> fst (notebook sample_sdk shipped_settings fresh) = Inl SyntaxError
   \<and> list_all (\<lambda>c. c \<noteq> Deploy (deploy_arguments ''ml.m5.4xlarge'' ''json'' ''json''))
       (map fst (trace (snd (notebook sample_sdk shipped_settings fresh))))"
proof -
  from notebook_order [OF sample_run] obtain es where
    "map (\<lambda>c. (c, Returned)) sample_calls = trace fresh @ es"
    and "sorted (map (\<lambda>e. rank (fst e)) es)"
    by auto
  then have sorted: "sorted (map (\<lambda>e. rank (fst e)) (map (\<lambda>c. (c, Returned)) sample_calls))"
    by (simp add: fresh_trace)
  have all: "list_all returned (map (\<lambda>c. (c, Returned)) sample_calls)"
    by (simp add: list_all_iff returned_def)
  have h: "hosting shipped_settings = None"
    by (simp add: shipped_settings_def)
  let ?run = "notebook sample_sdk shipped_settings fresh"
  from notebook_order [OF surjective_pairing, of sample_sdk shipped_settings fresh] h
  obtain es where es: "trace (snd ?run) = trace fresh @ es"
    and no: "\<forall>c out. (c, out) \<in> set es \<longrightarrow> (\<forall>args. c \<noteq> Deploy args) \<and> (\<forall>p. c \<noteq> Predict p)"
    by blast
  from es have "es = trace (snd ?run)" by (simp add: fresh_trace)
  with no have "list_all (\<lambda>c. c \<noteq> Deploy (deploy_arguments ''ml.m5.4xlarge'' ''json'' ''json''))
       (map fst (trace (snd ?run)))"
    by (fastforce simp: list_all_iff)
  moreover have "fst ?run = Inl SyntaxError" by (simp add: shipped_run)
  ultimately show ?thesis using sample_run sample_steps sorted all h by blast
qed

text \<open>The order as the specification lists it fails in the small world: the third step
  of the run is a plot, and two requests follow the last plot.\<close>

theorem listed_order_counterexample:
  "\<not> keeps_listed_order (trace (snd (notebook sample_sdk sample_settings fresh)))"
proof -
  have "map position (steps (map (\<lambda>c. (c, Returned)) sample_calls))
      = [0, 1, 7, 2, 2, 2, 2, 3, 3, 4, 5, 6, 6, 6, 6, 6, 6, 6, 6, 6, 6, 7, 6, 6]"
    by (simp add: sample_steps position_def)
  then show ?thesis
    by (simp add: keeps_listed_order_def sample_run)
qed


end
